theory Spec2Isabelle
  imports Complex_Main "HOL-Library.AList"
begin

section \<open>Errors\<close>

text \<open>
  Every way in which the modelled functions stop without a result.
  \<^item> \<open>NoMeshFound\<close>: \<open>dolfin_error("Form.cpp", "extract mesh from form", "No mesh was found...")\<close>;
  \<^item> \<open>NonMatchingMeshes\<close>: \<open>dolfin_error(..., "Non-matching meshes for function spaces and/or measures")\<close>;
  \<^item> \<open>WrongRank r n\<close>: \<open>"Expecting r function spaces (not n)"\<close>;
  \<^item> \<open>WrongNumCoefficients c n\<close>: \<open>"Expecting c coefficient (not n)"\<close>;
  \<^item> \<open>WrongFunctionSpace i\<close>: \<open>"Wrong type of function space for argument i"\<close>;
  \<^item> \<open>NullBlock\<close>: \<open>std::runtime_error("Null block not supported/tested yet.")\<close>;
  \<^item> \<open>AssertionFailed\<close>: an \<open>assert\<close> or \<open>dolfin_assert\<close> of the source does not hold;
  \<^item> \<open>NullPointer\<close>: a null \<open>shared_ptr\<close> is dereferenced;
  \<^item> \<open>IndexOutOfRange\<close>: an index past the end of a \<open>std::vector\<close> or an Eigen vector.
\<close>

datatype error =
    NoMeshFound
  | NonMatchingMeshes
  | WrongRank nat nat
  | WrongNumCoefficients nat nat
  | WrongFunctionSpace nat
  | NullBlock
  | AssertionFailed
  | NullPointer
  | IndexOutOfRange

section \<open>Data model\<close>

text \<open>
  A mesh cell as the assembler reads it: \<open>cell.index()\<close> and \<open>cell.is_ghost()\<close>.
\<close>

record Cell =
  cell_index :: nat
  cell_is_ghost :: bool

text \<open>
  A mesh object. \<open>mesh_addr\<close> is the address of the object (pointers to meshes are
  compared by it), \<open>mesh_cells\<close> the cells that \<open>MeshRange<Cell>(mesh)\<close> enumerates,
  \<open>mesh_mpi_size\<close> the value of \<open>MPI::size(mesh.mpi_comm())\<close>.
  A \<open>shared_ptr<const Mesh>\<close> is a \<open>Mesh option\<close>, \<open>None\<close> the null pointer.
\<close>

record Mesh =
  mesh_addr :: nat
  mesh_cells :: "Cell list"
  mesh_mpi_size :: nat

text \<open>
  A function space: its address, \<open>mesh()\<close>, the signature of \<open>element()\<close> (\<open>None\<close>
  for a null element), \<open>dofmap()->cell_dofs(c)\<close>, the size \<open>MapSize::ALL\<close> and the
  block size of \<open>dofmap()->index_map()\<close>, and the addresses of its sub-spaces.
\<close>

record FunctionSpace =
  fs_addr :: nat
  fs_mesh :: "Mesh option"
  fs_element :: "string option"
  cell_dofs :: "nat \<Rightarrow> nat list"
  index_map_size_all :: nat
  index_map_block_size :: nat
  fs_subspaces :: "nat list"

text \<open>
  A coefficient is a \<open>GenericFunction\<close>; \<open>Form::mesh\<close> tells a \<open>Function\<close> (which has
  a function space) from every other kind by \<open>dynamic_cast\<close>.
\<close>

datatype GenericFunction = Function FunctionSpace | Expression

text \<open>
  The generated \<open>ufc::form\<close>: \<open>rank()\<close>, \<open>num_coefficients()\<close> and the signature of
  \<open>create_finite_element(i)\<close> (\<open>None\<close> when no element is created).
\<close>

record ufc_form =
  ufc_rank :: nat
  ufc_num_coefficients :: nat
  ufc_element_signature :: "nat \<Rightarrow> string option"

text \<open>
  A form. The fields are the members of the class: \<open>_ufc_form\<close>, \<open>_function_spaces\<close>,
  \<open>_coefficients\<close>, \<open>_mesh\<close> and the four domain markers \<open>dx\<close>, \<open>ds\<close>, \<open>dS\<close>, \<open>dP\<close>
  (a marker is represented by the pointer its \<open>mesh()\<close> returns; the outer \<open>None\<close> is a
  null marker). \<open>tabulate_tensor\<close> is the cell kernel: \<open>tabulate_tensor f c k\<close> is the
  \<open>k\<close>-th number the kernel writes into the row-major buffer it is handed for cell \<open>c\<close>.
\<close>

record Form =
  form_ufc :: "ufc_form option"
  function_spaces :: "FunctionSpace option list"
  coefficients :: "GenericFunction option list"
  form_mesh :: "Mesh option"
  form_dx :: "Mesh option option"
  form_ds :: "Mesh option option"
  form_dS :: "Mesh option option"
  form_dP :: "Mesh option option"
  tabulate_tensor :: "Cell \<Rightarrow> nat \<Rightarrow> real"

section \<open>Form::mesh\<close>

text \<open>Comparison of two mesh pointers: equal addresses, or both null.\<close>

definition mesh_ptr_eq :: "Mesh option \<Rightarrow> Mesh option \<Rightarrow> bool" where
  "mesh_ptr_eq p q = (map_option mesh_addr p = map_option mesh_addr q)"

text \<open>
  The first loop of \<open>Form::mesh\<close>: the mesh of every non-null function space is pushed;
  \<open>dolfin_assert(_function_spaces[i]->mesh())\<close> fails on a null mesh.
\<close>

fun function_space_meshes :: "FunctionSpace option list \<Rightarrow> error + Mesh option list" where
  "function_space_meshes [] = Inr []"
| "function_space_meshes (None # Vs) = function_space_meshes Vs"
| "function_space_meshes (Some V # Vs) =
     (case fs_mesh V of
        None \<Rightarrow> Inl AssertionFailed
      | Some m \<Rightarrow>
          (case function_space_meshes Vs of
             Inl e \<Rightarrow> Inl e
           | Inr ms \<Rightarrow> Inr (Some m # ms)))"

text \<open>A non-null pointer or marker contributes one entry, in the order of the source.\<close>

definition pushed :: "'a option \<Rightarrow> 'a list" where
  "pushed p = (case p of None \<Rightarrow> [] | Some x \<Rightarrow> [x])"

definition marker_meshes :: "Form \<Rightarrow> Mesh option list" where
  "marker_meshes f =
     pushed (form_dx f) @ pushed (form_ds f) @ pushed (form_dS f) @ pushed (form_dP f)"

text \<open>
  The meshes \<open>Form::mesh\<close> collects before it looks at any coefficient: function spaces,
  then \<open>_mesh\<close>, then the markers.
\<close>

definition primary_meshes :: "Form \<Rightarrow> error + Mesh option list" where
  "primary_meshes f =
     (case function_space_meshes (function_spaces f) of
        Inl e \<Rightarrow> Inl e
      | Inr ms \<Rightarrow> Inr (ms @ map Some (pushed (form_mesh f)) @ marker_meshes f))"

text \<open>
  The loop over the coefficients: a coefficient that is a \<open>Function\<close> whose function space
  has a mesh contributes it; a null coefficient (the \<open>dynamic_cast\<close> of a null pointer is
  null) and any other kind of coefficient contribute nothing.
\<close>

fun coefficient_meshes :: "GenericFunction option list \<Rightarrow> Mesh option list" where
  "coefficient_meshes [] = []"
| "coefficient_meshes (Some (Function V) # cs) =
     (case fs_mesh V of
        None \<Rightarrow> coefficient_meshes cs
      | Some m \<Rightarrow> Some m # coefficient_meshes cs)"
| "coefficient_meshes (c # cs) = coefficient_meshes cs"

text \<open>
  The loop \<open>for i = 1 .. meshes.size()-1\<close> that compares each mesh with its predecessor:
  \<open>True\<close> when no pair of neighbours differs.
\<close>

fun meshes_match :: "Mesh option list \<Rightarrow> bool" where
  "meshes_match (m0 # m1 # ms) = (mesh_ptr_eq m1 m0 \<and> meshes_match (m1 # ms))"
| "meshes_match ms = True"

definition Form_mesh :: "Form \<Rightarrow> error + Mesh" where
  "Form_mesh f =
     (case primary_meshes f of
        Inl e \<Rightarrow> Inl e
      | Inr ms0 \<Rightarrow>
          (let meshes = (if ms0 = [] then coefficient_meshes (coefficients f) else ms0)
           in if meshes = [] then Inl NoMeshFound
              else if \<not> meshes_match meshes then Inl NonMatchingMeshes
              else (case hd meshes of
                      None \<Rightarrow> Inl AssertionFailed
                    | Some m \<Rightarrow> Inr m)))"

section \<open>Form::check\<close>

text \<open>
  The loop over the argument function spaces, \<open>i\<close> the running index:
  \<open>dolfin_assert(element)\<close>, \<open>dolfin_assert(_function_spaces[i]->element())\<close> (through
  a null function space it dereferences a null pointer), then the comparison of the
  two signatures.
\<close>

fun check_elements :: "ufc_form \<Rightarrow> nat \<Rightarrow> FunctionSpace option list \<Rightarrow> error + unit" where
  "check_elements u i [] = Inr ()"
| "check_elements u i (V # Vs) =
     (case ufc_element_signature u i of
        None \<Rightarrow> Inl AssertionFailed
      | Some expected \<Rightarrow>
          (case V of
             None \<Rightarrow> Inl NullPointer
           | Some W \<Rightarrow>
               (case fs_element W of
                  None \<Rightarrow> Inl AssertionFailed
                | Some found \<Rightarrow>
                    if expected \<noteq> found then Inl (WrongFunctionSpace i)
                    else check_elements u (Suc i) Vs)))"

definition Form_check :: "Form \<Rightarrow> error + unit" where
  "Form_check f =
     (case form_ufc f of
        None \<Rightarrow> Inl AssertionFailed
      | Some u \<Rightarrow>
          if ufc_rank u \<noteq> length (function_spaces f)
          then Inl (WrongRank (ufc_rank u) (length (function_spaces f)))
          else if ufc_num_coefficients u \<noteq> length (coefficients f)
          then Inl (WrongNumCoefficients (ufc_num_coefficients u) (length (coefficients f)))
          else check_elements u 0 (function_spaces f))"

text \<open>
  \<open>Form::function_space(i)\<close>: \<open>dolfin_assert(i < _function_spaces.size())\<close>, then the
  stored pointer, which may be null.
\<close>

definition Form_function_space :: "Form \<Rightarrow> nat \<Rightarrow> error + FunctionSpace option" where
  "Form_function_space f i =
     (if i < length (function_spaces f) then Inr (function_spaces f ! i)
      else Inl AssertionFailed)"

text \<open>Following a \<open>shared_ptr\<close> with \<open>->\<close> or \<open>*\<close>: a null pointer has no target.\<close>

definition deref :: "'a option \<Rightarrow> error + 'a" where
  "deref p = (case p of None \<Rightarrow> Inl NullPointer | Some x \<Rightarrow> Inr x)"

text \<open>\<open>f.function_space(i)->...\<close>: the accessor followed by the dereference.\<close>

definition function_space :: "Form \<Rightarrow> nat \<Rightarrow> error + FunctionSpace" where
  "function_space f i =
     (case Form_function_space f i of Inl e \<Rightarrow> Inl e | Inr p \<Rightarrow> deref p)"

section \<open>Boundary conditions\<close>

datatype Method = topological | geometric | pointwise

text \<open>
  \<open>DirichletBC::Map\<close> is a hash map from a dof index to the prescribed value. It is an
  association list whose keys are kept distinct; \<open>find\<close> is \<open>map_of\<close>.
\<close>

type_synonym Map = "(nat \<times> real) list"

text \<open>
  A Dirichlet condition: \<open>function_space()\<close>, \<open>method()\<close>, the pairs (local dof, value)
  it constrains on this process, and the pairs \<open>gather\<close> receives from the other
  processes.
\<close>

record DirichletBC =
  bc_function_space :: "FunctionSpace option"
  bc_method :: Method
  bc_values :: "(nat \<times> real) list"
  bc_gathered :: "(nat \<times> real) list"

text \<open>
  Modelled from the spec: \<open>DirichletBC::get_boundary_values\<close> is not among the sources.
  It merges the condition's local constrained-dof to value mapping into the accumulated
  map.
\<close>

definition get_boundary_values :: "DirichletBC \<Rightarrow> Map \<Rightarrow> Map" where
  "get_boundary_values bc m = fold (\<lambda>(dof, v). AList.update dof v) (bc_values bc) m"

text \<open>
  Modelled from the spec: \<open>DirichletBC::gather\<close> is not among the sources. It completes
  the map with the constrained dofs received from the other processes.
\<close>

definition gather :: "DirichletBC \<Rightarrow> Map \<Rightarrow> Map" where
  "gather bc m = fold (\<lambda>(dof, v). AList.update dof v) (bc_gathered bc) m"

text \<open>
  Modelled from the spec: \<open>FunctionSpace::contains\<close> is not among the sources. A space
  contains a space that is the same as it, or one of its sub-spaces.
\<close>

definition contains :: "FunctionSpace \<Rightarrow> FunctionSpace \<Rightarrow> bool" where
  "contains V W = (fs_addr W = fs_addr V \<or> fs_addr W \<in> set (fs_subspaces V))"

text \<open>
  The body of the loops over the boundary conditions, for one condition and one map:
  the values are merged, and gathered when there is more than one process and the method
  is not pointwise.
\<close>

definition merge_bc :: "nat \<Rightarrow> DirichletBC \<Rightarrow> Map \<Rightarrow> Map" where
  "merge_bc nproc bc m =
     (let m1 = get_boundary_values bc m
      in if nproc > 1 \<and> bc_method bc \<noteq> pointwise then gather bc m1 else m1)"

text \<open>
  The loop over \<open>bcs\<close> of \<open>apply_bc\<close>, \<open>set_bc\<close> and of the single path of the block
  assembly. \<open>Vr\<close> is the function space the conditions are matched against, as the result
  of reaching it (the source reaches it inside the loop, after the two assertions).
\<close>

fun collect_boundary_values ::
  "nat \<Rightarrow> error + FunctionSpace \<Rightarrow> DirichletBC option list \<Rightarrow> Map \<Rightarrow> error + Map" where
  "collect_boundary_values nproc Vr [] m = Inr m"
| "collect_boundary_values nproc Vr (None # bcs) m = Inl AssertionFailed"
| "collect_boundary_values nproc Vr (Some bc # bcs) m =
     (case bc_function_space bc of
        None \<Rightarrow> Inl AssertionFailed
      | Some W \<Rightarrow>
          (case Vr of
             Inl e \<Rightarrow> Inl e
           | Inr V \<Rightarrow>
               collect_boundary_values nproc Vr bcs
                 (if contains V W then merge_bc nproc bc m else m)))"

text \<open>
  The loop over \<open>bcs\<close> of the matrix core, which fills one map per axis.
\<close>

fun collect_axes ::
  "nat \<Rightarrow> FunctionSpace \<Rightarrow> FunctionSpace \<Rightarrow> DirichletBC option list \<Rightarrow> Map \<times> Map
     \<Rightarrow> error + Map \<times> Map" where
  "collect_axes nproc V0 V1 [] ms = Inr ms"
| "collect_axes nproc V0 V1 (None # bcs) ms = Inl AssertionFailed"
| "collect_axes nproc V0 V1 (Some bc # bcs) ms =
     (case bc_function_space bc of
        None \<Rightarrow> Inl AssertionFailed
      | Some W \<Rightarrow>
          collect_axes nproc V0 V1 bcs
            (if contains V0 W then merge_bc nproc bc (fst ms) else fst ms,
             if contains V1 W then merge_bc nproc bc (snd ms) else snd ms))"

section \<open>Storage\<close>

datatype AssemblyType = FINAL | FLUSH

text \<open>
  The entries of a matrix by local row and column, and a dense cell tensor by its local
  indices. The values are real numbers, the finite doubles among them. In the
  definitions of this and the next sections \<open>+=\<close> is the exact sum, which is what the
  machine computes wherever the exact sum is a double again, as it is for the small
  integers of the concrete inputs. The cores are given a second time, with the addition
  as a parameter, in the section on the addition of doubles; what is said of accumulated
  values in general is said of those.
\<close>

type_synonym entries = "nat \<Rightarrow> nat \<Rightarrow> real"

text \<open>
  One physical PETSc matrix object: its entries and the \<open>apply\<close> calls it has received,
  oldest first.
\<close>

record Mat =
  mat_values :: entries
  mat_applied :: "AssemblyType list"

text \<open>
  \<open>la::PETScMatrix\<close>: empty, one physical matrix, or a nest of physical sub-matrices
  (a null entry where the nest has no sub-matrix) with the \<open>apply\<close> calls the parent
  has received.
\<close>

datatype PETScMatrix =
    MatEmpty
  | MatPlain Mat
  | MatNest "Mat option list list" "AssemblyType list"

definition zero_Mat :: Mat where
  "zero_Mat = \<lparr>mat_values = (\<lambda>i j. 0), mat_applied = []\<rparr>"

text \<open>
  Modelled from the spec: the allocation functions \<open>init_matrix\<close>,
  \<open>init_monolithic_matrix\<close> and \<open>init_nest_matrix\<close> are not among the sources. Each
  returns a zero-initialised target of its layout; the nest has one sub-matrix per
  non-null form.
\<close>

definition init_matrix :: "Form \<Rightarrow> PETScMatrix" where
  "init_matrix a = MatPlain zero_Mat"

definition init_monolithic_matrix :: "Form option list list \<Rightarrow> PETScMatrix" where
  "init_monolithic_matrix forms = MatPlain zero_Mat"

definition init_nest_matrix :: "Form option list list \<Rightarrow> PETScMatrix" where
  "init_nest_matrix forms = MatNest (map (map (map_option (\<lambda>a. zero_Mat))) forms) []"

text \<open>\<open>PETScMatrix::apply\<close> on a physical matrix.\<close>

definition Mat_apply :: "AssemblyType \<Rightarrow> Mat \<Rightarrow> Mat" where
  "Mat_apply t A = A\<lparr>mat_applied := mat_applied A @ [t]\<rparr>"

text \<open>
  Modelled from the spec: the storage interface \<open>add_local(values, rowCount, rowIndices,
  colCount, colIndices)\<close> adds \<open>values(i, j)\<close> to the entry at row \<open>rowIndices[i]\<close> and
  column \<open>colIndices[j]\<close>.
\<close>

definition add_value :: "entries \<Rightarrow> nat \<Rightarrow> nat \<Rightarrow> real \<Rightarrow> entries" where
  "add_value A row col v = A(row := (A row)(col := A row col + v))"

definition add_local :: "entries \<Rightarrow> nat list \<Rightarrow> nat list \<Rightarrow> entries \<Rightarrow> entries" where
  "add_local A rows cols Ae =
     fold (\<lambda>i A. fold (\<lambda>j A. add_value A (rows ! i) (cols ! j) (Ae i j)) [0..<length cols] A)
       [0..<length rows] A"

text \<open>\<open>set_local\<close> of one value at one row and column overwrites the entry.\<close>

definition set_local :: "entries \<Rightarrow> nat \<Rightarrow> nat \<Rightarrow> real \<Rightarrow> entries" where
  "set_local A row col v = A(row := (A row)(col := v))"

text \<open>
  Modelled from the spec: \<open>MatGetLocalSubMatrix(A, is0, is1)\<close> is a logical sub-view
  of the physical matrix restricted to the local index ranges \<open>is0\<close> and \<open>is1\<close>: local
  index \<open>r\<close> of the view is index \<open>is ! r\<close> of the matrix, and the view has no index past
  the end of its range. \<open>None\<close> is the matrix itself.
\<close>

definition view_indices :: "nat list option \<Rightarrow> nat list \<Rightarrow> error + nat list" where
  "view_indices v dofs =
     (case v of
        None \<Rightarrow> Inr dofs
      | Some is \<Rightarrow>
          if list_all (\<lambda>d. d < length is) dofs then Inr (map (\<lambda>d. is ! d) dofs)
          else Inl IndexOutOfRange)"

text \<open>
  \<open>ISCreateBlock(comm, bs, n, idx, ...)\<close> of the storage library: the index set of the
  \<open>n\<close> blocks of size \<open>bs\<close> whose block indices are \<open>idx\<close>. By the documentation of
  the library, the block with block index \<open>b\<close> holds the indices \<open>bs * b, ...,
  bs * b + bs - 1\<close>, and the set holds the blocks in the order of \<open>idx\<close>.
\<close>

definition ISCreateBlock :: "nat \<Rightarrow> nat list \<Rightarrow> nat list" where
  "ISCreateBlock bs idx = concat (map (\<lambda>b. [bs * b..<bs * b + bs]) idx)"

definition add_local_view ::
  "(nat list \<times> nat list) option \<Rightarrow> entries \<Rightarrow> nat list \<Rightarrow> nat list \<Rightarrow> entries \<Rightarrow> error + entries" where
  "add_local_view v A rows cols Ae =
     (case view_indices (map_option fst v) rows of
        Inl e \<Rightarrow> Inl e
      | Inr rows' \<Rightarrow>
          (case view_indices (map_option snd v) cols of
             Inl e \<Rightarrow> Inl e
           | Inr cols' \<Rightarrow> Inr (add_local A rows' cols' Ae)))"

section \<open>The matrix core: Assembler::assemble(A, a, bcs)\<close>

text \<open>
  The cell tensor \<open>Ae\<close> after \<open>tabulate_tensor\<close>: a row-major matrix with \<open>ncols\<close>
  columns over the buffer the kernel has filled.
\<close>

definition cell_tensor :: "Form \<Rightarrow> Cell \<Rightarrow> nat \<Rightarrow> entries" where
  "cell_tensor a c ncols = (\<lambda>i j. tabulate_tensor a c (i * ncols + j))"

text \<open>The two loops that zero the rows and the columns of constrained dofs.\<close>

definition zero_rows :: "Map \<Rightarrow> nat list \<Rightarrow> entries \<Rightarrow> entries" where
  "zero_rows bv dmap0 Ae =
     fold (\<lambda>i Ae. if map_of bv (dmap0 ! i) \<noteq> None then Ae(i := (\<lambda>j. 0)) else Ae)
       [0..<length dmap0] Ae"

definition zero_cols :: "Map \<Rightarrow> nat list \<Rightarrow> entries \<Rightarrow> entries" where
  "zero_cols bv dmap1 Ae =
     fold (\<lambda>j Ae. if map_of bv (dmap1 ! j) \<noteq> None then (\<lambda>i. (Ae i)(j := 0)) else Ae)
       [0..<length dmap1] Ae"

text \<open>The loop over the cells of the mesh.\<close>

fun assemble_cells ::
  "(nat list \<times> nat list) option \<Rightarrow> Form \<Rightarrow> FunctionSpace \<Rightarrow> FunctionSpace \<Rightarrow> Map \<Rightarrow> Map
     \<Rightarrow> Cell list \<Rightarrow> entries \<Rightarrow> error + entries" where
  "assemble_cells v a V0 V1 bv0 bv1 [] A = Inr A"
| "assemble_cells v a V0 V1 bv0 bv1 (c # cs) A =
     (if cell_is_ghost c then Inl AssertionFailed
      else
        let dmap0 = cell_dofs V0 (cell_index c);
            dmap1 = cell_dofs V1 (cell_index c);
            Ae = zero_cols bv1 dmap1 (zero_rows bv0 dmap0 (cell_tensor a c (length dmap1)))
        in case add_local_view v A dmap0 dmap1 Ae of
             Inl e \<Rightarrow> Inl e
           | Inr A' \<Rightarrow> assemble_cells v a V0 V1 bv0 bv1 cs A')"

text \<open>
  \<open>Assembler::assemble(la::PETScMatrix& A, const Form& a, bcs)\<close>. The matrix handed in is
  a physical matrix, or the view \<open>v\<close> of one. The insertion of ones on the diagonal and
  the final \<open>apply\<close> at the end of the source function are commented out there, and so
  are absent here.
\<close>

definition assemble_matrix_form ::
  "(nat list \<times> nat list) option \<Rightarrow> Mat \<Rightarrow> Form \<Rightarrow> DirichletBC option list \<Rightarrow> error + Mat" where
  "assemble_matrix_form v A a bcs =
     (case Form_mesh a of
        Inl e \<Rightarrow> Inl e
      | Inr mesh \<Rightarrow>
     (case Form_function_space a 0 of
        Inl e \<Rightarrow> Inl e
      | Inr p0 \<Rightarrow>
     (case Form_function_space a 1 of
        Inl e \<Rightarrow> Inl e
      | Inr p1 \<Rightarrow>
     (case deref p0 of
        Inl e \<Rightarrow> Inl e
      | Inr V0 \<Rightarrow>
     (case deref p1 of
        Inl e \<Rightarrow> Inl e
      | Inr V1 \<Rightarrow>
     (case collect_axes (mesh_mpi_size mesh) V0 V1 bcs ([], []) of
        Inl e \<Rightarrow> Inl e
      | Inr bvs \<Rightarrow>
     (case assemble_cells v a V0 V1 (fst bvs) (snd bvs) (mesh_cells mesh) (mat_values A) of
        Inl e \<Rightarrow> Inl e
      | Inr vals \<Rightarrow> Inr (A\<lparr>mat_values := vals\<rparr>))))))))"

section \<open>The vector core: Assembler::assemble(b, L)\<close>

text \<open>
  The loop \<open>b[dmap[i]] += be[i]\<close>, \<open>i\<close> the running index. \<open>b\<close> is an Eigen vector of
  fixed size; an index past its end is refused.
\<close>

fun add_cell_vector :: "real list \<Rightarrow> nat list \<Rightarrow> (nat \<Rightarrow> real) \<Rightarrow> nat \<Rightarrow> error + real list" where
  "add_cell_vector b [] be i = Inr b"
| "add_cell_vector b (d # ds) be i =
     (if d < length b then add_cell_vector (b[d := b ! d + be i]) ds be (Suc i)
      else Inl IndexOutOfRange)"

fun assemble_vector_cells :: "Form \<Rightarrow> FunctionSpace \<Rightarrow> Cell list \<Rightarrow> real list \<Rightarrow> error + real list" where
  "assemble_vector_cells L V [] b = Inr b"
| "assemble_vector_cells L V (c # cs) b =
     (if cell_is_ghost c then Inl AssertionFailed
      else
        case add_cell_vector b (cell_dofs V (cell_index c)) (tabulate_tensor L c) 0 of
          Inl e \<Rightarrow> Inl e
        | Inr b' \<Rightarrow> assemble_vector_cells L V cs b')"

text \<open>\<open>Assembler::assemble(Eigen::Ref<EigenVectorXd> b, const Form& L)\<close>.\<close>

definition assemble_vector_form :: "real list \<Rightarrow> Form \<Rightarrow> error + real list" where
  "assemble_vector_form b L =
     (case Form_mesh L of
        Inl e \<Rightarrow> Inl e
      | Inr mesh \<Rightarrow>
     (case function_space L 0 of
        Inl e \<Rightarrow> Inl e
      | Inr V \<Rightarrow> assemble_vector_cells L V (mesh_cells mesh) b))"

section \<open>Vectors in the storage library\<close>

text \<open>
  A PETSc vector by local index, with the number of \<open>apply\<close> calls it has received.
\<close>

record Vec =
  vec_values :: "nat \<Rightarrow> real"
  vec_applied :: nat

text \<open>
  Modelled from the spec: the storage interface of a vector. \<open>add_local\<close> adds
  \<open>values[i]\<close> to the entry at \<open>rows[i]\<close>, \<open>set_local\<close> overwrites the entry at
  \<open>rows[i]\<close> with \<open>values[i]\<close>, \<open>apply\<close> finalizes.
\<close>

definition Vec_add_local :: "Vec \<Rightarrow> (nat \<Rightarrow> real) \<Rightarrow> nat list \<Rightarrow> Vec" where
  "Vec_add_local b values rows =
     b\<lparr>vec_values :=
         fold (\<lambda>i x. x(rows ! i := x (rows ! i) + values i)) [0..<length rows] (vec_values b)\<rparr>"

definition Vec_set_local :: "Vec \<Rightarrow> real list \<Rightarrow> nat list \<Rightarrow> Vec" where
  "Vec_set_local b values rows =
     b\<lparr>vec_values :=
         fold (\<lambda>i x. x(rows ! i := values ! i)) [0..<length values] (vec_values b)\<rparr>"

definition Vec_apply :: "Vec \<Rightarrow> Vec" where
  "Vec_apply b = b\<lparr>vec_applied := Suc (vec_applied b)\<rparr>"

section \<open>Assembler::apply_bc\<close>

text \<open>
  The loop over the columns of the cell tensor: \<open>be -= Ae.col(j) * value\<close> for every
  constrained column dof.
\<close>

definition lift_columns :: "Map \<Rightarrow> nat list \<Rightarrow> entries \<Rightarrow> nat \<Rightarrow> real" where
  "lift_columns bv dmap1 Ae =
     fold (\<lambda>j be.
       case map_of bv (dmap1 ! j) of
         None \<Rightarrow> be
       | Some value \<Rightarrow> (\<lambda>i. be i - Ae i j * value))
       [0..<length dmap1] (\<lambda>i. 0)"

text \<open>
  The loop over the cells. \<open>dofmap0\<close> is the dof map of function space 0 and \<open>dofmap1\<close>
  that of function space 1. The source takes \<open>dmap0\<close> from \<open>dofmap1\<close>
  (\<open>auto dmap0 = dofmap1->cell_dofs(cell.index())\<close>) and never reads \<open>dofmap0\<close>.
\<close>

fun apply_bc_cells ::
  "Form \<Rightarrow> FunctionSpace \<Rightarrow> FunctionSpace \<Rightarrow> Map \<Rightarrow> Cell list \<Rightarrow> Vec \<Rightarrow> error + Vec" where
  "apply_bc_cells a dofmap0 dofmap1 bv [] b = Inr b"
| "apply_bc_cells a dofmap0 dofmap1 bv (c # cs) b =
     (if cell_is_ghost c then Inl AssertionFailed
      else
        let dmap1 = cell_dofs dofmap1 (cell_index c);
            has_bc = list_ex (\<lambda>ii. map_of bv ii \<noteq> None) dmap1
        in if \<not> has_bc then apply_bc_cells a dofmap0 dofmap1 bv cs b
           else
             let dmap0 = cell_dofs dofmap1 (cell_index c);
                 Ae = cell_tensor a c (length dmap1);
                 be = lift_columns bv dmap1 Ae
             in apply_bc_cells a dofmap0 dofmap1 bv cs (Vec_add_local b be dmap0))"

definition apply_bc :: "Vec \<Rightarrow> Form \<Rightarrow> DirichletBC option list \<Rightarrow> error + Vec" where
  "apply_bc b a bcs =
     (case Form_mesh a of
        Inl e \<Rightarrow> Inl e
      | Inr mesh \<Rightarrow>
     (case collect_boundary_values (mesh_mpi_size mesh) (function_space a 1) bcs [] of
        Inl e \<Rightarrow> Inl e
      | Inr bv \<Rightarrow>
     (case function_space a 0 of
        Inl e \<Rightarrow> Inl e
      | Inr dofmap0 \<Rightarrow>
     (case function_space a 1 of
        Inl e \<Rightarrow> Inl e
      | Inr dofmap1 \<Rightarrow>
     (case apply_bc_cells a dofmap0 dofmap1 bv (mesh_cells mesh) b of
        Inl e \<Rightarrow> Inl e
      | Inr b' \<Rightarrow> Inr (Vec_apply b'))))))"

section \<open>Assembler::set_bc\<close>

definition set_bc :: "Vec \<Rightarrow> Form \<Rightarrow> DirichletBC option list \<Rightarrow> error + Vec" where
  "set_bc b L bcs =
     (case Form_mesh L of
        Inl e \<Rightarrow> Inl e
      | Inr mesh \<Rightarrow>
     (case Form_function_space L 0 of
        Inl e \<Rightarrow> Inl e
      | Inr V \<Rightarrow>
     (case collect_boundary_values (mesh_mpi_size mesh) (deref V) bcs [] of
        Inl e \<Rightarrow> Inl e
      | Inr boundary_values \<Rightarrow>
          Inr (Vec_apply
                 (Vec_set_local b (map snd boundary_values) (map fst boundary_values))))))"

section \<open>The block assembly of the matrix: Assembler::assemble(A, block_type)\<close>

text \<open>
  The assembler holds the block form collection \<open>_a\<close>, the linear forms \<open>_l\<close> and the
  boundary conditions \<open>_bcs\<close>; a null form is \<open>None\<close>.
\<close>

record Assembler =
  asm_a :: "Form option list list"
  asm_l :: "Form option list"
  asm_bcs :: "DirichletBC option list"

text \<open>
  Modelled from the spec: the declaration of \<open>BlockType\<close> is not among the sources. The
  layout hint is one of nested, monolithic and single.
\<close>

datatype BlockType = monolithic | nested | single

text \<open>
  \<open>_a[0][0]\<close>. The constructor asserts \<open>!a.empty()\<close> and \<open>!a[0].empty()\<close>.
\<close>

definition block00 :: "Form option list list \<Rightarrow> error + Form option" where
  "block00 a =
     (case a of
        [] \<Rightarrow> Inl AssertionFailed
      | row0 # rows \<Rightarrow> (case row0 of [] \<Rightarrow> Inl AssertionFailed | a00 # r \<Rightarrow> Inr a00))"

text \<open>
  The array \<open>forms\<close> of raw pointers built for the allocation: \<open>_a.size()\<close> rows of
  \<open>_a[0].size()\<close> null pointers, overwritten with the forms of each row.
\<close>

definition forms_of :: "Form option list list \<Rightarrow> Form option list list" where
  "forms_of a =
     (case a of
        [] \<Rightarrow> []
      | row0 # rows \<Rightarrow> map (\<lambda>row. row @ replicate (length row0 - length row) None) a)"

text \<open>
  The allocation of an empty target (\<open>if (A.empty()) ...\<close>). A row of \<open>_a\<close> longer than
  \<open>_a[0]\<close> would be written past the end of its row of \<open>forms\<close>.
\<close>

definition allocate_matrix :: "Assembler \<Rightarrow> PETScMatrix \<Rightarrow> BlockType \<Rightarrow> error + PETScMatrix" where
  "allocate_matrix asm A block_type =
     (case asm_a asm of
        [] \<Rightarrow> Inl AssertionFailed
      | row0 # rows \<Rightarrow>
          let a = asm_a asm;
              block_matrix = (length a > 1 \<or> length row0 > 1)
          in case A of
               MatEmpty \<Rightarrow>
                 if \<not> list_all (\<lambda>row. length row \<le> length row0) a then Inl IndexOutOfRange
                 else if block_type = nested then Inr (init_nest_matrix (forms_of a))
                 else if block_matrix \<and> block_type = monolithic
                 then Inr (init_monolithic_matrix (forms_of a))
                 else (case block00 a of
                         Inl e \<Rightarrow> Inl e
                       | Inr p \<Rightarrow>
                           (case deref p of Inl e \<Rightarrow> Inl e | Inr a00 \<Rightarrow> Inr (init_matrix a00)))
             | MatPlain M \<Rightarrow> Inr A
             | MatNest subs applied \<Rightarrow> Inr A)"

text \<open>
  \<open>MatNestGetSubMat(A, i, j)\<close>: the sub-matrix of the nest, null where there is none.
\<close>

definition nest_sub :: "Mat option list list \<Rightarrow> nat \<Rightarrow> nat \<Rightarrow> Mat option" where
  "nest_sub subs i j =
     (if i < length subs \<and> j < length (subs ! i) then subs ! i ! j else None)"

definition nest_put :: "Mat option list list \<Rightarrow> nat \<Rightarrow> nat \<Rightarrow> Mat \<Rightarrow> Mat option list list" where
  "nest_put subs i j M = subs[i := (subs ! i)[j := Some M]]"

text \<open>
  The nested path: the loops over the rows \<open>i\<close> and the columns \<open>j\<close>. A non-null form is
  assembled into its sub-matrix by the matrix core (which asserts that the matrix it is
  handed is not empty); for a null form nothing is done.
\<close>

fun nest_cols ::
  "DirichletBC option list \<Rightarrow> nat \<Rightarrow> nat \<Rightarrow> Form option list \<Rightarrow> Mat option list list
     \<Rightarrow> error + Mat option list list" where
  "nest_cols bcs i j [] subs = Inr subs"
| "nest_cols bcs i j (None # fs) subs = nest_cols bcs i (Suc j) fs subs"
| "nest_cols bcs i j (Some a # fs) subs =
     (case nest_sub subs i j of
        None \<Rightarrow> Inl AssertionFailed
      | Some M \<Rightarrow>
          (case assemble_matrix_form None M a bcs of
             Inl e \<Rightarrow> Inl e
           | Inr M' \<Rightarrow> nest_cols bcs i (Suc j) fs (nest_put subs i j M')))"

fun nest_rows ::
  "DirichletBC option list \<Rightarrow> nat \<Rightarrow> Form option list list \<Rightarrow> Mat option list list
     \<Rightarrow> error + Mat option list list" where
  "nest_rows bcs i [] subs = Inr subs"
| "nest_rows bcs i (row # rows) subs =
     (case nest_cols bcs i 0 row subs of
        Inl e \<Rightarrow> Inl e
      | Inr subs' \<Rightarrow> nest_rows bcs (Suc i) rows subs')"

text \<open>
  The monolithic path, the loop over the columns of one row. \<open>offset_row\<close> and
  \<open>offset_col\<close> are the running offsets. \<open>index0\<close> and \<open>index1\<close> hold the ranges
  \<open>offset_row .. offset_row + map0_size\<close> and \<open>offset_col .. offset_col + map1_size\<close>
  (\<open>std::iota\<close>); the index sets \<open>is0\<close> and \<open>is1\<close> are made from them by
  \<open>ISCreateBlock\<close> with the block sizes of the two index maps, and the block is
  assembled into the view of the matrix they select. A null form throws.
\<close>

fun monolithic_cols ::
  "DirichletBC option list \<Rightarrow> nat \<Rightarrow> nat \<Rightarrow> Form option list \<Rightarrow> Mat \<Rightarrow> error + Mat" where
  "monolithic_cols bcs offset_row offset_col [] A = Inr A"
| "monolithic_cols bcs offset_row offset_col (None # fs) A = Inl NullBlock"
| "monolithic_cols bcs offset_row offset_col (Some a # fs) A =
     (case function_space a 0 of
        Inl e \<Rightarrow> Inl e
      | Inr V0 \<Rightarrow>
     (case function_space a 1 of
        Inl e \<Rightarrow> Inl e
      | Inr V1 \<Rightarrow>
          let map0_size = index_map_size_all V0;
              map1_size = index_map_size_all V1;
              index0 = [offset_row..<offset_row + map0_size];
              index1 = [offset_col..<offset_col + map1_size];
              is0 = ISCreateBlock (index_map_block_size V0) index0;
              is1 = ISCreateBlock (index_map_block_size V1) index1
          in case assemble_matrix_form (Some (is0, is1)) A a bcs of
               Inl e \<Rightarrow> Inl e
             | Inr A' \<Rightarrow> monolithic_cols bcs offset_row (offset_col + map1_size) fs A'))"

text \<open>
  The loop over the rows: after the columns of row \<open>i\<close>, the row offset advances by the
  size of the index map of \<open>_a[i][0]->function_space(0)\<close>.
\<close>

fun monolithic_rows ::
  "DirichletBC option list \<Rightarrow> nat \<Rightarrow> Form option list list \<Rightarrow> Mat \<Rightarrow> error + Mat" where
  "monolithic_rows bcs offset_row [] A = Inr A"
| "monolithic_rows bcs offset_row (row # rows) A =
     (case monolithic_cols bcs offset_row 0 row A of
        Inl e \<Rightarrow> Inl e
      | Inr A' \<Rightarrow>
          (case row of
             [] \<Rightarrow> Inl IndexOutOfRange
           | ai0 # r \<Rightarrow>
               (case deref ai0 of
                  Inl e \<Rightarrow> Inl e
                | Inr a \<Rightarrow>
                    (case function_space a 0 of
                       Inl e \<Rightarrow> Inl e
                     | Inr V \<Rightarrow>
                         monolithic_rows bcs (offset_row + index_map_size_all V) rows A'))))"

text \<open>
  The single path: the core on \<open>_a[0][0]\<close>, then, when the two function spaces of the
  form are the same object, a one on the diagonal for every collected boundary value.
  \<open>nproc\<close> is \<open>MPI::size(MPI_COMM_WORLD)\<close>.
\<close>

definition place_ones :: "Map \<Rightarrow> entries \<Rightarrow> entries" where
  "place_ones boundary_values A = fold (\<lambda>bc A. set_local A (fst bc) (fst bc) 1) boundary_values A"

definition assemble_single :: "nat \<Rightarrow> Assembler \<Rightarrow> Mat \<Rightarrow> error + Mat" where
  "assemble_single nproc asm A =
     (case block00 (asm_a asm) of
        Inl e \<Rightarrow> Inl e
      | Inr p \<Rightarrow>
     (case deref p of
        Inl e \<Rightarrow> Inl e
      | Inr a00 \<Rightarrow>
     (case assemble_matrix_form None A a00 (asm_bcs asm) of
        Inl e \<Rightarrow> Inl e
      | Inr A1 \<Rightarrow>
     (case Form_function_space a00 0 of
        Inl e \<Rightarrow> Inl e
      | Inr space0 \<Rightarrow>
     (case Form_function_space a00 1 of
        Inl e \<Rightarrow> Inl e
      | Inr space1 \<Rightarrow>
          if map_option fs_addr space0 = map_option fs_addr space1
          then (case collect_boundary_values nproc (deref space0) (asm_bcs asm) [] of
                  Inl e \<Rightarrow> Inl e
                | Inr boundary_values \<Rightarrow>
                    Inr (A1\<lparr>mat_values := place_ones boundary_values (mat_values A1)\<rparr>))
          else Inr A1)))))"

text \<open>\<open>A.apply(type)\<close> on the target: a nest records the call on the parent.\<close>

definition PETScMatrix_apply :: "AssemblyType \<Rightarrow> PETScMatrix \<Rightarrow> PETScMatrix" where
  "PETScMatrix_apply t A =
     (case A of
        MatEmpty \<Rightarrow> MatEmpty
      | MatPlain M \<Rightarrow> MatPlain (Mat_apply t M)
      | MatNest subs applied \<Rightarrow> MatNest subs (applied @ [t]))"

text \<open>
  \<open>Assembler::assemble(la::PETScMatrix& A, BlockType block_type)\<close>: allocation of an
  empty target, then the path chosen by the type of the matrix (\<open>MATNEST\<close> or not) and
  by \<open>block_matrix\<close>, then \<open>A.apply(FINAL)\<close>. The monolithic path has an
  \<open>A.apply(FINAL)\<close> of its own before that.
\<close>

definition assemble_matrix ::
  "nat \<Rightarrow> Assembler \<Rightarrow> PETScMatrix \<Rightarrow> BlockType \<Rightarrow> error + PETScMatrix" where
  "assemble_matrix nproc asm A block_type =
     (case asm_a asm of
        [] \<Rightarrow> Inl AssertionFailed
      | row0 # rows \<Rightarrow>
          let a = asm_a asm;
              block_matrix = (length a > 1 \<or> length row0 > 1)
          in case allocate_matrix asm A block_type of
               Inl e \<Rightarrow> Inl e
             | Inr A0 \<Rightarrow>
                 (case (case A0 of
                          MatEmpty \<Rightarrow> Inl AssertionFailed
                        | MatNest subs applied \<Rightarrow>
                            (case nest_rows (asm_bcs asm) 0 a subs of
                               Inl e \<Rightarrow> Inl e
                             | Inr subs' \<Rightarrow> Inr (MatNest subs' applied))
                        | MatPlain M \<Rightarrow>
                            if block_matrix
                            then (case monolithic_rows (asm_bcs asm) 0 a M of
                                    Inl e \<Rightarrow> Inl e
                                  | Inr M' \<Rightarrow> Inr (MatPlain (Mat_apply FINAL M')))
                            else (case assemble_single nproc asm M of
                                    Inl e \<Rightarrow> Inl e
                                  | Inr M' \<Rightarrow> Inr (MatPlain M'))) of
                    Inl e \<Rightarrow> Inl e
                  | Inr A1 \<Rightarrow> Inr (PETScMatrix_apply FINAL A1)))"

section \<open>The allocation of the vector: Assembler::assemble(b, block_type)\<close>

datatype PETScVector =
    VecEmpty
  | VecPlain Vec
  | VecNest "Vec option list"

definition zero_Vec :: Vec where
  "zero_Vec = \<lparr>vec_values = (\<lambda>i. 0), vec_applied = 0\<rparr>"

text \<open>
  Modelled from the spec: the allocation functions \<open>init_vector\<close>, \<open>init_monolithic\<close>
  and \<open>init_nest\<close> are not among the sources. Each returns a zero-initialised target
  of its layout; the nest has one sub-vector per non-null form.
\<close>

definition init_vector :: "Form \<Rightarrow> PETScVector" where
  "init_vector L = VecPlain zero_Vec"

definition init_monolithic :: "Form option list \<Rightarrow> PETScVector" where
  "init_monolithic forms = VecPlain zero_Vec"

definition init_nest :: "Form option list \<Rightarrow> PETScVector" where
  "init_nest forms = VecNest (map (map_option (\<lambda>L. zero_Vec)) forms)"

text \<open>
  The first part of \<open>Assembler::assemble(la::PETScVector& b, BlockType block_type)\<close>:
  \<open>assert(!_l.empty())\<close> and the allocation of an empty target. The array \<open>forms\<close> has
  \<open>_a.size()\<close> entries and is written at every index below \<open>_l.size()\<close>.
\<close>

definition allocate_vector :: "Assembler \<Rightarrow> PETScVector \<Rightarrow> BlockType \<Rightarrow> error + PETScVector" where
  "allocate_vector asm b block_type =
     (case asm_l asm of
        [] \<Rightarrow> Inl AssertionFailed
      | l0 # ls \<Rightarrow>
          let block_vector = (length (asm_l asm) > 1);
              forms = asm_l asm @ replicate (length (asm_a asm) - length (asm_l asm)) None
          in case b of
               VecEmpty \<Rightarrow>
                 if length (asm_l asm) > length (asm_a asm) then Inl IndexOutOfRange
                 else if block_type = nested then Inr (init_nest forms)
                 else if block_vector \<and> block_type = monolithic then Inr (init_monolithic forms)
                 else (case deref l0 of Inl e \<Rightarrow> Inl e | Inr L \<Rightarrow> Inr (init_vector L))
             | VecPlain x \<Rightarrow> Inr b
             | VecNest xs \<Rightarrow> Inr b)"

section \<open>The constrained dofs of a function space\<close>

text \<open>
  The pairs (dof, value) that one condition contributes to a map of boundary values on
  \<open>nproc\<close> processes: its local pairs, and the gathered pairs when there is more than
  one process and the method is not pointwise.
\<close>

definition bc_pairs :: "nat \<Rightarrow> DirichletBC \<Rightarrow> (nat \<times> real) set" where
  "bc_pairs nproc bc =
     set (bc_values bc) \<union>
     (if nproc > 1 \<and> bc_method bc \<noteq> pointwise then set (bc_gathered bc) else {})"

text \<open>The conditions of a list whose function space is contained in the space \<open>V\<close>.\<close>

definition matching_bcs :: "FunctionSpace \<Rightarrow> DirichletBC option list \<Rightarrow> DirichletBC set" where
  "matching_bcs V bcs =
     {bc. Some bc \<in> set bcs \<and> (\<exists>W. bc_function_space bc = Some W \<and> contains V W)}"

section \<open>The addition of doubles\<close>

text \<open>
  The values that the cores add are of the type \<open>double\<close>, IEEE 754 binary64. On finite
  values the sum of two doubles is their exact sum rounded to the nearest double, a tie
  going to the double whose last bit is even: a double of the binade \<open>2^e \<le> |x| < 2^(e+1)\<close>
  is a multiple of \<open>2^(e - 52)\<close>, and of \<open>2^(-1074)\<close> below the normal range. A sum
  whose rounded magnitude reaches \<open>2^1024\<close>, where the machine gives an infinity, is
  beyond what \<open>round64\<close> describes.
\<close>

definition round_half_even :: "real \<Rightarrow> int" where
  "round_half_even x =
     (let f = \<lfloor>x\<rfloor>
      in if x - of_int f < 1 / 2 then f
         else if 1 / 2 < x - of_int f then f + 1
         else if even f then f else f + 1)"

definition round64 :: "real \<Rightarrow> real" where
  "round64 x =
     (if x = 0 then 0
      else
        let e = \<lfloor>log 2 \<bar>x\<bar>\<rfloor>;
            q = max (e - 52) (- 1074)
        in of_int (round_half_even (x / 2 powr of_int q)) * 2 powr of_int q)"

definition fadd :: "real \<Rightarrow> real \<Rightarrow> real" where
  "fadd x y = round64 (x + y)"

text \<open>
  The matrix core and the vector core once more, with the addition \<open>fplus\<close> that \<open>+=\<close>
  and \<open>add_local\<close> perform as a parameter; everything else is as above. With the
  exact sum for \<open>fplus\<close> they are the cores above; with \<open>fadd\<close> they add as the
  machine does.
\<close>

definition add_value_with ::
  "(real \<Rightarrow> real \<Rightarrow> real) \<Rightarrow> entries \<Rightarrow> nat \<Rightarrow> nat \<Rightarrow> real \<Rightarrow> entries" where
  "add_value_with fplus A row col v = A(row := (A row)(col := fplus (A row col) v))"

definition add_local_with ::
  "(real \<Rightarrow> real \<Rightarrow> real) \<Rightarrow> entries \<Rightarrow> nat list \<Rightarrow> nat list \<Rightarrow> entries \<Rightarrow> entries" where
  "add_local_with fplus A rows cols Ae =
     fold (\<lambda>i A. fold (\<lambda>j A. add_value_with fplus A (rows ! i) (cols ! j) (Ae i j))
                    [0..<length cols] A)
       [0..<length rows] A"

definition add_local_view_with ::
  "(real \<Rightarrow> real \<Rightarrow> real) \<Rightarrow> (nat list \<times> nat list) option \<Rightarrow> entries \<Rightarrow> nat list \<Rightarrow> nat list
     \<Rightarrow> entries \<Rightarrow> error + entries" where
  "add_local_view_with fplus v A rows cols Ae =
     (case view_indices (map_option fst v) rows of
        Inl e \<Rightarrow> Inl e
      | Inr rows' \<Rightarrow>
          (case view_indices (map_option snd v) cols of
             Inl e \<Rightarrow> Inl e
           | Inr cols' \<Rightarrow> Inr (add_local_with fplus A rows' cols' Ae)))"

fun assemble_cells_with ::
  "(real \<Rightarrow> real \<Rightarrow> real) \<Rightarrow> (nat list \<times> nat list) option \<Rightarrow> Form \<Rightarrow> FunctionSpace
     \<Rightarrow> FunctionSpace \<Rightarrow> Map \<Rightarrow> Map \<Rightarrow> Cell list \<Rightarrow> entries \<Rightarrow> error + entries" where
  "assemble_cells_with fplus v a V0 V1 bv0 bv1 [] A = Inr A"
| "assemble_cells_with fplus v a V0 V1 bv0 bv1 (c # cs) A =
     (if cell_is_ghost c then Inl AssertionFailed
      else
        let dmap0 = cell_dofs V0 (cell_index c);
            dmap1 = cell_dofs V1 (cell_index c);
            Ae = zero_cols bv1 dmap1 (zero_rows bv0 dmap0 (cell_tensor a c (length dmap1)))
        in case add_local_view_with fplus v A dmap0 dmap1 Ae of
             Inl e \<Rightarrow> Inl e
           | Inr A' \<Rightarrow> assemble_cells_with fplus v a V0 V1 bv0 bv1 cs A')"

definition assemble_matrix_form_with ::
  "(real \<Rightarrow> real \<Rightarrow> real) \<Rightarrow> (nat list \<times> nat list) option \<Rightarrow> Mat \<Rightarrow> Form
     \<Rightarrow> DirichletBC option list \<Rightarrow> error + Mat" where
  "assemble_matrix_form_with fplus v A a bcs =
     (case Form_mesh a of
        Inl e \<Rightarrow> Inl e
      | Inr mesh \<Rightarrow>
     (case Form_function_space a 0 of
        Inl e \<Rightarrow> Inl e
      | Inr p0 \<Rightarrow>
     (case Form_function_space a 1 of
        Inl e \<Rightarrow> Inl e
      | Inr p1 \<Rightarrow>
     (case deref p0 of
        Inl e \<Rightarrow> Inl e
      | Inr V0 \<Rightarrow>
     (case deref p1 of
        Inl e \<Rightarrow> Inl e
      | Inr V1 \<Rightarrow>
     (case collect_axes (mesh_mpi_size mesh) V0 V1 bcs ([], []) of
        Inl e \<Rightarrow> Inl e
      | Inr bvs \<Rightarrow>
     (case assemble_cells_with fplus v a V0 V1 (fst bvs) (snd bvs) (mesh_cells mesh)
             (mat_values A) of
        Inl e \<Rightarrow> Inl e
      | Inr vals \<Rightarrow> Inr (A\<lparr>mat_values := vals\<rparr>))))))))"

fun add_cell_vector_with ::
  "(real \<Rightarrow> real \<Rightarrow> real) \<Rightarrow> real list \<Rightarrow> nat list \<Rightarrow> (nat \<Rightarrow> real) \<Rightarrow> nat \<Rightarrow> error + real list" where
  "add_cell_vector_with fplus b [] be i = Inr b"
| "add_cell_vector_with fplus b (d # ds) be i =
     (if d < length b then add_cell_vector_with fplus (b[d := fplus (b ! d) (be i)]) ds be (Suc i)
      else Inl IndexOutOfRange)"

fun assemble_vector_cells_with ::
  "(real \<Rightarrow> real \<Rightarrow> real) \<Rightarrow> Form \<Rightarrow> FunctionSpace \<Rightarrow> Cell list \<Rightarrow> real list \<Rightarrow> error + real list" where
  "assemble_vector_cells_with fplus L V [] b = Inr b"
| "assemble_vector_cells_with fplus L V (c # cs) b =
     (if cell_is_ghost c then Inl AssertionFailed
      else
        case add_cell_vector_with fplus b (cell_dofs V (cell_index c)) (tabulate_tensor L c) 0 of
          Inl e \<Rightarrow> Inl e
        | Inr b' \<Rightarrow> assemble_vector_cells_with fplus L V cs b')"

definition assemble_vector_form_with ::
  "(real \<Rightarrow> real \<Rightarrow> real) \<Rightarrow> real list \<Rightarrow> Form \<Rightarrow> error + real list" where
  "assemble_vector_form_with fplus b L =
     (case Form_mesh L of
        Inl e \<Rightarrow> Inl e
      | Inr mesh \<Rightarrow>
     (case function_space L 0 of
        Inl e \<Rightarrow> Inl e
      | Inr V \<Rightarrow> assemble_vector_cells_with fplus L V (mesh_cells mesh) b))"

section \<open>The contributions to one entry\<close>

text \<open>
  The indices of a physical matrix that the local indices \<open>dofs\<close> stand for through a
  view (\<open>None\<close>: the matrix itself).
\<close>

definition through :: "nat list option \<Rightarrow> nat list \<Rightarrow> nat list" where
  "through v dofs = (case v of None \<Rightarrow> dofs | Some is \<Rightarrow> map (\<lambda>d. is ! d) dofs)"

text \<open>
  The values that the cells contribute to the entry \<open>d\<close> of a vector, in the order of
  the cell loop and, within a cell, of the local index: the entry \<open>k\<close> of the cell
  vector for every local index \<open>k\<close> whose dof is \<open>d\<close>.
\<close>

definition vector_contributions :: "Form \<Rightarrow> FunctionSpace \<Rightarrow> Cell list \<Rightarrow> nat \<Rightarrow> real list" where
  "vector_contributions L V cells d =
     concat (map (\<lambda>c. map (tabulate_tensor L c)
                         (filter (\<lambda>k. cell_dofs V (cell_index c) ! k = d)
                            [0..<length (cell_dofs V (cell_index c))]))
               cells)"

text \<open>
  The values that the cells contribute to the entry \<open>(p, q)\<close> of a matrix, in the order
  of the cell loop and, within a cell, of the rows and then the columns of the cell
  tensor: the entry \<open>(i, j)\<close> of the cell tensor, after the rows and columns of the
  constrained dofs have been zeroed, for every \<open>i\<close> whose row is \<open>p\<close> and \<open>j\<close> whose
  column is \<open>q\<close>.
\<close>

definition matrix_contributions ::
  "(nat list \<times> nat list) option \<Rightarrow> Form \<Rightarrow> FunctionSpace \<Rightarrow> FunctionSpace \<Rightarrow> Map \<Rightarrow> Map
     \<Rightarrow> Cell list \<Rightarrow> nat \<Rightarrow> nat \<Rightarrow> real list" where
  "matrix_contributions v a V0 V1 bv0 bv1 cells p q =
     concat (map (\<lambda>c.
        let dmap0 = cell_dofs V0 (cell_index c);
            dmap1 = cell_dofs V1 (cell_index c);
            Ae = zero_cols bv1 dmap1 (zero_rows bv0 dmap0 (cell_tensor a c (length dmap1)));
            rows = through (map_option fst v) dmap0;
            cols = through (map_option snd v) dmap1
        in concat (map (\<lambda>i. map (Ae i)
                                (filter (\<lambda>j. rows ! i = p \<and> cols ! j = q) [0..<length cols]))
                     [0..<length rows]))
       cells)"

text \<open>
  None of the additions that accumulate the values \<open>cs\<close>, one after the other, onto \<open>x\<close>
  rounds: each gives the exact sum.
\<close>

fun exact_from :: "(real \<Rightarrow> real \<Rightarrow> real) \<Rightarrow> real \<Rightarrow> real list \<Rightarrow> bool" where
  "exact_from fplus x [] = True"
| "exact_from fplus x (c # cs) = (fplus x c = x + c \<and> exact_from fplus (x + c) cs)"

section \<open>A form assembled at an offset\<close>




section \<open>Concrete inputs\<close>

text \<open>
  A mesh of one owned cell on one process, a second mesh at another address, and
  function spaces on them: \<open>ex_V\<close> and \<open>ex_W\<close> on the first mesh (two dofs per cell,
  numbered \<open>0, 1\<close> and \<open>2, 3\<close>), \<open>ex_U\<close> on the second.
\<close>

definition ex_cell :: Cell where
  "ex_cell = \<lparr>cell_index = 0, cell_is_ghost = False\<rparr>"

definition ex_mesh :: Mesh where
  "ex_mesh = \<lparr>mesh_addr = 1, mesh_cells = [ex_cell], mesh_mpi_size = 1\<rparr>"

definition ex_mesh2 :: Mesh where
  "ex_mesh2 = \<lparr>mesh_addr = 2, mesh_cells = [], mesh_mpi_size = 1\<rparr>"

definition ex_V :: FunctionSpace where
  "ex_V = \<lparr>fs_addr = 10, fs_mesh = Some ex_mesh, fs_element = Some ''P1'',
           cell_dofs = (\<lambda>c. [0, 1]), index_map_size_all = 2,
           index_map_block_size = 1, fs_subspaces = []\<rparr>"

definition ex_W :: FunctionSpace where
  "ex_W = \<lparr>fs_addr = 11, fs_mesh = Some ex_mesh, fs_element = Some ''P1'',
           cell_dofs = (\<lambda>c. [2, 3]), index_map_size_all = 4,
           index_map_block_size = 1, fs_subspaces = []\<rparr>"

definition ex_U :: FunctionSpace where
  "ex_U = \<lparr>fs_addr = 12, fs_mesh = Some ex_mesh2, fs_element = Some ''P2'',
           cell_dofs = (\<lambda>c. [0, 1]), index_map_size_all = 2,
           index_map_block_size = 1, fs_subspaces = []\<rparr>"

text \<open>
  Forms whose kernel writes \<open>1, 2, 3, 4\<close> into the buffer: the bilinear form \<open>ex_a\<close> on
  \<open>(ex_V, ex_V)\<close>, generated for the element \<open>P1\<close>; the same form \<open>ex_a_P2\<close> generated for
  the element \<open>P2\<close>; the bilinear form \<open>ex_a01\<close> on \<open>(ex_W, ex_V)\<close>; the linear form
  \<open>ex_L\<close> on \<open>ex_V\<close>.
\<close>

definition ex_ufc :: "string \<Rightarrow> nat \<Rightarrow> ufc_form" where
  "ex_ufc sig r = \<lparr>ufc_rank = r, ufc_num_coefficients = 0,
                    ufc_element_signature = (\<lambda>i. Some sig)\<rparr>"

definition ex_form :: "string \<Rightarrow> FunctionSpace list \<Rightarrow> Form" where
  "ex_form sig Vs =
     \<lparr>form_ufc = Some (ex_ufc sig (length Vs)), function_spaces = map Some Vs,
      coefficients = [], form_mesh = None, form_dx = None, form_ds = None,
      form_dS = None, form_dP = None, tabulate_tensor = (\<lambda>c k. real (Suc k))\<rparr>"

definition ex_a :: Form where
  "ex_a = ex_form ''P1'' [ex_V, ex_V]"

definition ex_a_P2 :: Form where
  "ex_a_P2 = ex_form ''P2'' [ex_V, ex_V]"

definition ex_a01 :: Form where
  "ex_a01 = ex_form ''P1'' [ex_W, ex_V]"

definition ex_L :: Form where
  "ex_L = ex_form ''P1'' [ex_V]"

text \<open>A pointwise condition on \<open>ex_V\<close> that prescribes the value \<open>5\<close> at dof \<open>0\<close>.\<close>

definition ex_bc :: DirichletBC where
  "ex_bc = \<lparr>bc_function_space = Some ex_V, bc_method = pointwise,
            bc_values = [(0, 5)], bc_gathered = []\<rparr>"

text \<open>
  A 2x2 block collection on the spaces \<open>(ex_V, ex_W)\<close>, with two linear forms, and an
  assembler for it without boundary conditions.
\<close>

definition ex_blocks :: "Form option list list" where
  "ex_blocks =
     [[Some (ex_form ''P1'' [ex_V, ex_V]), Some (ex_form ''P1'' [ex_V, ex_W])],
      [Some (ex_form ''P1'' [ex_W, ex_V]), Some (ex_form ''P1'' [ex_W, ex_W])]]"

definition ex_asm :: Assembler where
  "ex_asm = \<lparr>asm_a = ex_blocks, asm_l = [Some ex_L, Some (ex_form ''P1'' [ex_W])], asm_bcs = []\<rparr>"

text \<open>
  An assembler for the single block \<open>ex_a\<close> with the condition \<open>ex_bc\<close>, and one for a
  1x2 collection whose block \<open>(0,0)\<close> is null.
\<close>

definition ex_asm1 :: Assembler where
  "ex_asm1 = \<lparr>asm_a = [[Some ex_a]], asm_l = [Some ex_L], asm_bcs = [Some ex_bc]\<rparr>"

definition ex_asm_null :: Assembler where
  "ex_asm_null = \<lparr>asm_a = [[None, Some ex_a]], asm_l = [Some ex_L], asm_bcs = []\<rparr>"

text \<open>
  A function space with an index map of block size \<open>2\<close> (one block, two dofs on the
  cell), and the 2x2 block collection on the spaces \<open>(ex_V, ex_B)\<close>; and a 2x2 block
  collection of block size \<open>1\<close> whose block \<open>(1,0)\<close> has the column space \<open>ex_W\<close>, of
  four dofs, where block \<open>(0,0)\<close> has \<open>ex_V\<close>, of two.
\<close>

definition ex_B :: FunctionSpace where
  "ex_B = \<lparr>fs_addr = 13, fs_mesh = Some ex_mesh, fs_element = Some ''P1'',
           cell_dofs = (\<lambda>c. [0, 1]), index_map_size_all = 1,
           index_map_block_size = 2, fs_subspaces = []\<rparr>"



text \<open>
  A mesh of two owned cells, a function space on it with one dof, shared by the two
  cells, and a linear form whose kernel writes \<open>2^53\<close> on the first cell and \<open>2\<close> on the
  second.
\<close>

definition ex_mesh3 :: Mesh where
  "ex_mesh3 = \<lparr>mesh_addr = 3,
               mesh_cells = [\<lparr>cell_index = 0, cell_is_ghost = False\<rparr>,
                             \<lparr>cell_index = 1, cell_is_ghost = False\<rparr>],
               mesh_mpi_size = 1\<rparr>"

definition ex_P :: FunctionSpace where
  "ex_P = \<lparr>fs_addr = 14, fs_mesh = Some ex_mesh3, fs_element = Some ''P1'',
           cell_dofs = (\<lambda>c. [0]), index_map_size_all = 1,
           index_map_block_size = 1, fs_subspaces = []\<rparr>"

definition ex_L_big :: Form where
  "ex_L_big =
     \<lparr>form_ufc = Some (ex_ufc ''P1'' 1), function_spaces = [Some ex_P],
      coefficients = [], form_mesh = None, form_dx = None, form_ds = None,
      form_dS = None, form_dP = None,
      tabulate_tensor = (\<lambda>c k. if cell_index c = 0 then 9007199254740992 else 2)\<rparr>"

section \<open>Properties of Form::mesh\<close>

lemma primary_meshes_coefficients:
  "primary_meshes (f\<lparr>coefficients := cs\<rparr>) = primary_meshes f"
  by (simp add: primary_meshes_def marker_meshes_def split: sum.splits)

lemma mesh_ptr_eq_sym: "mesh_ptr_eq p q \<Longrightarrow> mesh_ptr_eq q p"
  by (simp add: mesh_ptr_eq_def)

lemma mesh_ptr_eq_trans: "mesh_ptr_eq p q \<Longrightarrow> mesh_ptr_eq q r \<Longrightarrow> mesh_ptr_eq p r"
  by (simp add: mesh_ptr_eq_def)

lemma meshes_match_Cons:
  "meshes_match (m # ms) \<longleftrightarrow> (\<forall>q \<in> set ms. mesh_ptr_eq q m)"
proof (induction ms arbitrary: m)
  case Nil
  then show ?case by simp
next
  case (Cons a ms)
  show ?case
  proof
    assume h: "meshes_match (m # a # ms)"
    then have am: "mesh_ptr_eq a m" and rest: "\<forall>q \<in> set ms. mesh_ptr_eq q a"
      using Cons.IH [of a] by simp_all
    show "\<forall>q \<in> set (a # ms). mesh_ptr_eq q m"
      using am rest mesh_ptr_eq_trans by auto
  next
    assume h: "\<forall>q \<in> set (a # ms). mesh_ptr_eq q m"
    then have am: "mesh_ptr_eq a m" by simp
    have "\<forall>q \<in> set ms. mesh_ptr_eq q a"
      using h am mesh_ptr_eq_trans mesh_ptr_eq_sym by (metis list.set_intros(2))
    then show "meshes_match (m # a # ms)"
      using am Cons.IH [of a] by simp
  qed
qed

lemma Form_mesh_primary:
  assumes "primary_meshes f = Inr ms" and "ms \<noteq> []"
  shows "Form_mesh f =
           (if \<not> meshes_match ms then Inl NonMatchingMeshes
            else case hd ms of None \<Rightarrow> Inl AssertionFailed | Some m \<Rightarrow> Inr m)"
  using assms by (simp add: Form_mesh_def)

lemma meshes_match_all:
  "meshes_match ms \<longleftrightarrow> (\<forall>p \<in> set ms. \<forall>q \<in> set ms. mesh_ptr_eq p q)"
proof (cases ms)
  case Nil
  then show ?thesis by simp
next
  case (Cons m rest)
  have "meshes_match (m # rest) \<longleftrightarrow> (\<forall>q \<in> set rest. mesh_ptr_eq q m)"
    by (rule meshes_match_Cons)
  also have "\<dots> \<longleftrightarrow> (\<forall>p \<in> set (m # rest). \<forall>q \<in> set (m # rest). mesh_ptr_eq p q)"
  proof
    assume h: "\<forall>q \<in> set rest. mesh_ptr_eq q m"
    have em: "\<forall>q \<in> set (m # rest). mesh_ptr_eq q m"
      using h by (simp add: mesh_ptr_eq_def)
    show "\<forall>p \<in> set (m # rest). \<forall>q \<in> set (m # rest). mesh_ptr_eq p q"
    proof (intro ballI)
      fix p q assume "p \<in> set (m # rest)" "q \<in> set (m # rest)"
      then have "mesh_ptr_eq p m" "mesh_ptr_eq q m" using em by blast+
      then show "mesh_ptr_eq p q"
        using mesh_ptr_eq_sym mesh_ptr_eq_trans by blast
    qed
  next
    assume "\<forall>p \<in> set (m # rest). \<forall>q \<in> set (m # rest). mesh_ptr_eq p q"
    then show "\<forall>q \<in> set rest. mesh_ptr_eq q m" by simp
  qed
  finally show ?thesis using Cons by simp
qed

lemma function_space_meshes_null:
  "Some V \<in> set Vs \<Longrightarrow> fs_mesh V = None \<Longrightarrow> function_space_meshes Vs = Inl AssertionFailed"
proof (induction Vs rule: function_space_meshes.induct)
  case 1
  then show ?case by simp
next
  case (2 Vs)
  then show ?case by simp
next
  case (3 W Vs)
  show ?case
  proof (cases "fs_mesh W")
    case None
    then show ?thesis by simp
  next
    case (Some m)
    with 3 have "Some V \<in> set Vs" by auto
    with 3 Some have "function_space_meshes Vs = Inl AssertionFailed" by simp
    with Some show ?thesis by simp
  qed
qed

lemma function_space_meshes_set:
  "\<forall>V. Some V \<in> set Vs \<longrightarrow> fs_mesh V \<noteq> None \<Longrightarrow>
   \<exists>ms. function_space_meshes Vs = Inr ms \<and> set ms = fs_mesh ` {V. Some V \<in> set Vs}"
proof (induction Vs rule: function_space_meshes.induct)
  case 1
  then show ?case by simp
next
  case (2 Vs)
  then show ?case by simp
next
  case (3 W Vs)
  from 3(2) obtain m where m: "fs_mesh W = Some m" by auto
  from 3(2) have "\<forall>V. Some V \<in> set Vs \<longrightarrow> fs_mesh V \<noteq> None" by simp
  with 3(1) m obtain ms where ms: "function_space_meshes Vs = Inr ms"
    and s: "set ms = fs_mesh ` {V. Some V \<in> set Vs}"
    by blast
  have "{V. Some V \<in> set (Some W # Vs)} = insert W {V. Some V \<in> set Vs}" by auto
  with m ms s show ?case by simp
qed

lemma coefficient_meshes_set:
  "set (coefficient_meshes cs) =
     {Some m |m V. Some (Function V) \<in> set cs \<and> fs_mesh V = Some m}"
proof (induction cs)
  case Nil
  then show ?case by simp
next
  case (Cons c cs)
  show ?case
  proof (cases c)
    case None
    with Cons show ?thesis by simp
  next
    case (Some g)
    show ?thesis
    proof (cases g)
      case (Function V)
      with Some Cons show ?thesis by (cases "fs_mesh V") auto
    next
      case Expression
      with Some Cons show ?thesis by simp
    qed
  qed
qed

lemma set_pushed: "set (pushed p) = set_option p"
  by (cases p) (simp_all add: pushed_def)

lemma primary_meshes_set:
  assumes "\<forall>V. Some V \<in> set (function_spaces f) \<longrightarrow> fs_mesh V \<noteq> None"
  shows "\<exists>ms. primary_meshes f = Inr ms \<and>
           set ms = fs_mesh ` {V. Some V \<in> set (function_spaces f)} \<union>
                    Some ` set_option (form_mesh f) \<union> set_option (form_dx f) \<union>
                    set_option (form_ds f) \<union> set_option (form_dS f) \<union> set_option (form_dP f)"
proof -
  from function_space_meshes_set [OF assms] obtain ms where
    ms: "function_space_meshes (function_spaces f) = Inr ms" and
    s: "set ms = fs_mesh ` {V. Some V \<in> set (function_spaces f)}"
    by blast
  have "primary_meshes f = Inr (ms @ map Some (pushed (form_mesh f)) @ marker_meshes f)"
    using ms by (simp add: primary_meshes_def)
  moreover have "set (ms @ map Some (pushed (form_mesh f)) @ marker_meshes f) =
      fs_mesh ` {V. Some V \<in> set (function_spaces f)} \<union>
      Some ` set_option (form_mesh f) \<union> set_option (form_dx f) \<union>
      set_option (form_ds f) \<union> set_option (form_dS f) \<union> set_option (form_dP f)"
    using s by (simp add: marker_meshes_def set_pushed Un_assoc)
  ultimately show ?thesis by blast
qed

lemma matched_result:
  fixes r :: "error + Mesh"
  assumes ne: "ms \<noteq> []"
    and r: "r = (if \<not> meshes_match ms then Inl NonMatchingMeshes
                 else case hd ms of None \<Rightarrow> Inl AssertionFailed | Some m \<Rightarrow> Inr m)"
  shows "if \<exists>p \<in> set ms. \<exists>q \<in> set ms. map_option mesh_addr p \<noteq> map_option mesh_addr q
         then r = Inl NonMatchingMeshes
         else if None \<in> set ms then r = Inl AssertionFailed
         else \<exists>m. Some m \<in> set ms \<and> r = Inr m"
proof -
  have hd: "hd ms \<in> set ms" using ne by simp
  show ?thesis
  proof (cases "\<exists>p \<in> set ms. \<exists>q \<in> set ms. map_option mesh_addr p \<noteq> map_option mesh_addr q")
    case True
    then have "\<not> meshes_match ms"
      unfolding meshes_match_all mesh_ptr_eq_def by blast
    then have "r = Inl NonMatchingMeshes" unfolding r by simp
    with True show ?thesis by (simp only: if_True)
  next
    case False
    then have same: "\<forall>p \<in> set ms. \<forall>q \<in> set ms. map_option mesh_addr p = map_option mesh_addr q"
      by blast
    then have mm: "meshes_match ms"
      unfolding meshes_match_all mesh_ptr_eq_def .
    have r': "r = (case hd ms of None \<Rightarrow> Inl AssertionFailed | Some m \<Rightarrow> Inr m)"
      unfolding r using mm by simp
    show ?thesis
    proof (cases "None \<in> set ms")
      case True
      with same hd have "map_option mesh_addr (hd ms) = map_option mesh_addr (None :: Mesh option)"
        by blast
      then have "hd ms = None" by simp
      then have "r = Inl AssertionFailed" unfolding r' by simp
      with False True show ?thesis by (simp only: if_False if_True)
    next
      case nn: False
      with hd have "hd ms \<noteq> None" by metis
      then obtain m where m: "hd ms = Some m" by blast
      with hd have "Some m \<in> set ms" by simp
      moreover have "r = Inr m" unfolding r' using m by simp
      ultimately have "\<exists>m. Some m \<in> set ms \<and> r = Inr m" by blast
      with False nn show ?thesis by (simp only: if_False)
    qed
  qed
qed

text \<open>
  Claim C10. Let \<open>S\<close> be the meshes of the non-null function spaces of the form, the mesh
  set on the form, and the meshes of the four markers \<open>dx\<close>, \<open>ds\<close>, \<open>dS\<close>, \<open>dP\<close> that
  are set; let \<open>C\<close> be the non-null meshes of the coefficients that are functions. A
  function space without a mesh fails the assertion. Otherwise, when \<open>S\<close> is not empty,
  the result does not depend on the coefficients (so a coefficient on another mesh is
  not detected), and it is the error \<open>NonMatchingMeshes\<close> exactly when two members of
  \<open>S\<close> differ, and a mesh of \<open>S\<close> when none do (a marker may hold a null mesh, which
  fails the last assertion); only when \<open>S\<close> is empty is \<open>C\<close> consulted, in the same way,
  and the error \<open>NoMeshFound\<close> is raised when \<open>C\<close> is empty too.
\<close>

theorem Form_mesh_cross_check:
  "let F = fs_mesh ` {V. Some V \<in> set (function_spaces f)};
       S = F \<union> Some ` set_option (form_mesh f) \<union> set_option (form_dx f) \<union>
           set_option (form_ds f) \<union> set_option (form_dS f) \<union> set_option (form_dP f);
       C = {Some m |m V. Some (Function V) \<in> set (coefficients f) \<and> fs_mesh V = Some m};
       differ = (\<lambda>M. \<exists>p \<in> M. \<exists>q \<in> M. map_option mesh_addr p \<noteq> map_option mesh_addr q)
   in (None \<in> F \<longrightarrow> Form_mesh f = Inl AssertionFailed) \<and>
      (None \<notin> F \<longrightarrow>
         (S \<noteq> {} \<longrightarrow>
            Form_mesh (f\<lparr>coefficients := cs\<rparr>) = Form_mesh f \<and>
            (if differ S then Form_mesh f = Inl NonMatchingMeshes
             else if None \<in> S then Form_mesh f = Inl AssertionFailed
             else \<exists>m. Some m \<in> S \<and> Form_mesh f = Inr m)) \<and>
         (S = {} \<longrightarrow>
            (if C = {} then Form_mesh f = Inl NoMeshFound
             else if differ C then Form_mesh f = Inl NonMatchingMeshes
             else \<exists>m. Some m \<in> C \<and> Form_mesh f = Inr m)))"
proof -
  let ?F = "fs_mesh ` {V. Some V \<in> set (function_spaces f)}"
  let ?S = "?F \<union> Some ` set_option (form_mesh f) \<union> set_option (form_dx f) \<union>
           set_option (form_ds f) \<union> set_option (form_dS f) \<union> set_option (form_dP f)"
  let ?C = "{Some m |m V. Some (Function V) \<in> set (coefficients f) \<and> fs_mesh V = Some m}"
  let ?differ = "\<lambda>M. \<exists>p \<in> M. \<exists>q \<in> M. map_option mesh_addr p \<noteq> map_option mesh_addr q"
  have null: "Form_mesh f = Inl AssertionFailed" if "None \<in> ?F"
  proof -
    from that obtain V where "Some V \<in> set (function_spaces f)" "fs_mesh V = None"
      by (auto simp: image_iff)
    then have "function_space_meshes (function_spaces f) = Inl AssertionFailed"
      by (rule function_space_meshes_null)
    then show ?thesis by (simp add: Form_mesh_def primary_meshes_def)
  qed
  have rest: "(?S \<noteq> {} \<longrightarrow>
            Form_mesh (f\<lparr>coefficients := cs\<rparr>) = Form_mesh f \<and>
            (if ?differ ?S then Form_mesh f = Inl NonMatchingMeshes
             else if None \<in> ?S then Form_mesh f = Inl AssertionFailed
             else \<exists>m. Some m \<in> ?S \<and> Form_mesh f = Inr m)) \<and>
         (?S = {} \<longrightarrow>
            (if ?C = {} then Form_mesh f = Inl NoMeshFound
             else if ?differ ?C then Form_mesh f = Inl NonMatchingMeshes
             else \<exists>m. Some m \<in> ?C \<and> Form_mesh f = Inr m))" if nn: "None \<notin> ?F"
  proof -
    have "\<forall>V. Some V \<in> set (function_spaces f) \<longrightarrow> fs_mesh V \<noteq> None"
    proof (intro allI impI)
      fix V assume "Some V \<in> set (function_spaces f)"
      then have "fs_mesh V \<in> ?F" by simp
      with nn show "fs_mesh V \<noteq> None" by metis
    qed
    from primary_meshes_set [OF this] obtain ms where
      ms: "primary_meshes f = Inr ms" and s: "set ms = ?S"
      by blast
    have ms': "primary_meshes (f\<lparr>coefficients := cs\<rparr>) = Inr ms"
      using ms by (simp add: primary_meshes_coefficients)
    show ?thesis
    proof (intro conjI impI)
      assume "?S \<noteq> {}"
      with s have ne: "ms \<noteq> []" by auto
      show "Form_mesh (f\<lparr>coefficients := cs\<rparr>) = Form_mesh f"
        using Form_mesh_primary [OF ms' ne] Form_mesh_primary [OF ms ne] by simp
      show "if ?differ ?S then Form_mesh f = Inl NonMatchingMeshes
            else if None \<in> ?S then Form_mesh f = Inl AssertionFailed
            else \<exists>m. Some m \<in> ?S \<and> Form_mesh f = Inr m"
        using matched_result [OF ne Form_mesh_primary [OF ms ne]] unfolding s .
    next
      assume "?S = {}"
      with s have e: "ms = []" by simp
      let ?cm = "coefficient_meshes (coefficients f)"
      have c: "set ?cm = ?C" by (rule coefficient_meshes_set)
      show "if ?C = {} then Form_mesh f = Inl NoMeshFound
            else if ?differ ?C then Form_mesh f = Inl NonMatchingMeshes
            else \<exists>m. Some m \<in> ?C \<and> Form_mesh f = Inr m"
      proof (cases "?cm = []")
        case True
        with c have "?C = {}" by (metis set_empty)
        moreover have "Form_mesh f = Inl NoMeshFound"
          using ms e True by (simp add: Form_mesh_def)
        ultimately show ?thesis by simp
      next
        case False
        with c have cne: "?C \<noteq> {}" by (metis set_empty)
        have noneC: "None \<notin> ?C" by simp
        have fm: "Form_mesh f = (if \<not> meshes_match ?cm then Inl NonMatchingMeshes
              else case hd ?cm of None \<Rightarrow> Inl AssertionFailed | Some m \<Rightarrow> Inr m)"
          using ms e False by (simp add: Form_mesh_def)
        from matched_result [OF False fm] cne noneC show ?thesis
          unfolding c by (simp only: if_False)
      qed
    qed
  qed
  show ?thesis
    unfolding Let_def
  proof (intro conjI impI)
    assume "None \<in> ?F"
    then show "Form_mesh f = Inl AssertionFailed" by (rule null)
  next
    assume nn: "None \<notin> ?F" and ne: "?S \<noteq> {}"
    from rest [OF nn] ne show "Form_mesh (f\<lparr>coefficients := cs\<rparr>) = Form_mesh f"
      by (rule conjunct1 [THEN mp, THEN conjunct1])
  next
    assume nn: "None \<notin> ?F" and ne: "?S \<noteq> {}"
    from rest [OF nn] ne show "if ?differ ?S then Form_mesh f = Inl NonMatchingMeshes
            else if None \<in> ?S then Form_mesh f = Inl AssertionFailed
            else \<exists>m. Some m \<in> ?S \<and> Form_mesh f = Inr m"
      by (rule conjunct1 [THEN mp, THEN conjunct2])
  next
    assume nn: "None \<notin> ?F" and e: "?S = {}"
    from rest [OF nn] e show "if ?C = {} then Form_mesh f = Inl NoMeshFound
            else if ?differ ?C then Form_mesh f = Inl NonMatchingMeshes
            else \<exists>m. Some m \<in> ?C \<and> Form_mesh f = Inr m"
      by (rule conjunct2 [THEN mp])
  qed
qed

theorem Form_mesh_cross_check_witness:
  "Form_mesh (ex_L\<lparr>coefficients := [Some (Function ex_U)]\<rparr>) = Form_mesh ex_L \<and>
   Form_mesh ex_L = Inr ex_mesh \<and>
   Form_mesh (ex_L\<lparr>form_dx := Some (Some ex_mesh2)\<rparr>) = Inl NonMatchingMeshes \<and>
   Form_mesh (ex_form ''P1'' []) = Inl NoMeshFound \<and>
   Form_mesh ((ex_form ''P1'' [])\<lparr>coefficients := [Some (Function ex_U)]\<rparr>) = Inr ex_mesh2"
  using Form_mesh_cross_check [of ex_L "[Some (Function ex_U)]"]
    Form_mesh_cross_check [of "ex_L\<lparr>form_dx := Some (Some ex_mesh2)\<rparr>" "[]"]
    Form_mesh_cross_check [of "ex_form ''P1'' []" "[]"]
    Form_mesh_cross_check [of "(ex_form ''P1'' [])\<lparr>coefficients := [Some (Function ex_U)]\<rparr>" "[]"]
  by (simp add: Let_def ex_L_def ex_form_def ex_V_def ex_U_def ex_mesh_def ex_mesh2_def)
section \<open>Properties of Form::check\<close>

lemmas ex_defs = ex_cell_def ex_mesh_def ex_mesh2_def ex_V_def ex_W_def ex_U_def ex_ufc_def
  ex_form_def ex_a_def ex_a_P2_def ex_a01_def ex_L_def ex_bc_def

lemma check_elements_ok:
  "check_elements u i Vs = Inr () \<longleftrightarrow>
     (\<forall>k < length Vs. \<exists>s V. ufc_element_signature u (i + k) = Some s \<and>
        Vs ! k = Some V \<and> fs_element V = Some s)"
proof (induction Vs arbitrary: i)
  case Nil
  then show ?case by simp
next
  case (Cons V Vs)
  have step: "(\<forall>k < length (V # Vs). P k) \<longleftrightarrow> P 0 \<and> (\<forall>k < length Vs. P (Suc k))" for P
    by (auto simp: less_Suc_eq_0_disj)
  show ?case
    unfolding step
    by (simp add: Cons.IH split: option.splits)
qed

lemma check_elements_wrong:
  "check_elements u i Vs = Inl (WrongFunctionSpace k) \<Longrightarrow>
     i \<le> k \<and> k < i + length Vs \<and>
     (\<exists>s t V. ufc_element_signature u k = Some s \<and> Vs ! (k - i) = Some V \<and>
        fs_element V = Some t \<and> s \<noteq> t)"
proof (induction Vs arbitrary: i)
  case Nil
  then show ?case by simp
next
  case (Cons V Vs)
  show ?case
  proof (cases "check_elements u (Suc i) Vs = Inl (WrongFunctionSpace k)")
    case True
    from Cons.IH [OF True] show ?thesis
      by (auto simp: Suc_diff_le)
  next
    case False
    with Cons.prems show ?thesis
      by (auto split: option.splits if_splits)
  qed
qed

lemma Form_mesh_form_ufc: "Form_mesh (f\<lparr>form_ufc := w\<rparr>) = Form_mesh f"
  by (simp add: Form_mesh_def primary_meshes_def marker_meshes_def split: sum.splits)

lemma Form_function_space_form_ufc:
  "Form_function_space (f\<lparr>form_ufc := w\<rparr>) i = Form_function_space f i"
  by (simp add: Form_function_space_def)

lemma function_space_form_ufc: "function_space (f\<lparr>form_ufc := w\<rparr>) i = function_space f i"
  by (simp add: function_space_def Form_function_space_form_ufc)

lemma assemble_cells_form_ufc:
  "assemble_cells v (a\<lparr>form_ufc := w\<rparr>) V0 V1 bv0 bv1 cs A = assemble_cells v a V0 V1 bv0 bv1 cs A"
  by (induction cs arbitrary: A) (simp_all add: cell_tensor_def Let_def split: sum.splits)

lemma assemble_vector_cells_form_ufc:
  "assemble_vector_cells (L\<lparr>form_ufc := w\<rparr>) V cs b = assemble_vector_cells L V cs b"
  by (induction cs arbitrary: b) (simp_all split: sum.splits)

lemma assemble_matrix_form_form_ufc:
  "assemble_matrix_form v A (a\<lparr>form_ufc := w\<rparr>) bcs = assemble_matrix_form v A a bcs"
  by (simp add: assemble_matrix_form_def Form_mesh_form_ufc Form_function_space_form_ufc
      assemble_cells_form_ufc cong: sum.case_cong)

lemma assemble_vector_form_form_ufc:
  "assemble_vector_form b (L\<lparr>form_ufc := w\<rparr>) = assemble_vector_form b L"
  by (simp add: assemble_vector_form_def Form_mesh_form_ufc function_space_form_ufc
      assemble_vector_cells_form_ufc cong: sum.case_cong)

text \<open>
  Claim C9, as amended. \<open>Form::check\<close>, called on a form that has its generated form,
  returns without an error exactly when the rank and the number of coefficients are the
  expected ones and every argument's expected element signature is the signature of the
  element of its function space; the error \<open>WrongFunctionSpace k\<close> is raised only at
  an argument \<open>k\<close> whose two signatures differ. The matrix core and the vector core of
  the assembler do not call \<open>Form::check\<close>: their results do not depend on the generated
  form, so the error arises only where the caller validates the form.
\<close>

theorem Form_check_signatures:
  assumes "form_ufc f = Some u"
  shows "(Form_check f = Inr () \<longleftrightarrow>
            ufc_rank u = length (function_spaces f) \<and>
            ufc_num_coefficients u = length (coefficients f) \<and>
            (\<forall>i < length (function_spaces f). \<exists>s V.
               ufc_element_signature u i = Some s \<and> function_spaces f ! i = Some V \<and>
               fs_element V = Some s)) \<and>
         (\<forall>k. Form_check f = Inl (WrongFunctionSpace k) \<longrightarrow>
            k < length (function_spaces f) \<and>
            (\<exists>s t V. ufc_element_signature u k = Some s \<and> function_spaces f ! k = Some V \<and>
               fs_element V = Some t \<and> s \<noteq> t)) \<and>
         assemble_matrix_form v A (f\<lparr>form_ufc := w\<rparr>) bcs = assemble_matrix_form v A f bcs \<and>
         assemble_vector_form b (f\<lparr>form_ufc := w\<rparr>) = assemble_vector_form b f"
proof (intro conjI allI impI)
  show "Form_check f = Inr () \<longleftrightarrow>
            ufc_rank u = length (function_spaces f) \<and>
            ufc_num_coefficients u = length (coefficients f) \<and>
            (\<forall>i < length (function_spaces f). \<exists>s V.
               ufc_element_signature u i = Some s \<and> function_spaces f ! i = Some V \<and>
               fs_element V = Some s)"
    using assms check_elements_ok [of u 0 "function_spaces f"]
    by (simp add: Form_check_def)
next
  fix k
  assume h: "Form_check f = Inl (WrongFunctionSpace k)"
  then have "check_elements u 0 (function_spaces f) = Inl (WrongFunctionSpace k)"
    using assms by (simp add: Form_check_def split: if_splits)
  from check_elements_wrong [OF this]
  show "k < length (function_spaces f)"
    and "\<exists>s t V. ufc_element_signature u k = Some s \<and> function_spaces f ! k = Some V \<and>
               fs_element V = Some t \<and> s \<noteq> t"
    by simp_all
next
  show "assemble_matrix_form v A (f\<lparr>form_ufc := w\<rparr>) bcs = assemble_matrix_form v A f bcs"
    by (rule assemble_matrix_form_form_ufc)
  show "assemble_vector_form b (f\<lparr>form_ufc := w\<rparr>) = assemble_vector_form b f"
    by (rule assemble_vector_form_form_ufc)
qed

lemma Form_check_ex_a_P2: "Form_check ex_a_P2 = Inl (WrongFunctionSpace 0)"
  by (simp add: Form_check_def ex_defs)

text \<open>
  Claim C9 as stated fails: the form \<open>ex_a_P2\<close> expects the element \<open>P2\<close> on a function
  space whose element is \<open>P1\<close>, \<open>Form::check\<close> would raise the error, and yet the matrix
  core runs its cell loop and inserts the cell tensor without any error.
\<close>

theorem assembly_without_check_counterexample:
  "Form_check ex_a_P2 = Inl (WrongFunctionSpace 0) \<and>
   (\<exists>M. assemble_matrix_form None zero_Mat ex_a_P2 [] = Inr M \<and> mat_values M 1 0 = 3)"
  by (simp add: Form_check_def assemble_matrix_form_def Form_mesh_def primary_meshes_def pushed_def marker_meshes_def
     Form_function_space_def deref_def ex_defs zero_Mat_def add_local_view_def view_indices_def
     add_local_def add_value_def zero_rows_def zero_cols_def cell_tensor_def mesh_ptr_eq_def)

theorem Form_check_signatures_witness:
  "form_ufc ex_a_P2 = Some (ex_ufc ''P2'' 2) \<and>
   Form_check ex_a_P2 = Inl (WrongFunctionSpace 0) \<and>
   ufc_element_signature (ex_ufc ''P2'' 2) 0 = Some ''P2'' \<and>
   function_spaces ex_a_P2 ! 0 = Some ex_V \<and> fs_element ex_V = Some ''P1'' \<and>
   form_ufc ex_a = Some (ex_ufc ''P1'' 2) \<and>
   Form_check ex_a = Inr () \<and>
   assemble_matrix_form None zero_Mat (ex_a_P2\<lparr>form_ufc := Some (ex_ufc ''P1'' 2)\<rparr>) []
     = assemble_matrix_form None zero_Mat ex_a_P2 []"
proof -
  have h1: "form_ufc ex_a_P2 = Some (ex_ufc ''P2'' 2)" by (simp add: ex_defs)
  have h2: "form_ufc ex_a = Some (ex_ufc ''P1'' 2)" by (simp add: ex_defs)
  have c: "Form_check ex_a_P2 = Inl (WrongFunctionSpace 0)" by (rule Form_check_ex_a_P2)
  have ok: "\<forall>i < length (function_spaces ex_a). \<exists>s V.
               ufc_element_signature (ex_ufc ''P1'' 2) i = Some s \<and> function_spaces ex_a ! i = Some V \<and>
               fs_element V = Some s"
    by (simp add: ex_defs less_Suc_eq)
  show ?thesis
    using Form_check_signatures [OF h1, of None zero_Mat "Some (ex_ufc ''P1'' 2)" "[]" "[]"]
      Form_check_signatures [OF h2, of None zero_Mat None "[]" "[]"] h1 h2 c ok
    by (simp add: ex_defs)
qed

section \<open>Properties of set_bc\<close>

lemma update_fold_distinct:
  "distinct (map fst m) \<Longrightarrow> distinct (map fst (fold (\<lambda>(k, v). AList.update k v) xs m))"
  by (induction xs arbitrary: m) (auto simp: distinct_update)

lemma update_fold_keys:
  "fst ` set (fold (\<lambda>(k, v). AList.update k v) xs m) = fst ` set m \<union> fst ` set xs"
proof (induction xs arbitrary: m)
  case Nil
  then show ?case by simp
next
  case (Cons x xs)
  have "fst ` set (AList.update (fst x) (snd x) m) = {fst x} \<union> fst ` set m"
    by (rule dom_update)
  then show ?case
    using Cons.IH [of "AList.update (fst x) (snd x) m"] by (simp add: split_beta)
qed

lemma update_fold_value:
  "map_of (fold (\<lambda>(k, v). AList.update k v) xs m) d = Some v \<Longrightarrow>
     (d, v) \<in> set xs \<or> map_of m d = Some v"
proof (induction xs arbitrary: m)
  case Nil
  then show ?case by simp
next
  case (Cons x xs)
  obtain k w where x: "x = (k, w)" by (cases x)
  from Cons.prems have "map_of (fold (\<lambda>(k, v). AList.update k v) xs (AList.update k w m)) d = Some v"
    by (simp add: x)
  from Cons.IH [OF this] show ?case
    by (auto simp: x update_conv' split: if_splits)
qed

lemma merge_bc_distinct: "distinct (map fst m) \<Longrightarrow> distinct (map fst (merge_bc nproc bc m))"
  by (simp add: merge_bc_def get_boundary_values_def gather_def Let_def update_fold_distinct)

lemma merge_bc_keys: "fst ` set (merge_bc nproc bc m) = fst ` set m \<union> fst ` bc_pairs nproc bc"
  by (auto simp: merge_bc_def get_boundary_values_def gather_def Let_def update_fold_keys
      bc_pairs_def)

lemma merge_bc_value:
  "map_of (merge_bc nproc bc m) d = Some v \<Longrightarrow> (d, v) \<in> bc_pairs nproc bc \<or> map_of m d = Some v"
  by (auto simp: merge_bc_def get_boundary_values_def gather_def Let_def bc_pairs_def
      split: if_splits dest!: update_fold_value)

lemma collect_boundary_values_distinct:
  "collect_boundary_values nproc Vr bcs m = Inr bv \<Longrightarrow> distinct (map fst m) \<Longrightarrow>
     distinct (map fst bv)"
proof (induction nproc Vr bcs m rule: collect_boundary_values.induct)
  case (1 nproc Vr m)
  then show ?case by simp
next
  case (2 nproc Vr bcs m)
  then show ?case by simp
next
  case (3 nproc Vr bc bcs m)
  then show ?case
    by (auto split: option.splits sum.splits if_splits simp: merge_bc_distinct)
qed

lemma collect_boundary_values_keys:
  "collect_boundary_values nproc (Inr V) bcs m = Inr bv \<Longrightarrow>
     fst ` set bv = fst ` set m \<union> (\<Union>bc \<in> matching_bcs V bcs. fst ` bc_pairs nproc bc)"
proof (induction bcs arbitrary: m)
  case Nil
  then show ?case by (simp add: matching_bcs_def)
next
  case (Cons b bcs)
  from Cons.prems obtain bc W where b: "b = Some bc" and W: "bc_function_space bc = Some W"
    by (cases b) (auto split: option.splits)
  have split: "matching_bcs V (Some bc # bcs) =
      (if contains V W then {bc} else {}) \<union> matching_bcs V bcs"
    using W by (auto simp: matching_bcs_def)
  show ?case
  proof (cases "contains V W")
    case True
    with Cons.prems b W have "collect_boundary_values nproc (Inr V) bcs (merge_bc nproc bc m) = Inr bv"
      by simp
    from Cons.IH [OF this] True show ?thesis
      unfolding b split by (auto simp: merge_bc_keys)
  next
    case False
    with Cons.prems b W have "collect_boundary_values nproc (Inr V) bcs m = Inr bv"
      by simp
    from Cons.IH [OF this] False show ?thesis
      unfolding b split by auto
  qed
qed

lemma collect_boundary_values_value:
  "collect_boundary_values nproc (Inr V) bcs m = Inr bv \<Longrightarrow> map_of bv d = Some v \<Longrightarrow>
     map_of m d = Some v \<or> (\<exists>bc \<in> matching_bcs V bcs. (d, v) \<in> bc_pairs nproc bc)"
proof (induction bcs arbitrary: m)
  case Nil
  then show ?case by simp
next
  case (Cons b bcs)
  from Cons.prems obtain bc W where b: "b = Some bc" and W: "bc_function_space bc = Some W"
    by (cases b) (auto split: option.splits)
  have split: "matching_bcs V (Some bc # bcs) =
      (if contains V W then {bc} else {}) \<union> matching_bcs V bcs"
    using W by (auto simp: matching_bcs_def)
  show ?case
  proof (cases "contains V W")
    case True
    with Cons.prems b W have "collect_boundary_values nproc (Inr V) bcs (merge_bc nproc bc m) = Inr bv"
      by simp
    from Cons.IH [OF this Cons.prems(2)] True show ?thesis
      unfolding b split using merge_bc_value [of nproc bc m d v] by auto
  next
    case False
    with Cons.prems b W have "collect_boundary_values nproc (Inr V) bcs m = Inr bv"
      by simp
    from Cons.IH [OF this Cons.prems(2)] False show ?thesis
      unfolding b split by auto
  qed
qed

lemma set_local_fold:
  assumes "distinct (map fst bv)" and "n \<le> length bv"
  shows "fold (\<lambda>i x. x(map fst bv ! i := map snd bv ! i)) [0..<n] x d =
           (case map_of (take n bv) d of Some v \<Rightarrow> v | None \<Rightarrow> x d)"
  using assms(2)
proof (induction n)
  case 0
  then show ?case by simp
next
  case (Suc n)
  then have n: "n < length bv" by simp
  have take: "take (Suc n) bv = take n bv @ [bv ! n]"
    using n by (simp add: take_Suc_conv_app_nth)
  have notin: "map_of (take n bv) (fst (bv ! n)) = None"
  proof -
    have "distinct (map fst (take (Suc n) bv))"
      using assms(1) by (simp add: distinct_take flip: take_map)
    then have "fst (bv ! n) \<notin> fst ` set (take n bv)"
      unfolding take by auto
    then show ?thesis by (simp add: map_of_eq_None_iff)
  qed
  show ?case
    using Suc.IH n notin
    by (cases "bv ! n") (auto simp: take map_add_def split: option.splits)
qed

lemma Vec_set_local_values:
  assumes "distinct (map fst bv)"
  shows "vec_values (Vec_set_local b (map snd bv) (map fst bv)) d =
           (case map_of bv d of Some v \<Rightarrow> v | None \<Rightarrow> vec_values b d)"
  using set_local_fold [OF assms, of "length bv" "vec_values b" d]
  by (simp add: Vec_set_local_def)

text \<open>
  Claim C5. \<open>set_bc(b, L, bcs)\<close>, for a form with a mesh and a function space \<open>V\<close>
  and conditions that pass the assertions, returns the vector in which every dof of the
  collected boundary values holds its collected value (it is overwritten, whatever the
  entry was) and every other entry is as before, and finalizes it once. The collected
  dofs are exactly the dofs of the conditions whose space is contained in \<open>V\<close>, the
  gathered ones included when there is more than one process and the method is not
  pointwise, and every collected value is one that such a condition prescribes.
\<close>

theorem set_bc_overwrites:
  assumes "Form_mesh L = Inr mesh"
    and "Form_function_space L 0 = Inr (Some V)"
    and "collect_boundary_values (mesh_mpi_size mesh) (Inr V) bcs [] = Inr bv"
  shows "\<exists>b'. set_bc b L bcs = Inr b' \<and>
           (\<forall>d. vec_values b' d = (case map_of bv d of Some v \<Rightarrow> v | None \<Rightarrow> vec_values b d)) \<and>
           vec_applied b' = Suc (vec_applied b) \<and>
           dom (map_of bv) = (\<Union>bc \<in> matching_bcs V bcs. fst ` bc_pairs (mesh_mpi_size mesh) bc) \<and>
           (\<forall>d v. map_of bv d = Some v \<longrightarrow>
              (\<exists>bc \<in> matching_bcs V bcs. (d, v) \<in> bc_pairs (mesh_mpi_size mesh) bc))"
proof -
  have d: "distinct (map fst bv)"
    using collect_boundary_values_distinct [OF assms(3)] by simp
  have eq: "set_bc b L bcs = Inr (Vec_apply (Vec_set_local b (map snd bv) (map fst bv)))"
    using assms by (simp add: set_bc_def deref_def)
  have keys: "dom (map_of bv) = (\<Union>bc \<in> matching_bcs V bcs. fst ` bc_pairs (mesh_mpi_size mesh) bc)"
    using collect_boundary_values_keys [OF assms(3)] by (simp add: dom_map_of_conv_image_fst)
  have vals: "\<forall>d v. map_of bv d = Some v \<longrightarrow>
              (\<exists>bc \<in> matching_bcs V bcs. (d, v) \<in> bc_pairs (mesh_mpi_size mesh) bc)"
    using collect_boundary_values_value [OF assms(3)] by auto
  have v: "\<forall>d. vec_values (Vec_apply (Vec_set_local b (map snd bv) (map fst bv))) d =
           (case map_of bv d of Some v \<Rightarrow> v | None \<Rightarrow> vec_values b d)"
    using Vec_set_local_values [OF d, of b] by (simp add: Vec_apply_def)
  have a: "vec_applied (Vec_apply (Vec_set_local b (map snd bv) (map fst bv))) = Suc (vec_applied b)"
    by (simp add: Vec_apply_def Vec_set_local_def)
  show ?thesis
    unfolding eq using keys vals v a by blast
qed

lemma Form_mesh_ex_L: "Form_mesh ex_L = Inr ex_mesh"
  by (simp add: Form_mesh_def primary_meshes_def pushed_def marker_meshes_def ex_L_def
      ex_form_def ex_V_def)

lemma Form_function_space_ex_L: "Form_function_space ex_L 0 = Inr (Some ex_V)"
  by (simp add: Form_function_space_def ex_defs)

lemma collect_ex_bc:
  "collect_boundary_values (mesh_mpi_size ex_mesh) (Inr ex_V) [Some ex_bc] [] = Inr [(0, 5)]"
  by (simp add: ex_defs contains_def merge_bc_def get_boundary_values_def)

theorem set_bc_overwrites_witness:
  "Form_mesh ex_L = Inr ex_mesh \<and>
   Form_function_space ex_L 0 = Inr (Some ex_V) \<and>
   collect_boundary_values (mesh_mpi_size ex_mesh) (Inr ex_V) [Some ex_bc] [] = Inr [(0, 5)] \<and>
   (\<exists>b'. set_bc \<lparr>vec_values = (\<lambda>i. 7), vec_applied = 0\<rparr> ex_L [Some ex_bc] = Inr b' \<and>
      vec_values b' 0 = 5 \<and> vec_values b' 1 = 7 \<and> vec_applied b' = 1)"
  using set_bc_overwrites [OF Form_mesh_ex_L Form_function_space_ex_L collect_ex_bc,
      of "\<lparr>vec_values = (\<lambda>i. 7), vec_applied = 0\<rparr>"]
    Form_mesh_ex_L Form_function_space_ex_L collect_ex_bc
  by auto

section \<open>apply_bc at an off-diagonal block\<close>

lemma Form_mesh_ex_a01: "Form_mesh ex_a01 = Inr ex_mesh"
  by (simp add: Form_mesh_def primary_meshes_def pushed_def marker_meshes_def ex_defs mesh_ptr_eq_def)

text \<open>
  Claim C3 at a form whose two function spaces differ: the rows of \<open>ex_a01\<close> are the
  dofs \<open>2, 3\<close> of \<open>ex_W\<close>, its columns the dofs \<open>0, 1\<close> of \<open>ex_V\<close>, and dof \<open>0\<close>
  of \<open>ex_V\<close> is constrained to the value \<open>5\<close>. The cell tensor has the first column
  \<open>1, 3\<close>, so the lifting term is \<open>- 5, - 15\<close>. \<open>apply_bc\<close> adds it at the column
  dofs \<open>0, 1\<close> and leaves the row dofs \<open>2, 3\<close> of function space 0 untouched.
\<close>

theorem apply_bc_wrong_rows:
  "\<exists>b'. apply_bc zero_Vec ex_a01 [Some ex_bc] = Inr b' \<and>
      cell_dofs ex_W 0 = [2, 3] \<and> cell_dofs ex_V 0 = [0, 1] \<and>
      vec_values b' 0 = - 5 \<and> vec_values b' 1 = - 15 \<and>
      vec_values b' 2 = 0 \<and> vec_values b' 3 = 0"
  by (simp add: apply_bc_def Form_mesh_ex_a01)
     (simp add: ex_defs function_space_def Form_function_space_def deref_def contains_def
        merge_bc_def get_boundary_values_def Vec_add_local_def Vec_apply_def zero_Vec_def
        lift_columns_def cell_tensor_def)

lemma Form_mesh_ex_a: "Form_mesh ex_a = Inr ex_mesh"
  by (simp add: Form_mesh_def primary_meshes_def pushed_def marker_meshes_def ex_defs mesh_ptr_eq_def)

section \<open>The offsets of the monolithic layout\<close>









lemma add_local_view_None: "add_local_view None Y rows cols Ae = Inr (add_local Y rows cols Ae)"
  by (simp add: add_local_view_def view_indices_def)


lemma assemble_matrix_form_applied:
  "assemble_matrix_form v A a bcs = Inr A' \<Longrightarrow> mat_applied A' = mat_applied A"
  by (auto simp: assemble_matrix_form_def split: sum.splits)




lemma Form_mesh_ex_form:
  "Form_mesh (ex_form sig (V # Vs)) =
     (case function_space_meshes (map Some (V # Vs)) of
        Inl e \<Rightarrow> Inl e
      | Inr ms \<Rightarrow> if \<not> meshes_match ms then Inl NonMatchingMeshes
                  else (case hd ms of None \<Rightarrow> Inl AssertionFailed | Some m \<Rightarrow> Inr m))"
  by (auto simp: Form_mesh_def primary_meshes_def pushed_def marker_meshes_def ex_form_def
      split: sum.splits option.splits)

lemma function_space_ex_form:
  "i < length Vs \<Longrightarrow> function_space (ex_form sig Vs) i = Inr (Vs ! i)"
  "i < length Vs \<Longrightarrow> Form_function_space (ex_form sig Vs) i = Inr (Some (Vs ! i))"
  by (simp_all add: function_space_def Form_function_space_def deref_def ex_form_def)

lemmas eval_defs = deref_def zero_Mat_def add_local_view_def view_indices_def add_local_def
  add_value_def zero_rows_def zero_cols_def cell_tensor_def Mat_apply_def PETScMatrix_apply_def
  ISCreateBlock_def

lemmas block_defs = Let_def assemble_matrix_form_def ex_V_def ex_W_def ex_B_def ex_form_def
  ex_mesh_def ex_cell_def eval_defs function_space_def Form_function_space_def Form_mesh_def
  primary_meshes_def pushed_def marker_meshes_def mesh_ptr_eq_def nth_append

lemma allocate_ex_asm:
  "allocate_matrix ex_asm MatEmpty monolithic = Inr (MatPlain zero_Mat)"
  by (simp add: allocate_matrix_def ex_asm_def ex_blocks_def init_monolithic_matrix_def)

lemma assemble_matrix_ex_asm:
  "\<exists>A'. assemble_matrix 1 ex_asm MatEmpty monolithic = Inr (MatPlain A') \<and>
      mat_values A' 4 4 = 1 \<and> mat_values A' 5 5 = 4 \<and> mat_values A' 4 0 = 1 \<and>
      mat_values A' 0 4 = 1 \<and> mat_values A' 0 0 = 1 \<and> mat_values A' 2 2 = 0"
  by (simp add: assemble_matrix_def allocate_matrix_def init_monolithic_matrix_def
      ex_asm_def ex_blocks_def block_defs)


section \<open>Accumulation in the cores\<close>

lemma add_value_with_exact: "add_value_with (+) = add_value"
  by (simp add: add_value_with_def add_value_def fun_eq_iff)

lemma add_local_with_exact: "add_local_with (+) = add_local"
  by (simp add: add_local_with_def add_local_def add_value_with_exact fun_eq_iff)

lemma add_local_view_with_exact: "add_local_view_with (+) = add_local_view"
  by (simp add: add_local_view_with_def add_local_view_def add_local_with_exact fun_eq_iff
      cong: sum.case_cong)

lemma assemble_cells_with_exact:
  "assemble_cells_with (+) v a V0 V1 bv0 bv1 cs A = assemble_cells v a V0 V1 bv0 bv1 cs A"
  by (induction cs arbitrary: A)
    (simp_all add: add_local_view_with_exact Let_def cong: sum.case_cong)

lemma assemble_matrix_form_with_exact:
  "assemble_matrix_form_with (+) v A a bcs = assemble_matrix_form v A a bcs"
  by (simp add: assemble_matrix_form_with_def assemble_matrix_form_def assemble_cells_with_exact
      cong: sum.case_cong)

lemma add_cell_vector_with_exact:
  "add_cell_vector_with (+) b ds be i = add_cell_vector b ds be i"
  by (induction ds arbitrary: b i) simp_all

lemma assemble_vector_cells_with_exact:
  "assemble_vector_cells_with (+) L V cs b = assemble_vector_cells L V cs b"
  by (induction cs arbitrary: b) (simp_all add: add_cell_vector_with_exact cong: sum.case_cong)

lemma assemble_vector_form_with_exact:
  "assemble_vector_form_with (+) b L = assemble_vector_form b L"
  by (simp add: assemble_vector_form_with_def assemble_vector_form_def
      assemble_vector_cells_with_exact cong: sum.case_cong)

lemma add_value_with_entry:
  "add_value_with fplus A r c v p q = (if r = p \<and> c = q then fplus (A p q) v else A p q)"
  by (simp add: add_value_with_def)

lemma add_local_with_inner:
  "fold (\<lambda>j Y. add_value_with fplus Y r (cols ! j) (f j)) js A p q =
     foldl fplus (A p q) (map f (filter (\<lambda>j. r = p \<and> cols ! j = q) js))"
  by (induction js arbitrary: A) (simp_all add: add_value_with_entry)

lemma add_local_with_outer:
  "fold (\<lambda>i Y. fold (\<lambda>j Y. add_value_with fplus Y (rows ! i) (cols ! j) (Ae i j)) js Y) is A p q =
     foldl fplus (A p q)
       (concat (map (\<lambda>i. map (Ae i) (filter (\<lambda>j. rows ! i = p \<and> cols ! j = q) js)) is))"
  by (induction "is" arbitrary: A) (simp_all add: add_local_with_inner)

lemma add_local_with_entry:
  "add_local_with fplus A rows cols Ae p q =
     foldl fplus (A p q)
       (concat (map (\<lambda>i. map (Ae i) (filter (\<lambda>j. rows ! i = p \<and> cols ! j = q) [0..<length cols]))
                  [0..<length rows]))"
  unfolding add_local_with_def by (rule add_local_with_outer)

lemma view_indices_through: "view_indices v dofs = Inr ds \<Longrightarrow> ds = through v dofs"
  by (auto simp: view_indices_def through_def split: option.splits if_splits)

lemma add_local_view_with_through:
  assumes "add_local_view_with fplus v A rows cols Ae = Inr A'"
  shows "A' = add_local_with fplus A (through (map_option fst v) rows)
                (through (map_option snd v) cols) Ae"
proof -
  from assms obtain rows' where r: "view_indices (map_option fst v) rows = Inr rows'"
    by (cases "view_indices (map_option fst v) rows") (auto simp: add_local_view_with_def)
  from assms r obtain cols' where c: "view_indices (map_option snd v) cols = Inr cols'"
    by (cases "view_indices (map_option snd v) cols") (auto simp: add_local_view_with_def)
  from assms r c have "A' = add_local_with fplus A rows' cols' Ae"
    by (simp add: add_local_view_with_def)
  with view_indices_through [OF r] view_indices_through [OF c] show ?thesis by simp
qed

lemma add_local_view_with_any:
  "add_local_view_with fplus v A rows cols Ae = Inr A' \<Longrightarrow>
   \<exists>B'. add_local_view_with g v B rows cols Ae' = Inr B'"
  by (auto simp: add_local_view_with_def split: sum.splits)

lemma assemble_cells_with_entry:
  "assemble_cells_with fplus v a V0 V1 bv0 bv1 cs A = Inr A' \<Longrightarrow>
   A' p q = foldl fplus (A p q) (matrix_contributions v a V0 V1 bv0 bv1 cs p q)"
proof (induction cs arbitrary: A)
  case Nil
  then show ?case by (simp add: matrix_contributions_def)
next
  case (Cons c cs)
  let ?d0 = "cell_dofs V0 (cell_index c)"
  let ?d1 = "cell_dofs V1 (cell_index c)"
  let ?Ae = "zero_cols bv1 ?d1 (zero_rows bv0 ?d0 (cell_tensor a c (length ?d1)))"
  from Cons.prems have g: "\<not> cell_is_ghost c" by (auto split: if_splits)
  with Cons.prems obtain A1 where
    A1: "add_local_view_with fplus v A ?d0 ?d1 ?Ae = Inr A1" and
    rest: "assemble_cells_with fplus v a V0 V1 bv0 bv1 cs A1 = Inr A'"
    by (cases "add_local_view_with fplus v A ?d0 ?d1 ?Ae") (auto simp: Let_def)
  have e1: "A1 p q = foldl fplus (A p q)
      (concat (map (\<lambda>i. map (?Ae i)
                 (filter (\<lambda>j. through (map_option fst v) ?d0 ! i = p \<and>
                               through (map_option snd v) ?d1 ! j = q)
                    [0..<length (through (map_option snd v) ?d1)]))
          [0..<length (through (map_option fst v) ?d0)]))"
    unfolding add_local_view_with_through [OF A1] by (rule add_local_with_entry)
  have "A' p q = foldl fplus (A1 p q) (matrix_contributions v a V0 V1 bv0 bv1 cs p q)"
    by (rule Cons.IH [OF rest])
  then show ?case
    unfolding e1 by (simp add: matrix_contributions_def Let_def)
qed

lemma assemble_cells_with_any:
  "assemble_cells_with fplus v a V0 V1 bv0 bv1 cs A = Inr A' \<Longrightarrow>
   \<exists>B'. assemble_cells_with g v a V0 V1 bv0 bv1 cs B = Inr B'"
proof (induction cs arbitrary: A B)
  case Nil
  then show ?case by simp
next
  case (Cons c cs)
  let ?d0 = "cell_dofs V0 (cell_index c)"
  let ?d1 = "cell_dofs V1 (cell_index c)"
  let ?Ae = "zero_cols bv1 ?d1 (zero_rows bv0 ?d0 (cell_tensor a c (length ?d1)))"
  from Cons.prems have g: "\<not> cell_is_ghost c" by (auto split: if_splits)
  with Cons.prems obtain A1 where
    A1: "add_local_view_with fplus v A ?d0 ?d1 ?Ae = Inr A1" and
    rest: "assemble_cells_with fplus v a V0 V1 bv0 bv1 cs A1 = Inr A'"
    by (cases "add_local_view_with fplus v A ?d0 ?d1 ?Ae") (auto simp: Let_def)
  from add_local_view_with_any [OF A1] obtain B1 where
    B1: "add_local_view_with g v B ?d0 ?d1 ?Ae = Inr B1"
    by blast
  from Cons.IH [OF rest] obtain B' where
    "assemble_cells_with g v a V0 V1 bv0 bv1 cs B1 = Inr B'"
    by blast
  with g B1 show ?case by (simp add: Let_def)
qed

lemma assemble_matrix_form_with_entry:
  assumes "assemble_matrix_form_with fplus v A a bcs = Inr A'"
  shows "\<exists>mesh V0 V1 bvs.
           Form_mesh a = Inr mesh \<and> function_space a 0 = Inr V0 \<and>
           function_space a 1 = Inr V1 \<and>
           collect_axes (mesh_mpi_size mesh) V0 V1 bcs ([], []) = Inr bvs \<and>
           mat_applied A' = mat_applied A \<and>
           (\<forall>p q. mat_values A' p q =
              foldl fplus (mat_values A p q)
                (matrix_contributions v a V0 V1 (fst bvs) (snd bvs) (mesh_cells mesh) p q))"
proof -
  from assms obtain mesh V0 V1 bvs vals where
    m: "Form_mesh a = Inr mesh" and
    p0: "Form_function_space a 0 = Inr (Some V0)" and
    p1: "Form_function_space a 1 = Inr (Some V1)" and
    bv: "collect_axes (mesh_mpi_size mesh) V0 V1 bcs ([], []) = Inr bvs" and
    cells: "assemble_cells_with fplus v a V0 V1 (fst bvs) (snd bvs) (mesh_cells mesh)
              (mat_values A) = Inr vals" and
    A': "A' = A\<lparr>mat_values := vals\<rparr>"
    by (auto simp: assemble_matrix_form_with_def deref_def split: sum.splits option.splits)
  have f0: "function_space a 0 = Inr V0" and f1: "function_space a 1 = Inr V1"
    using p0 p1 by (simp_all add: function_space_def deref_def)
  have "\<forall>p q. mat_values A' p q =
      foldl fplus (mat_values A p q)
        (matrix_contributions v a V0 V1 (fst bvs) (snd bvs) (mesh_cells mesh) p q)"
    using assemble_cells_with_entry [OF cells] A' by simp
  moreover have "mat_applied A' = mat_applied A" using A' by simp
  ultimately show ?thesis using m f0 f1 bv by blast
qed

lemma assemble_matrix_form_with_any:
  assumes "assemble_matrix_form_with fplus v A a bcs = Inr A'"
  shows "\<exists>B'. assemble_matrix_form_with g v B a bcs = Inr B'"
proof -
  from assms obtain mesh V0 V1 bvs vals where
    m: "Form_mesh a = Inr mesh" and
    p0: "Form_function_space a 0 = Inr (Some V0)" and
    p1: "Form_function_space a 1 = Inr (Some V1)" and
    bv: "collect_axes (mesh_mpi_size mesh) V0 V1 bcs ([], []) = Inr bvs" and
    cells: "assemble_cells_with fplus v a V0 V1 (fst bvs) (snd bvs) (mesh_cells mesh)
              (mat_values A) = Inr vals"
    by (auto simp: assemble_matrix_form_with_def deref_def split: sum.splits option.splits)
  from assemble_cells_with_any [OF cells] obtain vals' where
    "assemble_cells_with g v a V0 V1 (fst bvs) (snd bvs) (mesh_cells mesh) (mat_values B) = Inr vals'"
    by blast
  with m p0 p1 bv show ?thesis
    by (simp add: assemble_matrix_form_with_def deref_def)
qed

lemma filter_upt_Suc:
  "filter P [0..<Suc n] = (if P 0 then [0] else []) @ map Suc (filter (\<lambda>k. P (Suc k)) [0..<n])"
proof -
  have "[0..<Suc n] = 0 # map Suc [0..<n]"
    by (simp add: upt_conv_Cons map_Suc_upt del: upt_Suc)
  then show ?thesis by (simp add: filter_map comp_def del: upt_Suc)
qed

lemma add_cell_vector_with_entry:
  "add_cell_vector_with fplus b ds be i = Inr b' \<Longrightarrow>
   length b' = length b \<and>
   (\<forall>d < length b. b' ! d =
      foldl fplus (b ! d) (map (\<lambda>k. be (i + k)) (filter (\<lambda>k. ds ! k = d) [0..<length ds])))"
proof (induction ds arbitrary: b i)
  case Nil
  then show ?case by simp
next
  case (Cons d0 ds)
  from Cons.prems have r: "d0 < length b" by (auto split: if_splits)
  with Cons.prems have
    rest: "add_cell_vector_with fplus (b[d0 := fplus (b ! d0) (be i)]) ds be (Suc i) = Inr b'"
    by simp
  from Cons.IH [OF rest] have len: "length b' = length b" and
    ent: "\<forall>d < length b. b' ! d =
      foldl fplus (b[d0 := fplus (b ! d0) (be i)] ! d)
        (map (\<lambda>k. be (Suc i + k)) (filter (\<lambda>k. ds ! k = d) [0..<length ds]))"
    by simp_all
  have "\<forall>d < length b. b' ! d =
      foldl fplus (b ! d)
        (map (\<lambda>k. be (i + k)) (filter (\<lambda>k. (d0 # ds) ! k = d) [0..<length (d0 # ds)]))"
  proof (intro allI impI)
    fix d assume d: "d < length b"
    have f: "filter (\<lambda>k. (d0 # ds) ! k = d) [0..<length (d0 # ds)] =
        (if d0 = d then [0] else []) @ map Suc (filter (\<lambda>k. ds ! k = d) [0..<length ds])"
      using filter_upt_Suc [of "\<lambda>k. (d0 # ds) ! k = d" "length ds"] by simp
    show "b' ! d = foldl fplus (b ! d)
        (map (\<lambda>k. be (i + k)) (filter (\<lambda>k. (d0 # ds) ! k = d) [0..<length (d0 # ds)]))"
      unfolding f using ent d r by (simp add: comp_def nth_list_update)
  qed
  with len show ?case by simp
qed

lemma add_cell_vector_with_any:
  "add_cell_vector_with fplus b ds be i = Inr b' \<Longrightarrow> length c = length b \<Longrightarrow>
   \<exists>c'. add_cell_vector_with g c ds be' i' = Inr c'"
proof (induction ds arbitrary: b c i i')
  case Nil
  then show ?case by simp
next
  case (Cons d0 ds)
  from Cons.prems have r: "d0 < length b" by (auto split: if_splits)
  with Cons.prems have
    rest: "add_cell_vector_with fplus (b[d0 := fplus (b ! d0) (be i)]) ds be (Suc i) = Inr b'"
    by simp
  have "length (c[d0 := g (c ! d0) (be' i')]) = length (b[d0 := fplus (b ! d0) (be i)])"
    using Cons.prems(2) by simp
  from Cons.IH [OF rest this] r Cons.prems(2) show ?case by simp
qed

lemma assemble_vector_cells_with_entry:
  "assemble_vector_cells_with fplus L V cs b = Inr b' \<Longrightarrow>
   length b' = length b \<and>
   (\<forall>d < length b. b' ! d = foldl fplus (b ! d) (vector_contributions L V cs d))"
proof (induction cs arbitrary: b)
  case Nil
  then show ?case by (simp add: vector_contributions_def)
next
  case (Cons c cs)
  let ?ds = "cell_dofs V (cell_index c)"
  from Cons.prems have g: "\<not> cell_is_ghost c" by (auto split: if_splits)
  with Cons.prems obtain b1 where
    b1: "add_cell_vector_with fplus b ?ds (tabulate_tensor L c) 0 = Inr b1" and
    rest: "assemble_vector_cells_with fplus L V cs b1 = Inr b'"
    by (cases "add_cell_vector_with fplus b ?ds (tabulate_tensor L c) 0") auto
  from add_cell_vector_with_entry [OF b1] have l1: "length b1 = length b" and
    e1: "\<forall>d < length b. b1 ! d =
      foldl fplus (b ! d) (map (tabulate_tensor L c) (filter (\<lambda>k. ?ds ! k = d) [0..<length ?ds]))"
    by simp_all
  from Cons.IH [OF rest] l1 have l: "length b' = length b" and
    e: "\<forall>d < length b. b' ! d = foldl fplus (b1 ! d) (vector_contributions L V cs d)"
    by simp_all
  from e e1 have "\<forall>d < length b. b' ! d =
      foldl fplus (b ! d) (vector_contributions L V (c # cs) d)"
    by (simp add: vector_contributions_def)
  with l show ?case by simp
qed

lemma assemble_vector_cells_with_any:
  "assemble_vector_cells_with fplus L V cs b = Inr b' \<Longrightarrow> length c = length b \<Longrightarrow>
   \<exists>c'. assemble_vector_cells_with g L V cs c = Inr c'"
proof (induction cs arbitrary: b c)
  case Nil
  then show ?case by simp
next
  case (Cons x cs)
  let ?ds = "cell_dofs V (cell_index x)"
  from Cons.prems have gh: "\<not> cell_is_ghost x" by (auto split: if_splits)
  with Cons.prems obtain b1 where
    b1: "add_cell_vector_with fplus b ?ds (tabulate_tensor L x) 0 = Inr b1" and
    rest: "assemble_vector_cells_with fplus L V cs b1 = Inr b'"
    by (cases "add_cell_vector_with fplus b ?ds (tabulate_tensor L x) 0") auto
  from add_cell_vector_with_any [OF b1 Cons.prems(2)] obtain c1 where
    c1: "add_cell_vector_with g c ?ds (tabulate_tensor L x) 0 = Inr c1"
    by blast
  have "length c1 = length b1"
    using add_cell_vector_with_entry [OF c1] add_cell_vector_with_entry [OF b1] Cons.prems(2)
    by simp
  from Cons.IH [OF rest this] gh c1 show ?case by simp
qed

lemma foldl_exact: "exact_from fplus x cs \<Longrightarrow> foldl fplus x cs = x + sum_list cs"
  by (induction cs arbitrary: x) (simp_all add: add.assoc)

lemma assemble_vector_form_with_entry:
  assumes "assemble_vector_form_with fplus b L = Inr b'"
  shows "\<exists>mesh V. Form_mesh L = Inr mesh \<and> function_space L 0 = Inr V \<and>
           length b' = length b \<and>
           (\<forall>d < length b. b' ! d =
              foldl fplus (b ! d) (vector_contributions L V (mesh_cells mesh) d))"
proof -
  from assms obtain mesh V where
    m: "Form_mesh L = Inr mesh" and V: "function_space L 0 = Inr V" and
    cells: "assemble_vector_cells_with fplus L V (mesh_cells mesh) b = Inr b'"
    by (auto simp: assemble_vector_form_with_def split: sum.splits)
  from assemble_vector_cells_with_entry [OF cells] m V show ?thesis by blast
qed

lemma assemble_vector_form_with_any:
  assumes "assemble_vector_form_with fplus b L = Inr b'" and "length c = length b"
  shows "\<exists>c'. assemble_vector_form_with g c L = Inr c'"
proof -
  from assms obtain mesh V where
    m: "Form_mesh L = Inr mesh" and V: "function_space L 0 = Inr V" and
    cells: "assemble_vector_cells_with fplus L V (mesh_cells mesh) b = Inr b'"
    by (auto simp: assemble_vector_form_with_def split: sum.splits)
  from assemble_vector_cells_with_any [OF cells assms(2)] m V show ?thesis
    by (simp add: assemble_vector_form_with_def)
qed

lemma assemble_matrix_form_with_frame:
  "assemble_matrix_form_with fplus v A a bcs = Inr A' \<Longrightarrow> A' = A\<lparr>mat_values := mat_values A'\<rparr>"
  by (auto simp: assemble_matrix_form_with_def split: sum.splits)

lemma assemble_vector_form_with_no_rounding:
  assumes b1: "assemble_vector_form_with fplus (replicate n 0) L = Inr b1"
    and m: "Form_mesh L = Inr mesh" and V: "function_space L 0 = Inr V"
    and ex: "\<forall>d < n. exact_from fplus 0 (vector_contributions L V (mesh_cells mesh) d) \<and>
                    exact_from fplus (b1 ! d) (vector_contributions L V (mesh_cells mesh) d)"
  shows "assemble_vector_form_with fplus b1 L = Inr (map2 (+) b1 b1)"
proof -
  from assemble_vector_form_with_entry [OF b1] m V have
    l1: "length b1 = n" and
    e1: "\<forall>d < n. b1 ! d = foldl fplus 0 (vector_contributions L V (mesh_cells mesh) d)"
    by auto
  from assemble_vector_form_with_any [OF b1, of b1 fplus] l1 obtain b2 where
    b2: "assemble_vector_form_with fplus b1 L = Inr b2"
    by auto
  from assemble_vector_form_with_entry [OF b2] m V have
    l2: "length b2 = n" and
    e2: "\<forall>d < n. b2 ! d = foldl fplus (b1 ! d) (vector_contributions L V (mesh_cells mesh) d)"
    using l1 by auto
  have "b2 = map2 (+) b1 b1"
  proof (rule nth_equalityI)
    show "length b2 = length (map2 (+) b1 b1)" using l1 l2 by simp
  next
    fix d assume "d < length b2"
    then have d: "d < n" using l2 by simp
    let ?cs = "vector_contributions L V (mesh_cells mesh) d"
    have "b1 ! d = 0 + sum_list ?cs" using e1 ex d foldl_exact by metis
    moreover have "b2 ! d = b1 ! d + sum_list ?cs" using e2 ex d foldl_exact by metis
    ultimately have "b2 ! d = b1 ! d + b1 ! d" by simp
    then show "b2 ! d = map2 (+) b1 b1 ! d" using d l1 by simp
  qed
  with b2 show ?thesis by simp
qed

lemma assemble_matrix_form_with_no_rounding:
  assumes A1: "assemble_matrix_form_with fplus v (A\<lparr>mat_values := (\<lambda>p q. 0)\<rparr>) a bcs = Inr A1"
    and m: "Form_mesh a = Inr mesh"
    and V0: "function_space a 0 = Inr V0" and V1: "function_space a 1 = Inr V1"
    and bv: "collect_axes (mesh_mpi_size mesh) V0 V1 bcs ([], []) = Inr bvs"
    and ex: "\<forall>p q.
        exact_from fplus 0
          (matrix_contributions v a V0 V1 (fst bvs) (snd bvs) (mesh_cells mesh) p q) \<and>
        exact_from fplus (mat_values A1 p q)
          (matrix_contributions v a V0 V1 (fst bvs) (snd bvs) (mesh_cells mesh) p q)"
  shows "assemble_matrix_form_with fplus v A1 a bcs =
           Inr (A1\<lparr>mat_values := (\<lambda>p q. mat_values A1 p q + mat_values A1 p q)\<rparr>)"
proof -
  let ?cs = "matrix_contributions v a V0 V1 (fst bvs) (snd bvs) (mesh_cells mesh)"
  from assemble_matrix_form_with_entry [OF A1] m V0 V1 bv have
    e1: "\<forall>p q. mat_values A1 p q = foldl fplus 0 (?cs p q)"
    by auto
  from assemble_matrix_form_with_any [OF A1, of fplus A1] obtain A2 where
    A2: "assemble_matrix_form_with fplus v A1 a bcs = Inr A2"
    by blast
  from assemble_matrix_form_with_entry [OF A2] m V0 V1 bv have
    e2: "\<forall>p q. mat_values A2 p q = foldl fplus (mat_values A1 p q) (?cs p q)"
    by auto
  have "mat_values A2 p q = mat_values A1 p q + mat_values A1 p q" for p q
  proof -
    have "mat_values A1 p q = 0 + sum_list (?cs p q)" using e1 ex foldl_exact by metis
    moreover have "mat_values A2 p q = mat_values A1 p q + sum_list (?cs p q)"
      using e2 ex foldl_exact by metis
    ultimately show ?thesis by simp
  qed
  then have "mat_values A2 = (\<lambda>p q. mat_values A1 p q + mat_values A1 p q)"
    by (simp add: fun_eq_iff)
  with assemble_matrix_form_with_frame [OF A2] have
    "A2 = A1\<lparr>mat_values := (\<lambda>p q. mat_values A1 p q + mat_values A1 p q)\<rparr>"
    by simp
  with A2 show ?thesis by simp
qed

text \<open>
  Claim C4, as amended. The cores only accumulate. Whatever the addition \<open>fplus\<close> that
  \<open>+=\<close> and \<open>add_local\<close> perform: every entry of the assembled vector or matrix is the
  entry of the target handed in with the contributions of the cells to that entry added
  to it one after the other, in the order of the cell loop and of the local indices;
  nothing is overwritten, and the linear core zeroes nothing (the matrix core zeroes the
  rows and columns of constrained dofs in the cell tensor, before it is added). When none
  of these additions rounds, neither into the zero target nor into the target pre-loaded
  with the result for the zero target, assembling into the pre-loaded target gives the
  entrywise sum of two results for the zero target. When an addition rounds, the two
  may differ.
\<close>

theorem assembly_accumulates:
  fixes fplus :: "real \<Rightarrow> real \<Rightarrow> real"
  shows
  "(assemble_vector_form_with fplus b L = Inr b' \<longrightarrow>
      (\<exists>mesh V. Form_mesh L = Inr mesh \<and> function_space L 0 = Inr V \<and>
         length b' = length b \<and>
         (\<forall>d < length b. b' ! d =
            foldl fplus (b ! d) (vector_contributions L V (mesh_cells mesh) d)))) \<and>
   (assemble_matrix_form_with fplus v A a bcs = Inr A' \<longrightarrow>
      (\<exists>mesh V0 V1 bvs.
         Form_mesh a = Inr mesh \<and> function_space a 0 = Inr V0 \<and>
         function_space a 1 = Inr V1 \<and>
         collect_axes (mesh_mpi_size mesh) V0 V1 bcs ([], []) = Inr bvs \<and>
         mat_applied A' = mat_applied A \<and>
         (\<forall>p q. mat_values A' p q =
            foldl fplus (mat_values A p q)
              (matrix_contributions v a V0 V1 (fst bvs) (snd bvs) (mesh_cells mesh) p q)))) \<and>
   (assemble_vector_form_with fplus (replicate n 0) L = Inr b1 \<and>
    Form_mesh L = Inr lmesh \<and> function_space L 0 = Inr W \<and>
    (\<forall>d < n. exact_from fplus 0 (vector_contributions L W (mesh_cells lmesh) d) \<and>
             exact_from fplus (b1 ! d) (vector_contributions L W (mesh_cells lmesh) d)) \<longrightarrow>
      assemble_vector_form_with fplus b1 L = Inr (map2 (+) b1 b1)) \<and>
   (assemble_matrix_form_with fplus v (A\<lparr>mat_values := (\<lambda>p q. 0)\<rparr>) a bcs = Inr A1 \<and>
    Form_mesh a = Inr amesh \<and> function_space a 0 = Inr W0 \<and> function_space a 1 = Inr W1 \<and>
    collect_axes (mesh_mpi_size amesh) W0 W1 bcs ([], []) = Inr bws \<and>
    (\<forall>p q.
       exact_from fplus 0
         (matrix_contributions v a W0 W1 (fst bws) (snd bws) (mesh_cells amesh) p q) \<and>
       exact_from fplus (mat_values A1 p q)
         (matrix_contributions v a W0 W1 (fst bws) (snd bws) (mesh_cells amesh) p q)) \<longrightarrow>
      assemble_matrix_form_with fplus v A1 a bcs =
        Inr (A1\<lparr>mat_values := (\<lambda>p q. mat_values A1 p q + mat_values A1 p q)\<rparr>))"
proof (intro conjI impI)
  assume "assemble_vector_form_with fplus b L = Inr b'"
  then show "\<exists>mesh V. Form_mesh L = Inr mesh \<and> function_space L 0 = Inr V \<and>
         length b' = length b \<and>
         (\<forall>d < length b. b' ! d =
            foldl fplus (b ! d) (vector_contributions L V (mesh_cells mesh) d))"
    by (rule assemble_vector_form_with_entry)
next
  assume "assemble_matrix_form_with fplus v A a bcs = Inr A'"
  then show "\<exists>mesh V0 V1 bvs.
         Form_mesh a = Inr mesh \<and> function_space a 0 = Inr V0 \<and>
         function_space a 1 = Inr V1 \<and>
         collect_axes (mesh_mpi_size mesh) V0 V1 bcs ([], []) = Inr bvs \<and>
         mat_applied A' = mat_applied A \<and>
         (\<forall>p q. mat_values A' p q =
            foldl fplus (mat_values A p q)
              (matrix_contributions v a V0 V1 (fst bvs) (snd bvs) (mesh_cells mesh) p q))"
    by (rule assemble_matrix_form_with_entry)
next
  assume h: "assemble_vector_form_with fplus (replicate n 0) L = Inr b1 \<and>
    Form_mesh L = Inr lmesh \<and> function_space L 0 = Inr W \<and>
    (\<forall>d < n. exact_from fplus 0 (vector_contributions L W (mesh_cells lmesh) d) \<and>
             exact_from fplus (b1 ! d) (vector_contributions L W (mesh_cells lmesh) d))"
  then have r: "assemble_vector_form_with fplus (replicate n 0) L = Inr b1"
    and m: "Form_mesh L = Inr lmesh" and V: "function_space L 0 = Inr W"
    and ex: "\<forall>d < n. exact_from fplus 0 (vector_contributions L W (mesh_cells lmesh) d) \<and>
             exact_from fplus (b1 ! d) (vector_contributions L W (mesh_cells lmesh) d)"
    by blast+
  show "assemble_vector_form_with fplus b1 L = Inr (map2 (+) b1 b1)"
    using r m V ex by (rule assemble_vector_form_with_no_rounding)
next
  assume h: "assemble_matrix_form_with fplus v (A\<lparr>mat_values := (\<lambda>p q. 0)\<rparr>) a bcs = Inr A1 \<and>
    Form_mesh a = Inr amesh \<and> function_space a 0 = Inr W0 \<and> function_space a 1 = Inr W1 \<and>
    collect_axes (mesh_mpi_size amesh) W0 W1 bcs ([], []) = Inr bws \<and>
    (\<forall>p q.
       exact_from fplus 0
         (matrix_contributions v a W0 W1 (fst bws) (snd bws) (mesh_cells amesh) p q) \<and>
       exact_from fplus (mat_values A1 p q)
         (matrix_contributions v a W0 W1 (fst bws) (snd bws) (mesh_cells amesh) p q))"
  then have r: "assemble_matrix_form_with fplus v (A\<lparr>mat_values := (\<lambda>p q. 0)\<rparr>) a bcs = Inr A1"
    and m: "Form_mesh a = Inr amesh"
    and V0: "function_space a 0 = Inr W0" and V1: "function_space a 1 = Inr W1"
    and bv: "collect_axes (mesh_mpi_size amesh) W0 W1 bcs ([], []) = Inr bws"
    and ex: "\<forall>p q.
       exact_from fplus 0
         (matrix_contributions v a W0 W1 (fst bws) (snd bws) (mesh_cells amesh) p q) \<and>
       exact_from fplus (mat_values A1 p q)
         (matrix_contributions v a W0 W1 (fst bws) (snd bws) (mesh_cells amesh) p q)"
    by blast+
  show "assemble_matrix_form_with fplus v A1 a bcs =
        Inr (A1\<lparr>mat_values := (\<lambda>p q. mat_values A1 p q + mat_values A1 p q)\<rparr>)"
    using r m V0 V1 bv ex by (rule assemble_matrix_form_with_no_rounding)
qed

lemma round_half_even_of_int: "round_half_even (of_int m) = m"
  by (simp add: round_half_even_def)

lemma round64_binade:
  fixes x :: real and e :: nat
  assumes lo: "2 ^ e \<le> x" and hi: "x < 2 ^ Suc e" and e: "52 \<le> e"
  shows "round64 x = of_int (round_half_even (x / 2 ^ (e - 52))) * 2 ^ (e - 52)"
proof -
  have "(0::real) < 2 ^ e" by simp
  with lo have pos: "0 < x" by linarith
  have p0: "(2::real) powr real_of_int (int e) = 2 ^ e"
    by (simp add: powr_realpow)
  have p1: "(2::real) powr real_of_int (int e + 1) = 2 ^ Suc e"
    by (simp add: powr_add powr_realpow)
  have "\<lfloor>log 2 x\<rfloor> = int e"
    using floor_log_eq_powr_iff [of x 2 "int e"] pos lo hi unfolding p0 p1 by simp
  then have fl: "\<lfloor>log 2 x\<rfloor> = int e" .
  have q: "max (int e - 52) (- 1074) = int (e - 52)" using e by simp
  have pw: "(2::real) powr real_of_int (int (e - 52)) = 2 ^ (e - 52)"
    by (simp add: powr_realpow)
  have "round64 x =
      real_of_int (round_half_even
         (x / 2 powr real_of_int (max (\<lfloor>log 2 x\<rfloor> - 52) (- 1074)))) *
      2 powr real_of_int (max (\<lfloor>log 2 x\<rfloor> - 52) (- 1074))"
    using pos by (simp add: round64_def Let_def)
  also have "\<dots> = of_int (round_half_even (x / 2 ^ (e - 52))) * 2 ^ (e - 52)"
    unfolding fl q pw ..
  finally show ?thesis .
qed

lemma round64_int:
  assumes "\<bar>n\<bar> < 2 ^ 53"
  shows "round64 (of_int n) = of_int n"
proof (cases "n = 0")
  case True
  then show ?thesis by (simp add: round64_def)
next
  case False
  let ?x = "real_of_int n"
  let ?e = "\<lfloor>log 2 \<bar>?x\<bar>\<rfloor>"
  let ?q = "max (?e - 52) (- 1074)"
  have pos: "0 < \<bar>?x\<bar>" using False by simp
  have "\<bar>?x\<bar> < 2 ^ 53" using assms by (metis of_int_abs of_int_less_numeral_power_cancel_iff)
  then have "\<bar>?x\<bar> < 2 powr 53" by simp
  moreover have "2 powr real_of_int ?e \<le> \<bar>?x\<bar>"
    using floor_log_eq_powr_iff [of "\<bar>?x\<bar>" 2 ?e] pos by simp
  ultimately have "2 powr real_of_int ?e < (2::real) powr 53" by linarith
  then have "real_of_int ?e < 53"
    using powr_less_cancel_iff [of 2 "real_of_int ?e" 53] by (simp del: powr_numeral)
  then have "?e < 53" by simp
  then have q0: "?q \<le> 0" by simp
  have q1: "- 1074 \<le> ?q" by simp
  define k where "k = nat (- ?q)"
  have qk: "?q = - int k" using q0 by (simp add: k_def)
  have pw: "2 powr real_of_int ?q = 1 / 2 ^ k"
    unfolding qk by (simp add: powr_minus powr_realpow inverse_eq_divide)
  have "?x / 2 powr real_of_int ?q = real_of_int (n * 2 ^ k)"
    unfolding pw by simp
  then have "round_half_even (?x / 2 powr real_of_int ?q) = n * 2 ^ k"
    by (simp only: round_half_even_of_int)
  then have "real_of_int (round_half_even (?x / 2 powr real_of_int ?q)) * 2 powr real_of_int ?q = ?x"
    unfolding pw by simp
  with False show ?thesis by (simp add: round64_def Let_def)
qed

lemma round64_small:
  "round64 0 = 0" "round64 1 = 1"
  "numeral w < (2::int) ^ 53 \<Longrightarrow> round64 (numeral w) = numeral w"
  using round64_int [of 0] round64_int [of 1] round64_int [of "numeral w"] by simp_all

lemma fadd_values:
  "fadd 0 9007199254740992 = 9007199254740992"
  "fadd 9007199254740992 2 = 9007199254740994"
  "fadd 9007199254740994 9007199254740992 = 18014398509481984"
  "fadd 18014398509481984 2 = 18014398509481984"
  "fadd 9007199254740994 9007199254740994 = 18014398509481988"
proof -
  show "fadd 0 9007199254740992 = 9007199254740992"
    using round64_binade [of 53 9007199254740992]
    by (simp add: fadd_def round_half_even_def)
  show "fadd 9007199254740992 2 = 9007199254740994"
    using round64_binade [of 53 9007199254740994]
    by (simp add: fadd_def round_half_even_def)
  show "fadd 9007199254740994 9007199254740992 = 18014398509481984"
    using round64_binade [of 54 18014398509481986]
    by (simp add: fadd_def round_half_even_def)
  show "fadd 18014398509481984 2 = 18014398509481984"
    using round64_binade [of 54 18014398509481986]
    by (simp add: fadd_def round_half_even_def)
  show "fadd 9007199254740994 9007199254740994 = 18014398509481988"
    using round64_binade [of 54 18014398509481988]
    by (simp add: fadd_def round_half_even_def)
qed

text \<open>
  Rounding at \<open>2^53\<close>, where the doubles are the even integers: a tie goes to the
  multiple of four, everything else to the nearest even integer.
\<close>

lemma fadd_rounds:
  "fadd 9007199254740992 1 = 9007199254740992"
  "fadd 9007199254740992 3 = 9007199254740996"
  "fadd 9007199254740994 1 = 9007199254740996"
  "fadd 18014398509481984 1 = 18014398509481984"
  "fadd 18014398509481984 3 = 18014398509481988"
proof -
  show "fadd 9007199254740992 1 = 9007199254740992"
    using round64_binade [of 53 9007199254740993]
    by (simp add: fadd_def round_half_even_def)
  show "fadd 9007199254740992 3 = 9007199254740996"
    using round64_binade [of 53 9007199254740995]
    by (simp add: fadd_def round_half_even_def)
  show "fadd 9007199254740994 1 = 9007199254740996"
    using round64_binade [of 53 9007199254740995]
    by (simp add: fadd_def round_half_even_def)
  show "fadd 18014398509481984 1 = 18014398509481984"
    using round64_binade [of 54 18014398509481985]
    by (simp add: fadd_def round_half_even_def)
  show "fadd 18014398509481984 3 = 18014398509481988"
    using round64_binade [of 54 18014398509481987]
    by (simp add: fadd_def round_half_even_def)
qed

lemma fadd_small:
  "fadd 0 1 = 1" "fadd 0 2 = 2" "fadd 0 3 = 3" "fadd 0 4 = 4"
  by (simp_all add: fadd_def round64_small)

lemma Form_mesh_ex_L_big: "Form_mesh ex_L_big = Inr ex_mesh3"
  by (simp add: Form_mesh_def primary_meshes_def pushed_def marker_meshes_def ex_L_big_def
      ex_P_def)

lemma function_space_ex_L_big: "function_space ex_L_big 0 = Inr ex_P"
  by (simp add: function_space_def Form_function_space_def deref_def ex_L_big_def ex_ufc_def)

lemma assemble_vector_form_with_ex_L_big:
  "assemble_vector_form_with fplus b ex_L_big =
     assemble_vector_cells_with fplus ex_L_big ex_P (mesh_cells ex_mesh3) b"
  by (simp add: assemble_vector_form_with_def Form_mesh_ex_L_big function_space_ex_L_big)

text \<open>
  Claim C4 as stated fails in double precision. The linear form \<open>ex_L_big\<close> contributes
  \<open>2^53\<close> and then \<open>2\<close> to entry \<open>0\<close>. Into a zero vector that gives \<open>2^53 + 2\<close>; the sum
  of two such results is \<open>2^54 + 4\<close>, a double. Into the vector pre-loaded with the
  first result, \<open>(2^53 + 2) + 2^53 = 2^54 + 2\<close> lies half way between the doubles \<open>2^54\<close>
  and \<open>2^54 + 4\<close> and is rounded to \<open>2^54\<close>, and so is \<open>2^54 + 2\<close> again: the result is
  \<open>2^54\<close>.
\<close>

theorem assembly_additive_counterexample:
  "assemble_vector_form_with fadd [0] ex_L_big = Inr [9007199254740994] \<and>
   assemble_vector_form_with fadd [9007199254740994] ex_L_big = Inr [18014398509481984] \<and>
   map2 fadd [9007199254740994] [9007199254740994] = [18014398509481988] \<and>
   map2 (+) [9007199254740994] [9007199254740994 :: real] = [18014398509481988]"
  unfolding assemble_vector_form_with_ex_L_big
  by (simp add: ex_mesh3_def ex_P_def ex_L_big_def fadd_values)

lemma assemble_ex_L_big:
  "assemble_vector_form_with fadd [0] ex_L_big = Inr [9007199254740994]"
  unfolding assemble_vector_form_with_ex_L_big
  by (simp add: ex_mesh3_def ex_P_def ex_L_big_def fadd_values)

lemma vector_contributions_ex_L_big:
  "vector_contributions ex_L_big ex_P (mesh_cells ex_mesh3) 0 = [9007199254740992, 2]"
  by (simp add: vector_contributions_def ex_mesh3_def ex_P_def ex_L_big_def)

lemma assemble_vector_form_with_ex_L:
  "assemble_vector_form_with fadd (replicate 2 0) ex_L = Inr [1, 2]"
  by (simp add: assemble_vector_form_with_def Form_mesh_ex_L)
     (simp add: ex_defs function_space_def Form_function_space_def deref_def numeral_2_eq_2
        fadd_small)

lemma vector_contributions_ex_L:
  "vector_contributions ex_L ex_V (mesh_cells ex_mesh) d =
     (if d = 0 then [1] else if d = 1 then [2] else [])"
  by (auto simp add: vector_contributions_def ex_defs)

lemma assemble_matrix_form_with_ex_a:
  "\<exists>A1. assemble_matrix_form_with fadd None (zero_Mat\<lparr>mat_values := (\<lambda>p q. 0)\<rparr>) ex_a
           [Some ex_bc] = Inr A1 \<and>
     mat_values A1 0 0 = 0 \<and> mat_values A1 0 1 = 0 \<and> mat_values A1 1 0 = 0 \<and>
     mat_values A1 1 1 = 4"
  by (simp add: assemble_matrix_form_with_def Form_mesh_ex_a)
     (simp add: ex_defs Form_function_space_def deref_def contains_def merge_bc_def
        get_boundary_values_def zero_Mat_def add_local_view_with_def view_indices_def
        add_local_with_def add_value_with_def zero_rows_def zero_cols_def cell_tensor_def
        fadd_def round64_small)

lemma collect_axes_ex_a:
  "collect_axes 1 ex_V ex_V [Some ex_bc] ([], []) = Inr ([(0, 5)], [(0, 5)])"
  by (simp add: ex_defs contains_def merge_bc_def get_boundary_values_def)

lemma matrix_contributions_ex_a:
  "matrix_contributions None ex_a ex_V ex_V [(0, 5)] [(0, 5)] (mesh_cells ex_mesh) p q =
     (if p = 0 \<and> q = 0 then [0] else if p = 0 \<and> q = 1 then [0]
      else if p = 1 \<and> q = 0 then [0] else if p = 1 \<and> q = 1 then [4] else [])"
  by (auto simp add: matrix_contributions_def through_def ex_defs Let_def
      zero_rows_def zero_cols_def cell_tensor_def)

theorem assembly_accumulates_witness:
  "assemble_vector_form_with fadd [0] ex_L_big = Inr [9007199254740994] \<and>
   vector_contributions ex_L_big ex_P (mesh_cells ex_mesh3) 0 = [9007199254740992, 2] \<and>
   foldl fadd 0 [9007199254740992, 2] = 9007199254740994 \<and>
   assemble_vector_form_with fadd (replicate 2 0) ex_L = Inr [1, 2] \<and>
   assemble_vector_form_with fadd [1, 2] ex_L = Inr [2, 4] \<and>
   (\<exists>A1. assemble_matrix_form_with fadd None (zero_Mat\<lparr>mat_values := (\<lambda>p q. 0)\<rparr>) ex_a
            [Some ex_bc] = Inr A1 \<and>
      mat_values A1 1 1 = 4 \<and>
      foldl fadd 0 (matrix_contributions None ex_a ex_V ex_V [(0, 5)] [(0, 5)]
                      (mesh_cells ex_mesh) 1 1) = 4 \<and>
      (\<exists>A2. assemble_matrix_form_with fadd None A1 ex_a [Some ex_bc] = Inr A2 \<and>
         mat_values A2 1 1 = 8))"
proof -
  let ?Z = "zero_Mat\<lparr>mat_values := (\<lambda>p q. 0)\<rparr>"
  let ?cs = "matrix_contributions None ex_a ex_V ex_V [(0, 5)] [(0, 5)] (mesh_cells ex_mesh)"
  obtain A1 where h: "assemble_matrix_form_with fadd None ?Z ex_a [Some ex_bc] = Inr A1"
    and v: "mat_values A1 1 1 = 4"
    using assemble_matrix_form_with_ex_a by blast
  have f0: "function_space ex_a 0 = Inr ex_V" and f1: "function_space ex_a 1 = Inr ex_V"
    by (simp_all add: ex_a_def function_space_ex_form)
  have fL: "function_space ex_L 0 = Inr ex_V"
    by (simp add: ex_L_def function_space_ex_form)
  have ms: "mesh_mpi_size ex_mesh = 1" by (simp add: ex_mesh_def)
  have bv: "collect_axes (mesh_mpi_size ex_mesh) ex_V ex_V [Some ex_bc] ([], []) =
      Inr ([(0, 5)], [(0, 5)])"
    unfolding ms by (rule collect_axes_ex_a)
  note t = assembly_accumulates [of fadd "[0]" ex_L_big "[9007199254740994]" None ?Z ex_a
      "[Some ex_bc]" A1 0 "[]" ex_mesh3 ex_P A1 ex_mesh ex_V ex_V "([(0, 5)], [(0, 5)])"]
  note u = assembly_accumulates [of fadd "[]" ex_L "[]" None zero_Mat ex_a
      "[Some ex_bc]" zero_Mat 2 "[1, 2]" ex_mesh ex_V A1 ex_mesh ex_V ex_V
      "([(0, 5)], [(0, 5)])"]
  from t assemble_ex_L_big Form_mesh_ex_L_big function_space_ex_L_big
  have vec: "foldl fadd 0 (vector_contributions ex_L_big ex_P (mesh_cells ex_mesh3) 0) =
      9007199254740994"
    by auto
  from t h Form_mesh_ex_a f0 f1 bv have
    e: "\<forall>p q. mat_values A1 p q = foldl fadd (mat_values ?Z p q) (?cs p q)"
    by auto
  from e v have mat: "foldl fadd 0 (?cs 1 1) = 4" by simp
  have exv: "\<forall>d < 2. exact_from fadd 0 (vector_contributions ex_L ex_V (mesh_cells ex_mesh) d) \<and>
      exact_from fadd ([1, 2] ! d) (vector_contributions ex_L ex_V (mesh_cells ex_mesh) d)"
    by (simp add: vector_contributions_ex_L fadd_def round64_small less_Suc_eq numeral_2_eq_2)
  have vec2: "assemble_vector_form_with fadd [1, 2] ex_L = Inr [2, 4]"
    using u assemble_vector_form_with_ex_L Form_mesh_ex_L fL exv by simp
  have A1v: "mat_values A1 p q = (if p = 1 \<and> q = 1 then 4 else 0)" for p q
    using e by (simp add: matrix_contributions_ex_a fadd_def round64_small)
  have exm: "\<forall>p q. exact_from fadd 0 (?cs p q) \<and> exact_from fadd (mat_values A1 p q) (?cs p q)"
    by (simp add: A1v matrix_contributions_ex_a fadd_def round64_small)
  have mat2: "assemble_matrix_form_with fadd None A1 ex_a [Some ex_bc] =
        Inr (A1\<lparr>mat_values := (\<lambda>p q. mat_values A1 p q + mat_values A1 p q)\<rparr>)"
    using u h Form_mesh_ex_a f0 f1 bv exm by simp
  show ?thesis
    using assemble_ex_L_big vector_contributions_ex_L_big vec h v mat
      assemble_vector_form_with_ex_L vec2 mat2
    by auto
qed

section \<open>Null blocks\<close>

lemma nest_sub_put:
  "nest_sub (nest_put subs i j M) i' j' =
     (if i' = i \<and> j' = j \<and> i < length subs \<and> j < length (subs ! i) then Some M
      else nest_sub subs i' j')"
  by (cases "i < length subs"; cases "i' = i"; cases "j' = j")
     (auto simp: nest_sub_def nest_put_def nth_list_update)

lemma nest_cols_frame:
  "nest_cols bcs i j fs subs = Inr subs' \<Longrightarrow>
     (i' \<noteq> i \<or> j' < j \<or> j + length fs \<le> j' \<or> fs ! (j' - j) = None) \<Longrightarrow>
     nest_sub subs' i' j' = nest_sub subs i' j'"
proof (induction bcs i j fs subs rule: nest_cols.induct)
  case (1 bcs i j subs)
  then show ?case by simp
next
  case (2 bcs i j fs subs)
  from "2.prems" have "nest_cols bcs i (Suc j) fs subs = Inr subs'" by simp
  moreover have "i' \<noteq> i \<or> j' < Suc j \<or> Suc j + length fs \<le> j' \<or> fs ! (j' - Suc j) = None"
    using "2.prems"(2) by (cases "j' = j") (auto simp: nth_Cons' Suc_diff_le split: if_splits)
  ultimately show ?case using "2.IH" by blast
next
  case (3 bcs i j a fs subs)
  from "3.prems"(1) obtain M M' where
    M: "nest_sub subs i j = Some M" and
    M': "assemble_matrix_form None M a bcs = Inr M'" and
    rest: "nest_cols bcs i (Suc j) fs (nest_put subs i j M') = Inr subs'"
    by (auto split: option.splits sum.splits)
  have ne: "\<not> (i' = i \<and> j' = j)"
    using "3.prems"(2) by auto
  have cond: "i' \<noteq> i \<or> j' < Suc j \<or> Suc j + length fs \<le> j' \<or> fs ! (j' - Suc j) = None"
    using "3.prems"(2) ne by (auto simp: nth_Cons' Suc_diff_le split: if_splits)
  have "nest_sub subs' i' j' = nest_sub (nest_put subs i j M') i' j'"
    using "3.IH" [OF M M' rest cond] .
  then show ?case using ne by (auto simp: nest_sub_put)
qed

lemma nest_rows_frame:
  "nest_rows bcs i rows subs = Inr subs' \<Longrightarrow>
     (i' < i \<or> i + length rows \<le> i' \<or> length (rows ! (i' - i)) \<le> j' \<or>
      rows ! (i' - i) ! j' = None) \<Longrightarrow>
     nest_sub subs' i' j' = nest_sub subs i' j'"
proof (induction bcs i rows subs rule: nest_rows.induct)
  case (1 bcs i subs)
  then show ?case by simp
next
  case (2 bcs i row rows subs)
  from "2.prems"(1) obtain subs1 where
    c: "nest_cols bcs i 0 row subs = Inr subs1" and
    r: "nest_rows bcs (Suc i) rows subs1 = Inr subs'"
    by (auto split: sum.splits)
  have c1: "i' \<noteq> i \<or> j' < 0 \<or> 0 + length row \<le> j' \<or> row ! (j' - 0) = None"
    using "2.prems"(2) by (cases "i' = i") auto
  have r1: "i' < Suc i \<or> Suc i + length rows \<le> i' \<or> length (rows ! (i' - Suc i)) \<le> j' \<or>
      rows ! (i' - Suc i) ! j' = None"
    using "2.prems"(2) by (cases "i' = i") (auto simp: nth_Cons' Suc_diff_le split: if_splits)
  have "nest_sub subs' i' j' = nest_sub subs1 i' j'"
    using "2.IH" [OF c r r1] .
  also have "\<dots> = nest_sub subs i' j'"
    using nest_cols_frame [OF c c1] .
  finally show ?case .
qed

lemma monolithic_cols_null:
  "None \<in> set fs \<Longrightarrow> \<exists>e. monolithic_cols bcs r c fs A = Inl e"
proof (induction bcs r c fs A rule: monolithic_cols.induct)
  case (1 bcs r c A)
  then show ?case by simp
next
  case (2 bcs r c fs A)
  then show ?case by simp
next
  case (3 bcs r c a fs A)
  then show ?case
    by (auto simp: Let_def split: sum.splits)
qed

lemma monolithic_rows_null:
  "\<exists>row \<in> set rows. None \<in> set row \<Longrightarrow> \<exists>e. monolithic_rows bcs r rows A = Inl e"
proof (induction bcs r rows A rule: monolithic_rows.induct)
  case (1 bcs r A)
  then show ?case by simp
next
  case (2 bcs r row rows A)
  show ?case
  proof (cases "None \<in> set row")
    case True
    from monolithic_cols_null [OF this, of bcs r 0 A] show ?thesis
      by auto
  next
    case False
    with "2.prems" have "\<exists>row \<in> set rows. None \<in> set row" by simp
    with "2.IH" show ?thesis
      by (auto split: sum.splits list.splits)
  qed
qed

text \<open>
  Claim C7. In the nested path every sub-matrix at a position whose form is null is
  after the assembly what it was before: nothing is inserted into it. In the monolithic
  path (a target that is one physical matrix, for a collection of more than one block) a
  null block on the diagonal makes the assembly end with an error, never with a matrix;
  when the null block is the first block the loop reaches, the error is the one the
  source throws for a null block.
\<close>

theorem null_blocks:
  "(allocate_matrix asm T block_type = Inr (MatNest subs applied) \<and>
    assemble_matrix nproc asm T block_type = Inr R \<longrightarrow>
      (\<exists>subs'. R = MatNest subs' (applied @ [FINAL]) \<and>
         (\<forall>i j. i < length (asm_a asm) \<and> j < length (asm_a asm ! i) \<and> asm_a asm ! i ! j = None
            \<longrightarrow> nest_sub subs' i j = nest_sub subs i j))) \<and>
   (allocate_matrix asm T block_type = Inr (MatPlain M) \<and>
    asm_a asm = row0 # rows \<and> (rows \<noteq> [] \<or> length row0 > 1) \<and>
    (\<exists>i < length (asm_a asm). i < length (asm_a asm ! i) \<and> asm_a asm ! i ! i = None) \<longrightarrow>
      (\<exists>e. assemble_matrix nproc asm T block_type = Inl e) \<and>
      ((\<exists>r. row0 = None # r) \<longrightarrow> assemble_matrix nproc asm T block_type = Inl NullBlock))"
proof (intro conjI impI)
  assume h: "allocate_matrix asm T block_type = Inr (MatNest subs applied) \<and>
    assemble_matrix nproc asm T block_type = Inr R"
  then obtain subs' where
    n: "nest_rows (asm_bcs asm) 0 (asm_a asm) subs = Inr subs'" and
    R: "R = MatNest subs' (applied @ [FINAL])"
    by (auto simp: assemble_matrix_def PETScMatrix_apply_def split: list.splits sum.splits)
  have "\<forall>i j. i < length (asm_a asm) \<and> j < length (asm_a asm ! i) \<and> asm_a asm ! i ! j = None
            \<longrightarrow> nest_sub subs' i j = nest_sub subs i j"
    using nest_rows_frame [OF n] by simp
  with R show "\<exists>subs'. R = MatNest subs' (applied @ [FINAL]) \<and>
         (\<forall>i j. i < length (asm_a asm) \<and> j < length (asm_a asm ! i) \<and> asm_a asm ! i ! j = None
            \<longrightarrow> nest_sub subs' i j = nest_sub subs i j)"
    by blast
next
  assume h: "allocate_matrix asm T block_type = Inr (MatPlain M) \<and>
    asm_a asm = row0 # rows \<and> (rows \<noteq> [] \<or> length row0 > 1) \<and>
    (\<exists>i < length (asm_a asm). i < length (asm_a asm ! i) \<and> asm_a asm ! i ! i = None)"
  then have "\<exists>row \<in> set (asm_a asm). None \<in> set row"
    by (metis nth_mem)
  from monolithic_rows_null [OF this, of "asm_bcs asm" 0 M]
  obtain e where "monolithic_rows (asm_bcs asm) 0 (asm_a asm) M = Inl e" by blast
  moreover have bm: "length (asm_a asm) > 1 \<or> length row0 > 1"
    using h by (cases rows) auto
  ultimately show "\<exists>e. assemble_matrix nproc asm T block_type = Inl e"
    using h by (auto simp: assemble_matrix_def)
  show "assemble_matrix nproc asm T block_type = Inl NullBlock" if z: "\<exists>r. row0 = None # r"
  proof -
    from z obtain r where "row0 = None # r" by blast
    then have "monolithic_rows (asm_bcs asm) 0 (asm_a asm) M = Inl NullBlock"
      using h by simp
    then show ?thesis
      using h bm by (auto simp: assemble_matrix_def)
  qed
qed

lemma allocate_ex_asm_null:
  "allocate_matrix ex_asm_null (MatNest [[Some zero_Mat, Some zero_Mat]] []) nested =
     Inr (MatNest [[Some zero_Mat, Some zero_Mat]] [])"
  "allocate_matrix ex_asm_null MatEmpty monolithic = Inr (MatPlain zero_Mat)"
  by (simp_all add: allocate_matrix_def ex_asm_null_def init_monolithic_matrix_def)

lemma assemble_matrix_ex_asm_null:
  "\<exists>R. assemble_matrix 1 ex_asm_null (MatNest [[Some zero_Mat, Some zero_Mat]] []) nested = Inr R"
  by (simp add: assemble_matrix_def allocate_matrix_def ex_asm_null_def nest_sub_def nest_put_def
      assemble_matrix_form_def ex_defs eval_defs Form_function_space_def Form_mesh_def
      primary_meshes_def pushed_def marker_meshes_def mesh_ptr_eq_def)

theorem null_blocks_witness:
  "allocate_matrix ex_asm_null (MatNest [[Some zero_Mat, Some zero_Mat]] []) nested =
     Inr (MatNest [[Some zero_Mat, Some zero_Mat]] []) \<and>
   asm_a ex_asm_null ! 0 ! 0 = None \<and>
   (\<exists>subs'. assemble_matrix 1 ex_asm_null (MatNest [[Some zero_Mat, Some zero_Mat]] []) nested =
        Inr (MatNest subs' [FINAL]) \<and>
      nest_sub subs' 0 0 = Some zero_Mat) \<and>
   allocate_matrix ex_asm_null MatEmpty monolithic = Inr (MatPlain zero_Mat) \<and>
   asm_a ex_asm_null = [None, Some ex_a] # [] \<and>
   assemble_matrix 1 ex_asm_null MatEmpty monolithic = Inl NullBlock"
proof -
  obtain R where run:
    "assemble_matrix 1 ex_asm_null (MatNest [[Some zero_Mat, Some zero_Mat]] []) nested = Inr R"
    using assemble_matrix_ex_asm_null by blast
  have a: "asm_a ex_asm_null = [None, Some ex_a] # []" by (simp add: ex_asm_null_def)
  have z: "asm_a ex_asm_null ! 0 ! 0 = None" by (simp add: a)
  note t1 = null_blocks [of ex_asm_null "MatNest [[Some zero_Mat, Some zero_Mat]] []" nested
      "[[Some zero_Mat, Some zero_Mat]]" "[]" 1 R zero_Mat "[None, Some ex_a]" "[]"]
  note t2 = null_blocks [of ex_asm_null MatEmpty monolithic "[]" "[]" 1 R zero_Mat
      "[None, Some ex_a]" "[]"]
  from t1 run allocate_ex_asm_null(1) obtain subs' where
    R: "R = MatNest subs' [FINAL]" and
    fr: "\<forall>i j. i < length (asm_a ex_asm_null) \<and> j < length (asm_a ex_asm_null ! i) \<and>
            asm_a ex_asm_null ! i ! j = None
            \<longrightarrow> nest_sub subs' i j = nest_sub [[Some zero_Mat, Some zero_Mat]] i j"
    by auto
  have "nest_sub subs' 0 0 = nest_sub [[Some zero_Mat, Some zero_Mat]] 0 0"
    using fr a by simp
  then have s: "nest_sub subs' 0 0 = Some zero_Mat"
    by (simp add: nest_sub_def)
  have "\<exists>i < length (asm_a ex_asm_null). i < length (asm_a ex_asm_null ! i) \<and>
          asm_a ex_asm_null ! i ! i = None"
    using a by simp
  with t2 allocate_ex_asm_null(2) a
  have m: "assemble_matrix 1 ex_asm_null MatEmpty monolithic = Inl NullBlock"
    by simp
  show ?thesis
    using allocate_ex_asm_null a z run R s m by simp
qed

section \<open>Finalization\<close>

lemma nest_cols_applied:
  "nest_cols bcs i j fs subs = Inr subs' \<Longrightarrow>
     map_option mat_applied (nest_sub subs' i' j') = map_option mat_applied (nest_sub subs i' j')"
proof (induction bcs i j fs subs rule: nest_cols.induct)
  case (1 bcs i j subs)
  then show ?case by simp
next
  case (2 bcs i j fs subs)
  then show ?case by simp
next
  case (3 bcs i j a fs subs)
  from "3.prems"(1) obtain M M' where
    M: "nest_sub subs i j = Some M" and
    M': "assemble_matrix_form None M a bcs = Inr M'" and
    rest: "nest_cols bcs i (Suc j) fs (nest_put subs i j M') = Inr subs'"
    by (auto split: option.splits sum.splits)
  have "map_option mat_applied (nest_sub subs' i' j') =
        map_option mat_applied (nest_sub (nest_put subs i j M') i' j')"
    using "3.IH" [OF M M' rest] .
  also have "\<dots> = map_option mat_applied (nest_sub subs i' j')"
    using M assemble_matrix_form_applied [OF M'] by (auto simp: nest_sub_put)
  finally show ?case .
qed

lemma nest_rows_applied:
  "nest_rows bcs i rows subs = Inr subs' \<Longrightarrow>
     map_option mat_applied (nest_sub subs' i' j') = map_option mat_applied (nest_sub subs i' j')"
proof (induction bcs i rows subs rule: nest_rows.induct)
  case (1 bcs i subs)
  then show ?case by simp
next
  case (2 bcs i row rows subs)
  from "2.prems"(1) obtain subs1 where
    c: "nest_cols bcs i 0 row subs = Inr subs1" and
    r: "nest_rows bcs (Suc i) rows subs1 = Inr subs'"
    by (auto split: sum.splits)
  show ?case
    using "2.IH" [OF c r] nest_cols_applied [OF c, of i' j'] by simp
qed

lemma monolithic_cols_applied:
  "monolithic_cols bcs r c fs A = Inr A' \<Longrightarrow> mat_applied A' = mat_applied A"
proof (induction bcs r c fs A rule: monolithic_cols.induct)
  case (1 bcs r c A)
  then show ?case by simp
next
  case (2 bcs r c fs A)
  then show ?case by simp
next
  case (3 bcs r c a fs A)
  from "3.prems" obtain V0 V1 where
    V0: "function_space a 0 = Inr V0" and V1: "function_space a 1 = Inr V1"
    by (cases "function_space a 0"; cases "function_space a 1") auto
  let ?v = "Some (ISCreateBlock (index_map_block_size V0) [r..<r + index_map_size_all V0],
                  ISCreateBlock (index_map_block_size V1) [c..<c + index_map_size_all V1])"
  from "3.prems" V0 V1 obtain A1 where
    A1: "assemble_matrix_form ?v A a bcs = Inr A1" and
    rest: "monolithic_cols bcs r (c + index_map_size_all V1) fs A1 = Inr A'"
    by (cases "assemble_matrix_form ?v A a bcs") (auto simp: Let_def)
  have "mat_applied A' = mat_applied A1"
    using "3.IH" [OF V0 V1 refl refl refl refl refl refl A1 rest] .
  then show ?case
    using assemble_matrix_form_applied [OF A1] by simp
qed

lemma monolithic_rows_applied:
  "monolithic_rows bcs r rows A = Inr A' \<Longrightarrow> mat_applied A' = mat_applied A"
proof (induction bcs r rows A rule: monolithic_rows.induct)
  case (1 bcs r A)
  then show ?case by simp
next
  case (2 bcs r row rows A)
  from "2.prems" obtain A1 where A1: "monolithic_cols bcs r 0 row A = Inr A1"
    by (cases "monolithic_cols bcs r 0 row A") auto
  from "2.prems" A1 obtain ai0 r0 where row: "row = ai0 # r0"
    by (cases row) auto
  from "2.prems" A1 row obtain a where a: "deref ai0 = Inr a"
    by (cases "deref ai0") auto
  from "2.prems" A1 row a obtain V where V: "function_space a 0 = Inr V"
    by (cases "function_space a 0") auto
  from "2.prems" A1 row a V
  have rest: "monolithic_rows bcs (r + index_map_size_all V) rows A1 = Inr A'"
    by simp
  have "mat_applied A' = mat_applied A1"
    using "2.IH" [OF A1 row a V rest] .
  then show ?case
    using monolithic_cols_applied [OF A1] by simp
qed

lemma assemble_single_applied:
  assumes "assemble_single nproc asm A = Inr A'"
  shows "mat_applied A' = mat_applied A"
proof -
  from assms obtain p where p: "block00 (asm_a asm) = Inr p"
    by (cases "block00 (asm_a asm)") (auto simp: assemble_single_def)
  from assms p obtain a00 where a00: "deref p = Inr a00"
    by (cases "deref p") (auto simp: assemble_single_def)
  from assms p a00 obtain A1 where A1: "assemble_matrix_form None A a00 (asm_bcs asm) = Inr A1"
    by (cases "assemble_matrix_form None A a00 (asm_bcs asm)") (auto simp: assemble_single_def)
  from assms p a00 A1 have "mat_applied A' = mat_applied A1"
    by (auto simp: assemble_single_def split: sum.splits if_splits)
  then show ?thesis
    using assemble_matrix_form_applied [OF A1] by simp
qed

text \<open>
  Claim C8, as amended. Counted over one call of the block assembly that returns: in
  the nested layout the parent receives exactly one \<open>apply\<close> call, of type \<open>FINAL\<close>,
  and no sub-matrix receives any \<open>apply\<close> call from the assembler; a target that is one
  physical matrix receives exactly one \<open>apply\<close> call, of type \<open>FINAL\<close>, for a
  collection of a single block (the single layout), and exactly two, both of type
  \<open>FINAL\<close>, for a collection of more than one block (the monolithic layout).
\<close>

theorem finalization:
  "(allocate_matrix asm T block_type = Inr (MatNest subs applied) \<and>
    assemble_matrix nproc asm T block_type = Inr R \<longrightarrow>
      (\<exists>subs'. R = MatNest subs' (applied @ [FINAL]) \<and>
         (\<forall>i j. map_option mat_applied (nest_sub subs' i j) =
                 map_option mat_applied (nest_sub subs i j)))) \<and>
   (allocate_matrix asm T block_type = Inr (MatPlain M) \<and>
    assemble_matrix nproc asm T block_type = Inr R \<longrightarrow>
      (\<exists>M'. R = MatPlain M' \<and>
         (asm_a asm = [[a00]] \<longrightarrow> mat_applied M' = mat_applied M @ [FINAL]) \<and>
         (length (asm_a asm) > 1 \<or> length (hd (asm_a asm)) > 1 \<longrightarrow>
            mat_applied M' = mat_applied M @ [FINAL, FINAL]) \<and>
         (\<exists>k. mat_applied M' = mat_applied M @ replicate (Suc k) FINAL)))"
proof (intro conjI impI)
  assume h: "allocate_matrix asm T block_type = Inr (MatNest subs applied) \<and>
    assemble_matrix nproc asm T block_type = Inr R"
  then obtain subs' where
    n: "nest_rows (asm_bcs asm) 0 (asm_a asm) subs = Inr subs'" and
    R: "R = MatNest subs' (applied @ [FINAL])"
    by (auto simp: assemble_matrix_def PETScMatrix_apply_def split: list.splits sum.splits)
  show "\<exists>subs'. R = MatNest subs' (applied @ [FINAL]) \<and>
         (\<forall>i j. map_option mat_applied (nest_sub subs' i j) =
                 map_option mat_applied (nest_sub subs i j))"
    using R nest_rows_applied [OF n] by blast
next
  assume h: "allocate_matrix asm T block_type = Inr (MatPlain M) \<and>
    assemble_matrix nproc asm T block_type = Inr R"
  then obtain row0 rows where a: "asm_a asm = row0 # rows"
    by (cases "asm_a asm") (auto simp: assemble_matrix_def)
  then have hd: "hd (asm_a asm) = row0" by simp
  show "\<exists>M'. R = MatPlain M' \<and>
         (asm_a asm = [[a00]] \<longrightarrow> mat_applied M' = mat_applied M @ [FINAL]) \<and>
         (length (asm_a asm) > 1 \<or> length (hd (asm_a asm)) > 1 \<longrightarrow>
            mat_applied M' = mat_applied M @ [FINAL, FINAL]) \<and>
         (\<exists>k. mat_applied M' = mat_applied M @ replicate (Suc k) FINAL)"
  proof (cases "length (asm_a asm) > 1 \<or> length row0 > 1")
    case True
    with h a obtain M1 where
      m: "monolithic_rows (asm_bcs asm) 0 (asm_a asm) M = Inr M1" and
      R: "R = MatPlain (Mat_apply FINAL (Mat_apply FINAL M1))"
      by (auto simp: assemble_matrix_def PETScMatrix_apply_def split: sum.splits)
    have ap: "mat_applied (Mat_apply FINAL (Mat_apply FINAL M1)) =
        mat_applied M @ replicate (Suc (Suc 0)) FINAL"
      using monolithic_rows_applied [OF m] by (simp add: Mat_apply_def)
    have ap2: "mat_applied (Mat_apply FINAL (Mat_apply FINAL M1)) = mat_applied M @ [FINAL, FINAL]"
      using ap by simp
    have "asm_a asm \<noteq> [[a00]]" using True a by auto
    with R ap ap2 show ?thesis by blast
  next
    case False
    with h a obtain M1 where
      m: "assemble_single nproc asm M = Inr M1" and
      R: "R = MatPlain (Mat_apply FINAL M1)"
      by (auto simp: assemble_matrix_def PETScMatrix_apply_def split: sum.splits)
    have ap: "mat_applied (Mat_apply FINAL M1) = mat_applied M @ [FINAL]"
      using assemble_single_applied [OF m] by (simp add: Mat_apply_def)
    then have "mat_applied (Mat_apply FINAL M1) = mat_applied M @ replicate (Suc 0) FINAL"
      by simp
    moreover have "\<not> (length (asm_a asm) > 1 \<or> length (hd (asm_a asm)) > 1)"
      using False hd by simp
    ultimately show ?thesis using R ap by blast
  qed
qed

section \<open>The block assembly at concrete inputs\<close>

lemmas run_defs = assemble_matrix_def allocate_matrix_def init_nest_matrix_def init_matrix_def
  init_monolithic_matrix_def forms_of_def block00_def nest_sub_def nest_put_def
  assemble_single_def assemble_matrix_form_def place_ones_def set_local_def contains_def
  merge_bc_def get_boundary_values_def Form_function_space_def function_space_def Form_mesh_def
  primary_meshes_def pushed_def marker_meshes_def mesh_ptr_eq_def nth_append Let_def

lemma allocate_ex_asm1:
  "allocate_matrix ex_asm1 MatEmpty nested = Inr (MatNest [[Some zero_Mat]] [])"
  "allocate_matrix ex_asm1 MatEmpty monolithic = Inr (MatPlain zero_Mat)"
  by (simp_all add: allocate_matrix_def ex_asm1_def init_nest_matrix_def init_matrix_def
      forms_of_def block00_def deref_def)

lemma assemble_matrix_ex_asm1_nested:
  "\<exists>M. assemble_matrix 1 ex_asm1 MatEmpty nested = Inr (MatNest [[Some M]] [FINAL]) \<and>
     mat_applied M = [] \<and>
     mat_values M 0 0 = 0 \<and> mat_values M 0 1 = 0 \<and> mat_values M 1 0 = 0 \<and> mat_values M 1 1 = 4"
  by (simp add: run_defs ex_asm1_def ex_defs eval_defs)

lemma assemble_matrix_ex_asm1_single:
  "\<exists>M. assemble_matrix 1 ex_asm1 MatEmpty monolithic = Inr (MatPlain M) \<and>
     mat_applied M = [FINAL] \<and>
     mat_values M 0 0 = 1 \<and> mat_values M 0 1 = 0 \<and> mat_values M 1 0 = 0 \<and> mat_values M 1 1 = 4"
  by (simp add: run_defs ex_asm1_def ex_defs eval_defs)

lemma assemble_matrix_ex_asm_applied:
  "\<exists>M. assemble_matrix 1 ex_asm MatEmpty monolithic = Inr (MatPlain M) \<and>
     mat_applied M = [FINAL, FINAL]"
  by (simp add: run_defs ex_asm_def ex_blocks_def ex_defs eval_defs)

text \<open>
  Claim C1 at the single block \<open>ex_a\<close>, whose two function spaces are the same space
  \<open>ex_V\<close>, with dof \<open>0\<close> constrained. In the nested path row \<open>0\<close> and column \<open>0\<close>
  of the sub-matrix are zero and so is the diagonal entry: the core zeroes the rows and
  columns, and nothing inserts the one. In the single path the diagonal entry is \<open>1\<close>.
\<close>

theorem nested_path_no_unit_diagonal:
  "(\<exists>M. assemble_matrix 1 ex_asm1 MatEmpty nested = Inr (MatNest [[Some M]] [FINAL]) \<and>
      mat_values M 0 0 = 0 \<and> mat_values M 0 1 = 0 \<and> mat_values M 1 0 = 0 \<and>
      mat_values M 1 1 = 4) \<and>
   (\<exists>M. assemble_matrix 1 ex_asm1 MatEmpty monolithic = Inr (MatPlain M) \<and>
      mat_values M 0 0 = 1 \<and> mat_values M 0 1 = 0 \<and> mat_values M 1 0 = 0 \<and>
      mat_values M 1 1 = 4)"
  using assemble_matrix_ex_asm1_nested assemble_matrix_ex_asm1_single by blast

text \<open>
  Claim C8 as stated fails. In the nested layout the sub-matrix of block \<open>(0,0)\<close> is
  assembled and never receives \<open>apply(FINAL)\<close> from the assembler; in the monolithic
  layout the one physical matrix receives it twice.
\<close>

theorem finalization_counterexample:
  "(\<exists>M. assemble_matrix 1 ex_asm1 MatEmpty nested = Inr (MatNest [[Some M]] [FINAL]) \<and>
      mat_values M 1 1 = 4 \<and> mat_applied M = []) \<and>
   (\<exists>M. assemble_matrix 1 ex_asm MatEmpty monolithic = Inr (MatPlain M) \<and>
      mat_applied M = [FINAL, FINAL])"
  using assemble_matrix_ex_asm1_nested assemble_matrix_ex_asm_applied by blast

theorem finalization_witness:
  "allocate_matrix ex_asm1 MatEmpty nested = Inr (MatNest [[Some zero_Mat]] []) \<and>
   (\<exists>subs'. assemble_matrix 1 ex_asm1 MatEmpty nested = Inr (MatNest subs' [FINAL]) \<and>
      map_option mat_applied (nest_sub subs' 0 0) = Some []) \<and>
   allocate_matrix ex_asm1 MatEmpty monolithic = Inr (MatPlain zero_Mat) \<and>
   asm_a ex_asm1 = [[Some ex_a]] \<and>
   (\<exists>M'. assemble_matrix 1 ex_asm1 MatEmpty monolithic = Inr (MatPlain M') \<and>
      mat_applied M' = [FINAL]) \<and>
   allocate_matrix ex_asm MatEmpty monolithic = Inr (MatPlain zero_Mat) \<and>
   length (asm_a ex_asm) = 2 \<and>
   (\<exists>M'. assemble_matrix 1 ex_asm MatEmpty monolithic = Inr (MatPlain M') \<and>
      mat_applied M' = [FINAL, FINAL])"
proof -
  obtain R1 where r1: "assemble_matrix 1 ex_asm1 MatEmpty nested = Inr R1"
    using assemble_matrix_ex_asm1_nested by blast
  obtain R2 where r2: "assemble_matrix 1 ex_asm1 MatEmpty monolithic = Inr R2"
    using assemble_matrix_ex_asm1_single by blast
  have a: "asm_a ex_asm1 = [[Some ex_a]]" by (simp add: ex_asm1_def)
  from finalization [of ex_asm1 MatEmpty nested "[[Some zero_Mat]]" "[]" 1 R1 zero_Mat "Some ex_a"]
    r1 allocate_ex_asm1(1)
  obtain subs' where R1: "R1 = MatNest subs' [FINAL]"
    and s: "\<forall>i j. map_option mat_applied (nest_sub subs' i j) =
                 map_option mat_applied (nest_sub [[Some zero_Mat]] i j)"
    by auto
  from s have "map_option mat_applied (nest_sub subs' 0 0) =
                 map_option mat_applied (nest_sub [[Some zero_Mat]] 0 0)"
    by blast
  then have s0: "map_option mat_applied (nest_sub subs' 0 0) = Some []"
    by (simp add: nest_sub_def zero_Mat_def)
  from finalization [of ex_asm1 MatEmpty monolithic "[]" "[]" 1 R2 zero_Mat "Some ex_a"]
    r2 allocate_ex_asm1(2) a
  obtain M' where R2: "R2 = MatPlain M'" and "mat_applied M' = mat_applied zero_Mat @ [FINAL]"
    by auto
  then have m: "mat_applied M' = [FINAL]" by (simp add: zero_Mat_def)
  obtain R3 where r3: "assemble_matrix 1 ex_asm MatEmpty monolithic = Inr R3"
    using assemble_matrix_ex_asm by blast
  have l: "length (asm_a ex_asm) = 2" by (simp add: ex_asm_def ex_blocks_def)
  from finalization [of ex_asm MatEmpty monolithic "[]" "[]" 1 R3 zero_Mat None]
    r3 allocate_ex_asm l
  obtain M3 where R3: "R3 = MatPlain M3"
    and "mat_applied M3 = mat_applied zero_Mat @ [FINAL, FINAL]"
    by auto
  then have m3: "mat_applied M3 = [FINAL, FINAL]" by (simp add: zero_Mat_def)
  show ?thesis
    using allocate_ex_asm1 a r1 R1 s0 r2 R2 m allocate_ex_asm l r3 R3 m3 by simp
qed

text \<open>
  Claim C6, as amended. The hint \<open>single\<close> is not checked against the number of blocks.
  For an empty target and a collection whose block \<open>(0,0)\<close> is not null (and whose rows
  are not longer than the first), whatever the number of blocks, the matrix is allocated
  by \<open>init_matrix\<close> from block \<open>(0,0)\<close> alone, without an error, and the call goes on
  as it does for that matrix handed in already allocated; an empty vector is allocated by
  \<open>init_vector\<close> from the first linear form. A target that is not empty is used as it
  is, whatever the hint.
\<close>

theorem single_hint_not_checked:
  "(asm_a asm = (Some a00 # r) # rows \<and> list_all (\<lambda>row. length row \<le> Suc (length r)) rows \<longrightarrow>
      allocate_matrix asm MatEmpty single = Inr (init_matrix a00) \<and>
      assemble_matrix nproc asm MatEmpty single =
        assemble_matrix nproc asm (init_matrix a00) block_type) \<and>
   (asm_l asm = Some L0 # ls \<and> length (asm_l asm) \<le> length (asm_a asm) \<longrightarrow>
      allocate_vector asm VecEmpty single = Inr (init_vector L0)) \<and>
   (asm_a asm \<noteq> [] \<and> T \<noteq> MatEmpty \<longrightarrow> allocate_matrix asm T block_type = Inr T) \<and>
   (asm_l asm \<noteq> [] \<and> b \<noteq> VecEmpty \<longrightarrow> allocate_vector asm b block_type = Inr b)"
proof (intro conjI impI)
  assume h: "asm_a asm = (Some a00 # r) # rows \<and>
    list_all (\<lambda>row. length row \<le> Suc (length r)) rows"
  then show al: "allocate_matrix asm MatEmpty single = Inr (init_matrix a00)"
    by (simp add: allocate_matrix_def block00_def deref_def)
  have "allocate_matrix asm (init_matrix a00) block_type = Inr (init_matrix a00)"
    using h by (simp add: allocate_matrix_def init_matrix_def)
  with al show "assemble_matrix nproc asm MatEmpty single =
        assemble_matrix nproc asm (init_matrix a00) block_type"
    using h by (simp add: assemble_matrix_def)
next
  assume "asm_l asm = Some L0 # ls \<and> length (asm_l asm) \<le> length (asm_a asm)"
  then show "allocate_vector asm VecEmpty single = Inr (init_vector L0)"
    by (auto simp: allocate_vector_def deref_def Let_def)
next
  assume "asm_a asm \<noteq> [] \<and> T \<noteq> MatEmpty"
  then show "allocate_matrix asm T block_type = Inr T"
    by (cases "asm_a asm"; cases T) (simp_all add: allocate_matrix_def)
next
  assume "asm_l asm \<noteq> [] \<and> b \<noteq> VecEmpty"
  then show "allocate_vector asm b block_type = Inr b"
    by (cases "asm_l asm"; cases b) (simp_all add: allocate_vector_def)
qed

lemma assemble_matrix_ex_asm_single_hint:
  "\<exists>M. assemble_matrix 1 ex_asm MatEmpty single = Inr (MatPlain M)"
  by (simp add: run_defs ex_asm_def ex_blocks_def ex_defs eval_defs)

text \<open>
  Claim C6 as stated fails: for the 2x2 collection \<open>ex_asm\<close> with two linear forms, the
  hint \<open>single\<close> allocates a matrix and a vector without an error, and the assembly of
  the matrix runs to its end.
\<close>

theorem single_hint_counterexample:
  "length (asm_a ex_asm) = 2 \<and> length (asm_l ex_asm) = 2 \<and>
   allocate_matrix ex_asm MatEmpty single = Inr (MatPlain zero_Mat) \<and>
   allocate_vector ex_asm VecEmpty single = Inr (VecPlain zero_Vec) \<and>
   (\<exists>M. assemble_matrix 1 ex_asm MatEmpty single = Inr (MatPlain M))"
  using assemble_matrix_ex_asm_single_hint
  by (simp add: allocate_matrix_def allocate_vector_def ex_asm_def ex_blocks_def block00_def
      deref_def init_matrix_def init_vector_def)

theorem single_hint_not_checked_witness:
  "asm_a ex_asm =
     (Some (ex_form ''P1'' [ex_V, ex_V]) # [Some (ex_form ''P1'' [ex_V, ex_W])]) #
     [[Some (ex_form ''P1'' [ex_W, ex_V]), Some (ex_form ''P1'' [ex_W, ex_W])]] \<and>
   allocate_matrix ex_asm MatEmpty single = Inr (init_matrix (ex_form ''P1'' [ex_V, ex_V])) \<and>
   assemble_matrix 1 ex_asm MatEmpty single =
     assemble_matrix 1 ex_asm (init_matrix (ex_form ''P1'' [ex_V, ex_V])) nested \<and>
   asm_l ex_asm = Some ex_L # [Some (ex_form ''P1'' [ex_W])] \<and>
   allocate_vector ex_asm VecEmpty single = Inr (init_vector ex_L) \<and>
   allocate_matrix ex_asm (MatPlain zero_Mat) nested = Inr (MatPlain zero_Mat) \<and>
   allocate_vector ex_asm (VecPlain zero_Vec) nested = Inr (VecPlain zero_Vec)"
proof -
  have a: "asm_a ex_asm =
     (Some (ex_form ''P1'' [ex_V, ex_V]) # [Some (ex_form ''P1'' [ex_V, ex_W])]) #
     [[Some (ex_form ''P1'' [ex_W, ex_V]), Some (ex_form ''P1'' [ex_W, ex_W])]]"
    by (simp add: ex_asm_def ex_blocks_def)
  have l: "asm_l ex_asm = Some ex_L # [Some (ex_form ''P1'' [ex_W])]"
    by (simp add: ex_asm_def)
  show ?thesis
    using single_hint_not_checked [of ex_asm "ex_form ''P1'' [ex_V, ex_V]"
        "[Some (ex_form ''P1'' [ex_V, ex_W])]"
        "[[Some (ex_form ''P1'' [ex_W, ex_V]), Some (ex_form ''P1'' [ex_W, ex_W])]]"
        1 nested ex_L "[Some (ex_form ''P1'' [ex_W])]" "MatPlain zero_Mat" "VecPlain zero_Vec"]
      a l
    by simp
qed

section \<open>The unit diagonal of the single path\<close>

lemma collect_axes_split:
  "collect_axes n V0 V1 bcs (m0, m1) =
     (case collect_boundary_values n (Inr V0) bcs m0 of
        Inl e \<Rightarrow> Inl e
      | Inr r0 \<Rightarrow>
          (case collect_boundary_values n (Inr V1) bcs m1 of
             Inl e \<Rightarrow> Inl e
           | Inr r1 \<Rightarrow> Inr (r0, r1)))"
proof (induction bcs arbitrary: m0 m1)
  case Nil
  then show ?case by simp
next
  case (Cons b bcs)
  show ?case
  proof (cases b)
    case None
    then show ?thesis by simp
  next
    case (Some bc)
    show ?thesis
    proof (cases "bc_function_space bc")
      case None
      then show ?thesis using Some by simp
    next
      case (Some W)
      then show ?thesis
        using \<open>b = Some bc\<close> Cons.IH by (simp cong: sum.case_cong)
    qed
  qed
qed

lemma zero_rows_fold:
  "n \<le> length dmap \<Longrightarrow>
   fold (\<lambda>i Ae. if map_of bv (dmap ! i) \<noteq> None then Ae(i := (\<lambda>j. 0)) else Ae) [0..<n] Ae i j =
     (if i < n \<and> map_of bv (dmap ! i) \<noteq> None then 0 else (Ae i j :: real))"
  by (induction n) (auto simp: less_Suc_eq)

lemma zero_rows_entry:
  "zero_rows bv dmap Ae i j =
     (if i < length dmap \<and> map_of bv (dmap ! i) \<noteq> None then 0 else Ae i j)"
  unfolding zero_rows_def by (rule zero_rows_fold) simp

lemma zero_cols_fold:
  "n \<le> length dmap \<Longrightarrow>
   fold (\<lambda>j Ae. if map_of bv (dmap ! j) \<noteq> None then (\<lambda>i. (Ae i)(j := 0)) else Ae) [0..<n] Ae i j =
     (if j < n \<and> map_of bv (dmap ! j) \<noteq> None then 0 else (Ae i j :: real))"
  by (induction n) (auto simp: less_Suc_eq)

lemma zero_cols_entry:
  "zero_cols bv dmap Ae i j =
     (if j < length dmap \<and> map_of bv (dmap ! j) \<noteq> None then 0 else Ae i j)"
  unfolding zero_cols_def by (rule zero_cols_fold) simp

lemma add_value_entry:
  "add_value A r c v p q = (if p = r \<and> q = c then A p q + v else A p q)"
  by (simp add: add_value_def)

lemma add_local_inner_frame:
  "\<forall>j \<in> set js. cols ! j = q \<longrightarrow> r = p \<longrightarrow> Ae i j = 0 \<Longrightarrow>
     fold (\<lambda>j A. add_value A r (cols ! j) (Ae i j)) js A p q = A p q"
  by (induction js arbitrary: A) (auto simp: add_value_entry)

lemma add_local_outer_frame:
  "\<forall>i \<in> set is. \<forall>j \<in> set js. rows ! i = p \<and> cols ! j = q \<longrightarrow> Ae i j = 0 \<Longrightarrow>
     fold (\<lambda>i A. fold (\<lambda>j A. add_value A (rows ! i) (cols ! j) (Ae i j)) js A) is A p q = A p q"
proof (induction "is" arbitrary: A)
  case Nil
  then show ?case by simp
next
  case (Cons i "is")
  have "fold (\<lambda>j A. add_value A (rows ! i) (cols ! j) (Ae i j)) js A p q = A p q"
    using Cons.prems by (intro add_local_inner_frame) auto
  then show ?case
    using Cons.IH [of "fold (\<lambda>j A. add_value A (rows ! i) (cols ! j) (Ae i j)) js A"] Cons.prems
    by simp
qed

lemma add_local_frame:
  "\<forall>i < length rows. \<forall>j < length cols. rows ! i = p \<and> cols ! j = q \<longrightarrow> Ae i j = 0 \<Longrightarrow>
     add_local A rows cols Ae p q = A p q"
  unfolding add_local_def by (rule add_local_outer_frame) simp

lemma assemble_cells_constrained:
  assumes "assemble_cells None a V0 V1 bv0 bv1 cs A = Inr A'"
  shows "(map_of bv0 p \<noteq> None \<or> map_of bv1 q \<noteq> None) \<Longrightarrow> A' p q = A p q"
  using assms
proof (induction cs arbitrary: A)
  case Nil
  then show ?case by simp
next
  case (Cons c cs)
  let ?d0 = "cell_dofs V0 (cell_index c)"
  let ?d1 = "cell_dofs V1 (cell_index c)"
  let ?Ae = "zero_cols bv1 ?d1 (zero_rows bv0 ?d0 (cell_tensor a c (length ?d1)))"
  from Cons.prems(2) have rest:
    "assemble_cells None a V0 V1 bv0 bv1 cs (add_local A ?d0 ?d1 ?Ae) = Inr A'"
    by (simp add: Let_def add_local_view_None split: if_splits)
  have "\<forall>i < length ?d0. \<forall>j < length ?d1. ?d0 ! i = p \<and> ?d1 ! j = q \<longrightarrow> ?Ae i j = 0"
    using Cons.prems(1) by (auto simp: zero_cols_entry zero_rows_entry)
  then have "add_local A ?d0 ?d1 ?Ae p q = A p q"
    by (rule add_local_frame)
  then show ?case
    using Cons.IH [OF Cons.prems(1) rest] by simp
qed

lemma place_ones_entry:
  "place_ones bv A p q = (if p = q \<and> p \<in> fst ` set bv then 1 else A p q)"
  unfolding place_ones_def
  by (induction bv arbitrary: A) (auto simp: set_local_def)

text \<open>
  The single path does what the nested path misses. For a collection of the one block
  \<open>a00\<close> whose two function spaces are the same space \<open>V\<close>, on a mesh whose
  communicator has the size of the world communicator, and a target whose row \<open>d\<close> and
  column \<open>d\<close> are zero before: for every dof \<open>d\<close> of the collected boundary values,
  row \<open>d\<close> and column \<open>d\<close> of the assembled matrix are zero except for the diagonal
  entry, which is \<open>1\<close>.
\<close>

theorem single_path_unit_diagonal:
  assumes a: "asm_a asm = [[Some a00]]"
    and V0: "Form_function_space a00 0 = Inr (Some V)"
    and V1: "Form_function_space a00 1 = Inr (Some V)"
    and mesh: "Form_mesh a00 = Inr mesh"
    and nproc: "nproc = mesh_mpi_size mesh"
    and alloc: "allocate_matrix asm T block_type = Inr (MatPlain M)"
    and zero: "\<forall>q. mat_values M d q = 0 \<and> mat_values M q d = 0"
    and bv: "collect_boundary_values nproc (Inr V) (asm_bcs asm) [] = Inr bv"
    and d: "map_of bv d \<noteq> None"
    and run: "assemble_matrix nproc asm T block_type = Inr R"
  shows "\<exists>M'. R = MatPlain M' \<and>
           (\<forall>q. mat_values M' d q = (if q = d then 1 else 0)) \<and>
           (\<forall>q. mat_values M' q d = (if q = d then 1 else 0))"
proof -
  let ?bcs = "asm_bcs asm"
  from run alloc a obtain M1 where
    s: "assemble_single nproc asm M = Inr M1" and R: "R = MatPlain (Mat_apply FINAL M1)"
    by (auto simp: assemble_matrix_def PETScMatrix_apply_def split: sum.splits)
  have axes: "collect_axes (mesh_mpi_size mesh) V V ?bcs ([], []) = Inr (bv, bv)"
    using bv nproc by (simp add: collect_axes_split)
  from s a V0 V1 obtain A1 where
    core: "assemble_matrix_form None M a00 ?bcs = Inr A1" and
    M1: "M1 = A1\<lparr>mat_values := place_ones bv (mat_values A1)\<rparr>"
    using bv
    by (auto simp: assemble_single_def block00_def deref_def split: sum.splits)
  from core mesh V0 V1 axes obtain vals where
    cells: "assemble_cells None a00 V V bv bv (mesh_cells mesh) (mat_values M) = Inr vals" and
    A1: "A1 = M\<lparr>mat_values := vals\<rparr>"
    by (auto simp: assemble_matrix_form_def deref_def split: sum.splits)
  have row: "vals d q = 0" for q
    using assemble_cells_constrained [OF cells, of d q] d zero by simp
  have col: "vals q d = 0" for q
    using assemble_cells_constrained [OF cells, of q d] d zero by simp
  have din: "d \<in> fst ` set bv"
    using d by (simp add: map_of_eq_None_iff)
  have "\<forall>q. mat_values (Mat_apply FINAL M1) d q = (if q = d then 1 else 0)"
    using row din by (auto simp: M1 A1 Mat_apply_def place_ones_entry)
  moreover have "\<forall>q. mat_values (Mat_apply FINAL M1) q d = (if q = d then 1 else 0)"
    using col din by (auto simp: M1 A1 Mat_apply_def place_ones_entry)
  ultimately show ?thesis using R by blast
qed

lemma collect_ex_asm1:
  "collect_boundary_values 1 (Inr ex_V) (asm_bcs ex_asm1) [] = Inr [(0, 5)]"
  by (simp add: ex_asm1_def ex_defs contains_def merge_bc_def get_boundary_values_def)

theorem single_path_unit_diagonal_witness:
  "asm_a ex_asm1 = [[Some ex_a]] \<and>
   Form_function_space ex_a 0 = Inr (Some ex_V) \<and>
   Form_function_space ex_a 1 = Inr (Some ex_V) \<and>
   Form_mesh ex_a = Inr ex_mesh \<and>
   1 = mesh_mpi_size ex_mesh \<and>
   allocate_matrix ex_asm1 MatEmpty monolithic = Inr (MatPlain zero_Mat) \<and>
   collect_boundary_values 1 (Inr ex_V) (asm_bcs ex_asm1) [] = Inr [(0, 5)] \<and>
   (\<exists>M'. assemble_matrix 1 ex_asm1 MatEmpty monolithic = Inr (MatPlain M') \<and>
      mat_values M' 0 0 = 1 \<and> mat_values M' 0 1 = 0 \<and> mat_values M' 1 0 = 0)"
proof -
  have a: "asm_a ex_asm1 = [[Some ex_a]]" by (simp add: ex_asm1_def)
  have V0: "Form_function_space ex_a 0 = Inr (Some ex_V)"
    and V1: "Form_function_space ex_a 1 = Inr (Some ex_V)"
    by (simp_all add: Form_function_space_def ex_a_def ex_form_def)
  have n: "1 = mesh_mpi_size ex_mesh" by (simp add: ex_mesh_def)
  have z: "\<forall>q. mat_values zero_Mat 0 q = 0 \<and> mat_values zero_Mat q 0 = 0"
    by (simp add: zero_Mat_def)
  have d: "map_of [(0::nat, 5::real)] 0 \<noteq> None" by simp
  obtain R where run: "assemble_matrix 1 ex_asm1 MatEmpty monolithic = Inr R"
    using assemble_matrix_ex_asm1_single by blast
  from single_path_unit_diagonal
    [OF a V0 V1 Form_mesh_ex_a n allocate_ex_asm1(2) z collect_ex_asm1 d run]
  obtain M' where R: "R = MatPlain M'"
    and r: "\<forall>q. mat_values M' 0 q = (if q = 0 then 1 else 0)"
    and c: "\<forall>q. mat_values M' q 0 = (if q = 0 then 1 else 0)"
    by blast
  have "mat_values M' 0 0 = 1 \<and> mat_values M' 0 1 = 0 \<and> mat_values M' 1 0 = 0"
    using r c by simp
  with a V0 V1 Form_mesh_ex_a n allocate_ex_asm1(2) collect_ex_asm1 run R
  show ?thesis by simp
qed

end
